(* ===== verification/Prelude.thy ===== *)
theory Prelude
  imports Complex_Main "HOL-Library.Sublist"
begin

text \<open>
  Shared ground of the development: the collection of view definitions, the string operations of
  JavaScript that the sources use, and the interface of invariants kept by a step (\<open>kept\<close>, \<open>kept_by\<close>).  A string is the sequence of its UTF-8 bytes, as it stands
  in the source files and on the wire; \<open>u16len\<close> is what JavaScript's \<open>length\<close> counts
  (UTF-16 code units), \<open>length\<close> is what Go's \<open>len\<close> counts (bytes).  Case mapping and
  white space are those of ASCII.
\<close>

named_theorems view_defs \<open>definitions of views, unfolded to evaluate them\<close>

section \<open>Decimal numerals\<close>

definition digit_char :: "nat \<Rightarrow> char" where
  "digit_char d = ''0123456789'' ! d"

definition digit_val :: "char \<Rightarrow> nat option" where
  "digit_val c = (let k = of_char c in if 48 \<le> k \<and> k \<le> 57 then Some (k - 48) else None)"

fun nat_string :: "nat \<Rightarrow> string" where
  "nat_string n =
     (if n < 10 then [digit_char n] else nat_string (n div 10) @ [digit_char (n mod 10)])"

declare nat_string.simps [simp del]

definition int_string :: "int \<Rightarrow> string" where
  "int_string i = (if i < 0 then CHR ''-'' # nat_string (nat (- i)) else nat_string (nat i))"

fun digits_val :: "nat \<Rightarrow> string \<Rightarrow> nat option" where
  "digits_val acc [] = Some acc"
| "digits_val acc (c # cs) =
     (case digit_val c of None \<Rightarrow> None | Some d \<Rightarrow> digits_val (10 * acc + d) cs)"

lemma less_10_cases:
  assumes "d < (10 :: nat)"
  obtains "d = 0" | "d = 1" | "d = 2" | "d = 3" | "d = 4"
    | "d = 5" | "d = 6" | "d = 7" | "d = 8" | "d = 9"
  using assms by (auto simp: numeral_eq_Suc less_Suc_eq)

lemma digit_val_char [simp]: "d < 10 \<Longrightarrow> digit_val (digit_char d) = Some d"
  by (erule less_10_cases) (simp_all add: digit_val_def digit_char_def)

lemma digits_val_append:
  "digits_val acc (s @ t) = Option.bind (digits_val acc s) (\<lambda>a. digits_val a t)"
  by (induction s arbitrary: acc) (auto split: option.splits)

lemma digits_val_nat_string [simp]: "digits_val 0 (nat_string n) = Some n"
proof (induction n rule: nat_string.induct)
  case (1 n)
  then show ?case
    by (subst nat_string.simps) (auto simp: digits_val_append)
qed

lemma nat_string_nonempty [simp]: "nat_string n \<noteq> []"
  by (subst nat_string.simps) simp

lemma nat_string_digits: "c \<in> set (nat_string n) \<Longrightarrow> \<exists>d < 10. c = digit_char d"
proof (induction n rule: nat_string.induct)
  case (1 n)
  then show ?case
    by (subst (asm) (2) nat_string.simps) (auto split: if_splits intro: exI [of _ "n mod 10"])
qed

lemma nat_string_digit_val: "c \<in> set (nat_string n) \<Longrightarrow> digit_val c \<noteq> None"
  by (auto dest: nat_string_digits)

lemma nat_string_inj: "nat_string m = nat_string n \<Longrightarrow> m = n"
  by (metis digits_val_nat_string option.inject)

text \<open>
  \<open>x.toFixed(f)\<close> for a number below \<open>10 ^ 21\<close>: the integer nearest to \<open>x * 10 ^ f\<close>, the larger
  one of two, with \<open>f\<close> digits after the point; \<open>Math.round\<close> rounds a half upwards.
\<close>

definition place_point :: "nat \<Rightarrow> string \<Rightarrow> string" where
  "place_point f m =
     (if f = 0 then m
      else let d = (if length m \<le> f then replicate (Suc f - length m) CHR ''0'' @ m else m)
           in take (length d - f) d @ ''.'' @ drop (length d - f) d)"

lemma nearest_nat:
  assumes "0 \<le> (x :: rat)"
  shows "\<bar>of_nat (nat \<lfloor>x + 1 / 2\<rfloor>) - x\<bar> \<le> 1 / 2"
proof -
  have "of_int \<lfloor>x + 1 / 2\<rfloor> \<le> x + 1 / 2" "x + 1 / 2 < of_int (\<lfloor>x + 1 / 2\<rfloor> + 1)"
    using floor_correct [of "x + 1 / 2"] by blast+
  moreover have "(of_nat (nat \<lfloor>x + 1 / 2\<rfloor>) :: rat) = of_int \<lfloor>x + 1 / 2\<rfloor>"
    using assms by simp
  ultimately show ?thesis unfolding abs_le_iff of_int_add of_int_1 by linarith
qed

lemma place_point_1: "place_point 1 (nat_string n) = nat_string (n div 10) @ ''.'' @ nat_string (n mod 10)"
proof (cases "n < 10")
  case True
  then have "nat_string n = [digit_char n]" "nat_string 0 = ''0''"
    by (subst nat_string.simps, simp add: digit_char_def)+
  with True show ?thesis by (simp add: place_point_def Let_def)
next
  case False
  have d: "nat_string (n mod 10) = [digit_char (n mod 10)]" by (subst nat_string.simps) simp
  have "nat_string n = nat_string (n div 10) @ [digit_char (n mod 10)]"
    using False by (subst nat_string.simps) simp
  moreover have "0 < length (nat_string (n div 10))" by simp
  ultimately show ?thesis by (simp add: place_point_def Let_def d)
qed

definition to_fixed :: "nat \<Rightarrow> rat \<Rightarrow> string" where
  "to_fixed f x =
     (if x < 0 then CHR ''-'' # place_point f (nat_string (nat \<lfloor>- x * 10 ^ f + 1 / 2\<rfloor>))
      else place_point f (nat_string (nat \<lfloor>x * 10 ^ f + 1 / 2\<rfloor>)))"

definition math_round :: "rat \<Rightarrow> int" where
  "math_round x = \<lfloor>x + 1 / 2\<rfloor>"

section \<open>Code units and white space\<close>

definition is_cont :: "char \<Rightarrow> bool" where
  "is_cont c \<longleftrightarrow> 128 \<le> (of_char c :: nat) \<and> (of_char c :: nat) < 192"

definition units :: "char \<Rightarrow> nat" where
  "units c = (if is_cont c then 0 else if 240 \<le> (of_char c :: nat) then 2 else 1)"

definition u16len :: "string \<Rightarrow> nat" where
  "u16len s = sum_list (map units s)"

text \<open>The lead byte of a well-formed sequence says how many continuation bytes follow.\<close>

definition lead_conts :: "char \<Rightarrow> nat option" where
  "lead_conts c = (let k = of_char c :: nat in
     if k < 128 then Some 0 else if k < 192 then None else if k < 224 then Some 1
     else if k < 240 then Some 2 else if k < 248 then Some 3 else None)"

function utf8 :: "string \<Rightarrow> bool" where
  "utf8 [] \<longleftrightarrow> True"
| "utf8 (c # cs) \<longleftrightarrow>
     (case lead_conts c of None \<Rightarrow> False
      | Some n \<Rightarrow> n \<le> length cs \<and> list_all is_cont (take n cs) \<and> utf8 (drop n cs))"
  by pat_completeness auto
termination
  by (relation "measure length") auto

lemma u16len_Nil [simp]: "u16len [] = 0"
  and u16len_Cons [simp]: "u16len (c # s) = units c + u16len s"
  and u16len_append [simp]: "u16len (s @ t) = u16len s + u16len t"
  by (simp_all add: u16len_def)

lemma u16len_conts: "list_all is_cont s \<Longrightarrow> u16len s = 0"
  by (induction s) (auto simp: units_def)

lemma units_lead: "lead_conts c = Some n \<Longrightarrow> units c \<le> Suc n"
  by (auto simp: lead_conts_def units_def Let_def split: if_splits)

text \<open>A well-formed string has at most as many code units as bytes.\<close>

lemma u16len_le_length: "utf8 s \<Longrightarrow> u16len s \<le> length s"
proof (induction s rule: utf8.induct)
  case 1
  then show ?case by simp
next
  case (2 c cs)
  then obtain n where n: "lead_conts c = Some n" "n \<le> length cs"
      "list_all is_cont (take n cs)" "utf8 (drop n cs)"
    by (auto split: option.splits)
  have "u16len cs = u16len (take n cs) + u16len (drop n cs)"
    by (metis append_take_drop_id u16len_append)
  moreover have "u16len (drop n cs) \<le> length cs - n"
    using "2.IH" n by simp
  ultimately show ?case
    using n units_lead [OF n(1)] by (simp add: u16len_conts)
qed

definition is_ws :: "char \<Rightarrow> bool" where
  "is_ws c \<longleftrightarrow> (of_char c :: nat) \<in> {9, 10, 11, 12, 13, 32}"

definition trim_left :: "string \<Rightarrow> string" where
  "trim_left = dropWhile is_ws"

definition trim :: "string \<Rightarrow> string" where
  "trim s = rev (trim_left (rev (trim_left s)))"

text \<open>\<open>s.split(/\s+/)\<close>: the pieces between maximal runs of white space; never the empty
  list.\<close>

lemma split_ws_decreases:
  assumes "r = dropWhile (\<lambda>c. \<not> is_ws c) s" and "r \<noteq> []"
  shows "length (dropWhile is_ws r) < length s"
proof -
  have "is_ws (hd r)" using assms hd_dropWhile by blast
  then have "length (dropWhile is_ws r) < length r"
    using assms(2) by (cases r) (auto intro: le_imp_less_Suc length_dropWhile_le)
  also have "length r \<le> length s" unfolding assms(1) by (rule length_dropWhile_le)
  finally show ?thesis .
qed

function split_ws :: "string \<Rightarrow> string list" where
  "split_ws s =
     (let w = takeWhile (\<lambda>c. \<not> is_ws c) s; r = dropWhile (\<lambda>c. \<not> is_ws c) s
      in if r = [] then [w] else w # split_ws (dropWhile is_ws r))"
  by pat_completeness auto
termination
proof (relation "measure length")
  show "wf (measure (length :: string \<Rightarrow> nat))" by simp
next
  fix s w r :: string
  assume "r = dropWhile (\<lambda>c. \<not> is_ws c) s" and "r \<noteq> []"
  then show "(dropWhile is_ws r, s) \<in> measure length"
    unfolding in_measure by (rule split_ws_decreases)
qed

declare split_ws.simps [simp del]

lemma split_ws_word:
  assumes "\<forall>c \<in> set w. \<not> is_ws c"
  shows "split_ws w = [w]"
  using assms by (subst split_ws.simps) simp

lemma split_ws_step:
  assumes "\<forall>c \<in> set w. \<not> is_ws c" and "is_ws b" and "r \<noteq> [] \<Longrightarrow> \<not> is_ws (hd r)"
  shows "split_ws (w @ b # r) = w # split_ws r"
proof -
  have "dropWhile is_ws (b # r) = r"
    using assms(2,3) by (cases r) auto
  then show ?thesis
    using assms(1,2) by (subst split_ws.simps) (simp add: Let_def takeWhile_append2 dropWhile_append2)
qed

section \<open>Prefixes, substrings, padding, case\<close>

fun str_includes :: "string \<Rightarrow> string \<Rightarrow> bool" where
  "str_includes [] t \<longleftrightarrow> t = []"
| "str_includes (c # s) t \<longleftrightarrow> prefix t (c # s) \<or> str_includes s t"

lemma str_includes_iff_sublist: "str_includes s t \<longleftrightarrow> sublist t s"
  by (induction s) (auto simp: sublist_Cons_right)

lemma str_includes_Nil [simp]: "str_includes s []"
  by (simp add: str_includes_iff_sublist)

definition pad_start :: "nat \<Rightarrow> char \<Rightarrow> string \<Rightarrow> string" where
  "pad_start n c s = replicate (n - u16len s) c @ s"

definition lower_char :: "char \<Rightarrow> char" where
  "lower_char c = (let k = of_char c :: nat in if 65 \<le> k \<and> k \<le> 90 then char_of (k + 32) else c)"

definition upper_char :: "char \<Rightarrow> char" where
  "upper_char c = (let k = of_char c :: nat in if 97 \<le> k \<and> k \<le> 122 then char_of (k - 32) else c)"

abbreviation to_lower :: "string \<Rightarrow> string" where
  "to_lower \<equiv> map lower_char"

text \<open>Dashes and the ellipsis of the user interface, as UTF-8.\<close>

definition em_dash :: string where
  "em_dash = [CHR 0xE2, CHR 0x80, CHR 0x94]"

definition ellipsis :: string where
  "ellipsis = [CHR 0xE2, CHR 0x80, CHR 0xA6]"

definition copyright_sign :: string where
  "copyright_sign = [CHR 0xC2, CHR 0xA9]"

definition middle_dot :: string where
  "middle_dot = [CHR 0xC2, CHR 0xB7]"

definition check_mark :: string where
  "check_mark = [CHR 0xE2, CHR 0x9C, CHR 0x93]"

definition cross_mark :: string where
  "cross_mark = [CHR 0xE2, CHR 0x9C, CHR 0x97]"

definition bullet :: string where
  "bullet = [CHR 0xE2, CHR 0x80, CHR 0xA2]"

section \<open>Lists and options\<close>

lemma map_enumerate:
  "map (\<lambda>p. f (fst p) (snd p)) (enumerate 0 xs) = map (\<lambda>i. f i (xs ! i)) [0..<length xs]"
  by (rule nth_equalityI) (simp_all add: nth_enumerate_eq)

lemma find_append: "find P (xs @ ys) = (case find P xs of None \<Rightarrow> find P ys | Some x \<Rightarrow> Some x)"
  by (induction xs) simp_all

lemma find_SomeD: "find P xs = Some x \<Longrightarrow> x \<in> set xs \<and> P x"
  by (induction xs) (auto split: if_splits)

lemma concat_map_if: "concat (map (\<lambda>x. if P x then [f x] else []) xs) = map f (filter P xs)"
  by (induction xs) simp_all

lemma map_of_filter_neq: "k \<noteq> k' \<Longrightarrow> map_of (filter (\<lambda>p. fst p \<noteq> k') xs) k = map_of xs k"
  by (induction xs) auto

lemma map_of_filter_eq [simp]: "map_of (filter (\<lambda>p. fst p \<noteq> k) xs) k = None"
  by (induction xs) auto

section \<open>Invariants\<close>

text \<open>What every step of a relation keeps holds on every path; the same for actions in a row.\<close>

locale kept =
  fixes step :: "'s \<Rightarrow> 's \<Rightarrow> bool" and inv :: "'s \<Rightarrow> bool"
  assumes keeps: "step s s' \<Longrightarrow> inv s \<Longrightarrow> inv s'"
begin

lemma always: "step\<^sup>*\<^sup>* s s' \<Longrightarrow> inv s \<Longrightarrow> inv s'"
  by (induction rule: rtranclp_induct) (auto intro: keeps)

end

locale kept_by =
  fixes act :: "'e \<Rightarrow> 's \<Rightarrow> 's" and inv :: "'s \<Rightarrow> bool"
  assumes acts: "inv s \<Longrightarrow> inv (act e s)"
begin

lemma in_a_row: "inv s \<Longrightarrow> inv (fold act es s)"
  by (induction es arbitrary: s) (simp_all add: acts)

end

sublocale kept_by \<subseteq> each: kept "\<lambda>s s'. \<exists>e. s' = act e s" inv
  by unfold_locales (auto intro: acts)

end
