(* ===== verification/JsValue.thy ===== *)
theory JsValue
  imports Prelude
begin

text \<open>
  The JavaScript values that cross the program's interfaces (request and response bodies, form
  objects, the entries of localStorage) and the operators the sources apply to them:
  truthiness, \<open>||\<close>, \<open>??\<close>, \<open>?.\<close>, property assignment, object spread and the conversion to
  text of a template literal.  A number is an integer (\<open>JNum\<close>) or a literal with a
  fraction or an exponent, kept as its text (\<open>JDec\<close>).  An object is the list of its own
  properties in the order they were added.
\<close>

datatype jsval =
    JUndef
  | JNull
  | JBool bool
  | JNum int
  | JDec string
  | JStr string
  | JArr "jsval list"
  | JObj "(string \<times> jsval) list"

type_synonym props = "(string \<times> jsval) list"

section \<open>Operators\<close>

text \<open>The mantissa of a literal: everything before an exponent mark.\<close>

definition mantissa :: "string \<Rightarrow> string" where
  "mantissa = takeWhile (\<lambda>c. c \<noteq> CHR ''e'' \<and> c \<noteq> CHR ''E'')"

fun truthy :: "jsval \<Rightarrow> bool" where
  "truthy JUndef = False"
| "truthy JNull = False"
| "truthy (JBool b) = b"
| "truthy (JNum n) = (n \<noteq> 0)"
| "truthy (JDec s) = (\<exists>c \<in> set (mantissa s). c \<in> set ''123456789'')"
| "truthy (JStr s) = (s \<noteq> [])"
| "truthy (JArr _) = True"
| "truthy (JObj _) = True"

definition js_or :: "jsval \<Rightarrow> jsval \<Rightarrow> jsval" where
  "js_or a b = (if truthy a then a else b)"

definition nullish :: "jsval \<Rightarrow> jsval \<Rightarrow> jsval" where
  "nullish a b = (if a = JUndef \<or> a = JNull then b else a)"

text \<open>\<open>v?.k\<close>: undefined on a value that has no properties of its own.\<close>

fun oget :: "jsval \<Rightarrow> string \<Rightarrow> jsval" where
  "oget (JObj ps) k = (case map_of ps k of None \<Rightarrow> JUndef | Some v \<Rightarrow> v)"
| "oget _ _ = JUndef"

text \<open>\<open>o[k] = v\<close>: an existing property keeps its place, a new one goes last.\<close>

fun put :: "('k \<times> 'v) list \<Rightarrow> 'k \<Rightarrow> 'v \<Rightarrow> ('k \<times> 'v) list" where
  "put [] k v = [(k, v)]"
| "put ((k', v') # ps) k v = (if k' = k then (k, v) # ps else (k', v') # put ps k v)"

text \<open>\<open>{...ps, ...qs}\<close>.\<close>

definition spread :: "('k \<times> 'v) list \<Rightarrow> ('k \<times> 'v) list \<Rightarrow> ('k \<times> 'v) list" where
  "spread ps qs = foldl (\<lambda>acc kv. put acc (fst kv) (snd kv)) ps qs"

definition join_with :: "string \<Rightarrow> string list \<Rightarrow> string" where
  "join_with sep xs = (case xs of [] \<Rightarrow> [] | x # ys \<Rightarrow> x @ concat (map (\<lambda>y. sep @ y) ys))"

fun js_text :: "jsval \<Rightarrow> string" where
  "js_text JUndef = ''undefined''"
| "js_text JNull = ''null''"
| "js_text (JBool b) = (if b then ''true'' else ''false'')"
| "js_text (JNum n) = int_string n"
| "js_text (JDec s) = s"
| "js_text (JStr s) = s"
| "js_text (JArr vs) =
     join_with '','' (map (\<lambda>v. if v = JUndef \<or> v = JNull then [] else js_text v) vs)"
| "js_text (JObj _) = ''[object Object]''"

section \<open>Facts\<close>

lemma map_of_put [simp]: "map_of (put ps k v) = (map_of ps)(k \<mapsto> v)"
  by (induction ps) auto

lemma keys_put: "fst ` set (put ps k v) = insert k (fst ` set ps)"
  by (induction ps k v rule: put.induct) (simp_all add: insert_commute)

lemma distinct_put: "distinct (map fst ps) \<Longrightarrow> distinct (map fst (put ps k v))"
proof (induction ps)
  case (Cons p ps)
  then show ?case using keys_put [of ps k v] by (cases p) (auto simp: image_iff)
qed simp

lemma put_keys_known: "k \<in> fst ` set ps \<Longrightarrow> map fst (put ps k v) = map fst ps"
  by (induction ps k v rule: put.induct) (simp_all, metis)

lemma put_fresh: "k \<notin> fst ` set ps \<Longrightarrow> put ps k v = ps @ [(k, v)]"
  by (induction ps) auto

lemma spread_Nil [simp]: "spread ps [] = ps"
  and spread_Cons [simp]: "spread ps ((k, v) # qs) = spread (put ps k v) qs"
  by (simp_all add: spread_def)

lemma distinct_spread: "distinct (map fst ps) \<Longrightarrow> distinct (map fst (spread ps qs))"
proof (induction qs arbitrary: ps)
  case (Cons q qs)
  then show ?case by (cases q) (simp add: distinct_put)
qed simp

lemma keys_spread: "fst ` set (spread ps qs) = fst ` set ps \<union> fst ` set qs"
proof (induction qs arbitrary: ps)
  case (Cons q qs)
  then show ?case by (cases q) (simp add: keys_put)
qed simp

lemma map_of_spread_notin: "k \<notin> fst ` set qs \<Longrightarrow> map_of (spread ps qs) k = map_of ps k"
proof (induction qs arbitrary: ps)
  case (Cons q qs)
  then show ?case by (cases q) auto
qed simp

lemma map_of_spread:
  "distinct (map fst qs) \<Longrightarrow> map_of (spread ps qs) k = (map_of ps ++ map_of qs) k"
proof (induction qs arbitrary: ps)
  case (Cons q qs)
  obtain k' v where q: "q = (k', v)" by (cases q)
  have "map_of qs k' = None"
    using Cons.prems q by (simp add: map_of_eq_None_iff)
  then show ?case
    using Cons q by (simp add: map_add_def split: option.splits)
qed simp

lemma spread_fresh:
  "distinct (map fst (ps @ qs)) \<Longrightarrow> spread ps qs = ps @ qs"
proof (induction qs arbitrary: ps)
  case (Cons q qs)
  obtain k v where q: "q = (k, v)" by (cases q)
  with Cons.prems have fresh: "k \<notin> fst ` set ps" by auto
  have "spread (ps @ [(k, v)]) qs = (ps @ [(k, v)]) @ qs"
    by (rule Cons.IH) (use Cons.prems q in simp)
  with q fresh show ?case by (simp add: put_fresh)
qed simp

lemma truthy_nonempty_str [simp]: "truthy (JStr s) \<longleftrightarrow> s \<noteq> []"
  by simp

lemma js_or_str: "js_or (JStr s) d = (if s = [] then d else JStr s)"
  by (simp add: js_or_def)

lemmas js_ops = js_or_def nullish_def

end
