(* ===== verification/Api.thy ===== *)
theory Api
  imports JsValue
begin

text \<open>
  The API layer of the front end (\<open>src/api\<close>): the axios client with its request
  interceptor, and one definition per exported function.  A call is the request it sends and
  what its promise resolves to, as a function of the server's response: most functions unwrap
  \<open>r.data\<close>, those of \<open>admin.js\<close> and \<open>auth.js\<close> hand the whole response on.
  localStorage is a map from keys to strings.
\<close>

datatype http_method = GET | POST | PUT | PATCH | DELETE

record request =
  rq_method :: http_method
  rq_url :: string
  rq_params :: "(string \<times> jsval) list"
  rq_headers :: "(string \<times> string) list"
  rq_body :: "jsval option"
  rq_blob :: bool

record response =
  rs_status :: nat
  rs_data :: jsval

record call =
  call_request :: request
  call_result :: "response \<Rightarrow> jsval"

type_synonym storage = "string \<rightharpoonup> string"

section \<open>client.js\<close>

definition base_url :: string where
  "base_url = ''/api''"

definition client_headers :: "(string \<times> string) list" where
  "client_headers = [(''Content-Type'', ''application/json'')]"

text \<open>The interceptor: it reads the token at the time of the request, not of the render.\<close>

definition intercept :: "storage \<Rightarrow> request \<Rightarrow> request" where
  "intercept st r =
     (case st ''token'' of
        None \<Rightarrow> r
      | Some token \<Rightarrow>
          if token = [] then r
          else r\<lparr>rq_headers := put (rq_headers r) ''Authorization'' (''Bearer '' @ token)\<rparr>)"

definition client :: "http_method \<Rightarrow> string \<Rightarrow> jsval option \<Rightarrow> request" where
  "client m url body =
     \<lparr>rq_method = m, rq_url = base_url @ url, rq_params = [], rq_headers = client_headers,
      rq_body = body, rq_blob = False\<rparr>"

definition data_of :: "request \<Rightarrow> call" where
  "data_of r = \<lparr>call_request = r, call_result = rs_data\<rparr>"

text \<open>The response object itself, as far as the callers look at it.\<close>

definition response_value :: "response \<Rightarrow> jsval" where
  "response_value r = JObj [(''status'', JNum (int (rs_status r))), (''data'', rs_data r)]"

definition response_of :: "request \<Rightarrow> call" where
  "response_of r = \<lparr>call_request = r, call_result = response_value\<rparr>"

section \<open>auth.js\<close>

definition login :: "string \<Rightarrow> string \<Rightarrow> call" where
  "login email password = response_of (client POST ''/auth/login''
     (Some (JObj [(''email'', JStr email), (''password'', JStr password)])))"

definition register :: "string \<Rightarrow> string \<Rightarrow> call" where
  "register email password = response_of (client POST ''/auth/register''
     (Some (JObj [(''email'', JStr email), (''password'', JStr password)])))"

definition changePassword :: "string \<Rightarrow> string \<Rightarrow> call" where
  "changePassword current_password new_password = response_of (client PUT ''/profile/password''
     (Some (JObj [(''current_password'', JStr current_password),
                  (''new_password'', JStr new_password)])))"

section \<open>jobs.js\<close>

definition getJobs :: call where
  "getJobs = data_of (client GET ''/jobs'' None)"

definition getJob :: "string \<Rightarrow> call" where
  "getJob i = data_of (client GET (''/jobs/'' @ i) None)"

definition createJob :: "jsval \<Rightarrow> call" where
  "createJob d = data_of (client POST ''/jobs'' (Some d))"

definition updateJob :: "string \<Rightarrow> jsval \<Rightarrow> call" where
  "updateJob i d = data_of (client PUT (''/jobs/'' @ i) (Some d))"

definition deleteJob :: "string \<Rightarrow> call" where
  "deleteJob i = response_of (client DELETE (''/jobs/'' @ i) None)"

definition pauseJob :: "string \<Rightarrow> call" where
  "pauseJob i = data_of (client POST (''/jobs/'' @ i @ ''/pause'') None)"

definition resumeJob :: "string \<Rightarrow> call" where
  "resumeJob i = data_of (client POST (''/jobs/'' @ i @ ''/resume'') None)"

definition triggerJob :: "string \<Rightarrow> call" where
  "triggerJob i = data_of (client POST (''/jobs/'' @ i @ ''/trigger'') None)"

section \<open>executions.js\<close>

text \<open>\<open>None\<close> stands for an absent argument: \<open>limit\<close> then takes its default.\<close>

definition getExecutions :: "string option \<Rightarrow> nat option \<Rightarrow> call" where
  "getExecutions jobId limit =
     (let l = (case limit of None \<Rightarrow> 50 | Some l \<Rightarrow> l);
          params = [(''limit'', JNum (int l))];
          params = (case jobId of
              Some j \<Rightarrow> if j = [] then params else put params ''job_id'' (JStr j)
            | None \<Rightarrow> params)
      in data_of ((client GET ''/executions'' None)\<lparr>rq_params := params\<rparr>))"

definition getRunningExecutions :: call where
  "getRunningExecutions = data_of (client GET ''/executions/running'' None)"

definition getExecution :: "string \<Rightarrow> call" where
  "getExecution i = data_of (client GET (''/executions/'' @ i) None)"

section \<open>report.js\<close>

definition getReportSummary :: call where
  "getReportSummary = data_of (client GET ''/report/summary'' None)"

definition getReportTimeline :: "nat option \<Rightarrow> call" where
  "getReportTimeline days =
     (let d = (case days of None \<Rightarrow> 30 | Some d \<Rightarrow> d)
      in data_of ((client GET ''/report/timeline'' None)\<lparr>rq_params := [(''days'', JNum (int d))]\<rparr>))"

definition getReportJobs :: call where
  "getReportJobs = data_of (client GET ''/report/jobs'' None)"

text \<open>
  \<open>URLSearchParams\<close>: the application/x-www-form-urlencoded serializer of the URL standard, over
  UTF-8 bytes.
\<close>

definition hex_upper :: "nat \<Rightarrow> char" where
  "hex_upper d = ''0123456789ABCDEF'' ! d"

definition form_encode_char :: "char \<Rightarrow> string" where
  "form_encode_char c = (let k = of_char c :: nat in
     if 48 \<le> k \<and> k \<le> 57 \<or> 65 \<le> k \<and> k \<le> 90 \<or> 97 \<le> k \<and> k \<le> 122 \<or> k \<in> {42, 45, 46, 95} then [c]
     else if k = 32 then ''+''
     else [CHR ''%'', hex_upper (k div 16), hex_upper (k mod 16)])"

definition form_encode :: "string \<Rightarrow> string" where
  "form_encode s = concat (map form_encode_char s)"

definition search_params :: "(string \<times> string) list \<Rightarrow> string" where
  "search_params ps = join_with ''&'' (map (\<lambda>(k, v). form_encode k @ ''='' @ form_encode v) ps)"

text \<open>
  \<open>downloadCsv\<close>: the request it awaits, then what it does to the document.  The object URL and
  the current time come from the browser.
\<close>

datatype dom_effect =
    CreateObjectURL jsval
  | ClickLink string string
  | RevokeObjectURL string

definition downloadCsv_request :: "string option \<Rightarrow> nat option \<Rightarrow> request" where
  "downloadCsv_request jobId days =
     (let d = (case days of None \<Rightarrow> 30 | Some d \<Rightarrow> d);
          params = [(''days'', nat_string d)];
          params = (case jobId of
              Some j \<Rightarrow> if j = [] then params else put params ''job_id'' j
            | None \<Rightarrow> params)
      in (client GET (''/report/executions.csv?'' @ search_params params) None)\<lparr>rq_blob := True\<rparr>)"

definition downloadCsv_effects :: "string \<Rightarrow> string \<Rightarrow> response \<Rightarrow> dom_effect list" where
  "downloadCsv_effects object_url iso_now resp =
     [CreateObjectURL (rs_data resp),
      ClickLink object_url (''executions-'' @ take 10 iso_now @ ''.csv''),
      RevokeObjectURL object_url]"

section \<open>admin.js\<close>

definition admin_getUsers :: call where
  "admin_getUsers = response_of (client GET ''/admin/users'' None)"

definition admin_createUser :: "jsval \<Rightarrow> call" where
  "admin_createUser d = response_of (client POST ''/admin/users'' (Some d))"

definition admin_updateUser :: "string \<Rightarrow> jsval \<Rightarrow> call" where
  "admin_updateUser i d = response_of (client PATCH (''/admin/users/'' @ i) (Some d))"

definition admin_deleteUser :: "string \<Rightarrow> call" where
  "admin_deleteUser i = response_of (client DELETE (''/admin/users/'' @ i) None)"

definition admin_getAllJobs :: call where
  "admin_getAllJobs = response_of (client GET ''/admin/jobs'' None)"

definition admin_createJob :: "jsval \<Rightarrow> call" where
  "admin_createJob d = response_of (client POST ''/admin/jobs'' (Some d))"

definition admin_updateJob :: "string \<Rightarrow> jsval \<Rightarrow> call" where
  "admin_updateJob i d = response_of (client PUT (''/admin/jobs/'' @ i) (Some d))"

definition admin_deleteJob :: "string \<Rightarrow> call" where
  "admin_deleteJob i = response_of (client DELETE (''/admin/jobs/'' @ i) None)"

definition admin_pauseJob :: "string \<Rightarrow> call" where
  "admin_pauseJob i = response_of (client POST (''/admin/jobs/'' @ i @ ''/pause'') None)"

definition admin_resumeJob :: "string \<Rightarrow> call" where
  "admin_resumeJob i = response_of (client POST (''/admin/jobs/'' @ i @ ''/resume'') None)"

definition admin_triggerJob :: "string \<Rightarrow> call" where
  "admin_triggerJob i = response_of (client POST (''/admin/jobs/'' @ i @ ''/trigger'') None)"

lemmas call_defs = data_of_def response_of_def client_def base_url_def client_headers_def

lemmas auth_calls = login_def register_def changePassword_def

lemmas job_calls = getJobs_def getJob_def createJob_def updateJob_def deleteJob_def pauseJob_def
  resumeJob_def triggerJob_def

lemmas report_calls = getExecutions_def getRunningExecutions_def getExecution_def
  getReportSummary_def getReportTimeline_def getReportJobs_def downloadCsv_request_def

lemmas admin_calls = admin_getUsers_def admin_createUser_def admin_updateUser_def
  admin_deleteUser_def admin_getAllJobs_def admin_createJob_def admin_updateJob_def
  admin_deleteJob_def admin_pauseJob_def admin_resumeJob_def admin_triggerJob_def

section \<open>Failures\<close>

text \<open>
  What a rejected call carries: \<open>err.response\<close> is absent when no response arrived.  The
  sources read \<open>err.response?.data?.error\<close> with a default.
\<close>

datatype failure = NoResponse | Refused jsval

fun failure_data :: "failure \<Rightarrow> jsval" where
  "failure_data NoResponse = JUndef"
| "failure_data (Refused d) = d"

definition failure_text :: "failure \<Rightarrow> string \<Rightarrow> jsval" where
  "failure_text err dflt = js_or (oget (failure_data err) ''error'') (JStr dflt)"

definition failure_text_nullish :: "failure \<Rightarrow> string \<Rightarrow> jsval" where
  "failure_text_nullish err dflt = nullish (oget (failure_data err) ''error'') (JStr dflt)"

lemma failure_text_truthy: "dflt \<noteq> [] \<Longrightarrow> truthy (failure_text err dflt)"
  by (simp add: failure_text_def js_or_def)

lemma failure_text_server:
  "msg \<noteq> [] \<Longrightarrow> failure_text (Refused (JObj [(''error'', JStr msg)])) dflt = JStr msg"
  by (simp add: failure_text_def js_or_def)

section \<open>The interceptor\<close>

lemma intercept_frame [simp]:
  "rq_method (intercept st r) = rq_method r"
  "rq_url (intercept st r) = rq_url r"
  "rq_params (intercept st r) = rq_params r"
  "rq_body (intercept st r) = rq_body r"
  by (simp_all add: intercept_def split: option.split)

lemma intercept_authorization:
  assumes "map_of (rq_headers r) ''Authorization'' = None"
  shows "map_of (rq_headers (intercept st r)) ''Authorization'' =
    (case st ''token'' of None \<Rightarrow> None | Some t \<Rightarrow> if t = [] then None else Some (''Bearer '' @ t))"
  using assms by (simp add: intercept_def split: option.split)

lemma intercept_other: "k \<noteq> ''Authorization'' \<Longrightarrow>
    map_of (rq_headers (intercept st r)) k = map_of (rq_headers r) k"
  by (simp add: intercept_def split: option.split)

lemma client_no_authorization [simp]:
  "map_of (rq_headers (client m u b)) ''Authorization'' = None"
  by (simp add: client_def client_headers_def)

end
