(* ===== verification/Json.thy ===== *)
theory Json
  imports JsValue
begin

text \<open>
  \<open>JSON.stringify\<close> and \<open>JSON.parse\<close>, as far as the sources use them: values without
  \<open>toJSON\<close>, no replacer and no indentation.  The parser is the grammar of ECMA-404 over the
  bytes of the text; its fuel bounds the nesting and the number of members, and twice the length
  of the text is always enough (\<open>pval_fuel\<close>).  The main fact is the round trip.
\<close>

section \<open>Writing\<close>

abbreviation dquote :: char where "dquote \<equiv> CHR 0x22"
abbreviation bslash :: char where "bslash \<equiv> CHR 0x5C"

definition hex_char :: "nat \<Rightarrow> char" where
  "hex_char d = ''0123456789abcdef'' ! d"

definition esc_char :: "char \<Rightarrow> string" where
  "esc_char c = (let k = of_char c :: nat in
     if k = 34 then [bslash, dquote]
     else if k = 92 then [bslash, bslash]
     else if k = 8 then [bslash, CHR ''b'']
     else if k = 9 then [bslash, CHR ''t'']
     else if k = 10 then [bslash, CHR ''n'']
     else if k = 12 then [bslash, CHR ''f'']
     else if k = 13 then [bslash, CHR ''r'']
     else if k < 32 then [bslash, CHR ''u'', CHR ''0'', CHR ''0'', hex_char (k div 16), hex_char (k mod 16)]
     else [c])"

definition quote :: "string \<Rightarrow> string" where
  "quote s = dquote # concat (map esc_char s) @ [dquote]"

fun json_text :: "jsval \<Rightarrow> string"
  and json_elems :: "jsval list \<Rightarrow> string list"
  and json_members :: "props \<Rightarrow> string list" where
  "json_text JUndef = ''null''"
| "json_text JNull = ''null''"
| "json_text (JBool b) = (if b then ''true'' else ''false'')"
| "json_text (JNum n) = int_string n"
| "json_text (JDec s) = s"
| "json_text (JStr s) = quote s"
| "json_text (JArr vs) = ''['' @ join_with '','' (json_elems vs) @ '']''"
| "json_text (JObj ps) = ''{'' @ join_with '','' (json_members ps) @ ''}''"
| "json_elems [] = []"
| "json_elems (v # vs) = json_text v # json_elems vs"
| "json_members [] = []"
| "json_members ((k, v) # ps) =
     (if v = JUndef then json_members ps
      else (quote k @ '':'' @ json_text v) # json_members ps)"

text \<open>\<open>JSON.stringify(undefined)\<close> is \<open>undefined\<close>, not a string.\<close>

definition stringify :: "jsval \<Rightarrow> jsval" where
  "stringify v = (if v = JUndef then JUndef else JStr (json_text v))"

section \<open>Reading\<close>

definition json_ws :: "char \<Rightarrow> bool" where
  "json_ws c \<longleftrightarrow> (of_char c :: nat) \<in> {9, 10, 13, 32}"

abbreviation skip :: "string \<Rightarrow> string" where
  "skip \<equiv> dropWhile json_ws"

definition is_digit :: "char \<Rightarrow> bool" where
  "is_digit c \<longleftrightarrow> digit_val c \<noteq> None"

definition hex_val :: "char \<Rightarrow> nat option" where
  "hex_val c = (let k = of_char c :: nat in
     if 48 \<le> k \<and> k \<le> 57 then Some (k - 48)
     else if 97 \<le> k \<and> k \<le> 102 then Some (k - 87)
     else if 65 \<le> k \<and> k \<le> 70 then Some (k - 55) else None)"

definition hex4 :: "string \<Rightarrow> (nat \<times> string) option" where
  "hex4 s = (case s of
     a # b # c # d # r \<Rightarrow>
       (case (hex_val a, hex_val b, hex_val c, hex_val d) of
          (Some w, Some x, Some y, Some z) \<Rightarrow> Some (((w * 16 + x) * 16 + y) * 16 + z, r)
        | _ \<Rightarrow> None)
   | _ \<Rightarrow> None)"

definition utf8_encode :: "nat \<Rightarrow> string" where
  "utf8_encode n =
     (if n < 128 then [char_of n]
      else if n < 2048 then [char_of (192 + n div 64), char_of (128 + n mod 64)]
      else if n < 65536 then
        [char_of (224 + n div 4096), char_of (128 + n div 64 mod 64), char_of (128 + n mod 64)]
      else [char_of (240 + n div 262144), char_of (128 + n div 4096 mod 64),
        char_of (128 + n div 64 mod 64), char_of (128 + n mod 64)])"

definition unesc :: "char \<Rightarrow> char option" where
  "unesc e = (let k = of_char e :: nat in
     if k \<in> {34, 92, 47} then Some e
     else if k = 98 then Some CHR 0x08
     else if k = 116 then Some CHR 0x09
     else if k = 110 then Some CHR 0x0A
     else if k = 102 then Some CHR 0x0C
     else if k = 114 then Some CHR 0x0D
     else None)"

text \<open>The escape after a backslash: its text and what is left; a surrogate pair is one character.\<close>

definition pescape :: "string \<Rightarrow> (string \<times> string) option" where
  "pescape s = (case s of
     [] \<Rightarrow> None
   | e # r \<Rightarrow>
       (case unesc e of
          Some x \<Rightarrow> Some ([x], r)
        | None \<Rightarrow>
            if e \<noteq> CHR ''u'' then None
            else (case hex4 r of
                None \<Rightarrow> None
              | Some (n, r') \<Rightarrow>
                  if 55296 \<le> n \<and> n < 56320 then
                    (case r' of
                       b # u # r'' \<Rightarrow>
                         (case hex4 r'' of
                            Some (m, q) \<Rightarrow>
                              if b = bslash \<and> u = CHR ''u'' \<and> 56320 \<le> m \<and> m < 57344
                              then Some (utf8_encode (65536 + (n - 55296) * 1024 + (m - 56320)), q)
                              else Some (utf8_encode n, r')
                          | None \<Rightarrow> Some (utf8_encode n, r'))
                     | _ \<Rightarrow> Some (utf8_encode n, r'))
                  else Some (utf8_encode n, r'))))"

lemma hex4_length: "hex4 s = Some (n, r) \<Longrightarrow> length r < length s"
  by (auto simp: hex4_def split: list.splits option.splits)

lemma pescape_length: "pescape s = Some (x, r) \<Longrightarrow> length r < length s"
  by (auto simp: pescape_def split: list.splits option.splits if_splits dest!: hex4_length)

text \<open>The characters of a string, after its opening quote.\<close>

function pchars :: "string \<Rightarrow> (string \<times> string) option" where
  "pchars s = (case s of
     [] \<Rightarrow> None
   | c # cs \<Rightarrow>
       if c = dquote then Some ([], cs)
       else if c = bslash then
         (case pescape cs of
            None \<Rightarrow> None
          | Some (x, r) \<Rightarrow> map_option (\<lambda>(t, q). (x @ t, q)) (pchars r))
       else if (of_char c :: nat) < 32 then None
       else map_option (\<lambda>(t, q). (c # t, q)) (pchars cs))"
  by pat_completeness auto
termination
  by (relation "measure length") (auto dest: pescape_length)

declare pchars.simps [simp del]

definition pfrac :: "string \<Rightarrow> (string \<times> string) option" where
  "pfrac s = (case s of
     c # r \<Rightarrow>
       if c = CHR ''.'' then
         (let fs = takeWhile is_digit r in
          if fs = [] then None else Some (c # fs, dropWhile is_digit r))
       else Some ([], s)
   | [] \<Rightarrow> Some ([], []))"

definition pexp :: "string \<Rightarrow> (string \<times> string) option" where
  "pexp s = (case s of
     c # r \<Rightarrow>
       if c = CHR ''e'' \<or> c = CHR ''E'' then
         (let (sg, q) = (case r of
              d # q' \<Rightarrow> if d = CHR ''+'' \<or> d = CHR ''-'' then ([d], q') else ([], r)
            | [] \<Rightarrow> ([], []));
            es = takeWhile is_digit q
          in if es = [] then None else Some (c # sg @ es, dropWhile is_digit q))
       else Some ([], s)
   | [] \<Rightarrow> Some ([], []))"

definition pnum :: "string \<Rightarrow> (jsval \<times> string) option" where
  "pnum s =
     (let (neg, r) = (case s of c # cs \<Rightarrow> if c = CHR ''-'' then (True, cs) else (False, s)
                       | [] \<Rightarrow> (False, []));
          ds = takeWhile is_digit r
      in if ds = [] \<or> (hd ds = CHR ''0'' \<and> 1 < length ds) then None
         else (case pfrac (dropWhile is_digit r) of
             None \<Rightarrow> None
           | Some (fs, r1) \<Rightarrow>
               (case pexp r1 of
                  None \<Rightarrow> None
                | Some (es, r2) \<Rightarrow>
                    if fs = [] \<and> es = [] then
                      (case digits_val 0 ds of
                         None \<Rightarrow> None
                       | Some k \<Rightarrow> Some (JNum (if neg then - int k else int k), r2))
                    else Some (JDec ((if neg then ''-'' else []) @ ds @ fs @ es), r2))))"

text \<open>Values, the elements of an array and the members of an object, with fuel.\<close>

fun pval :: "nat \<Rightarrow> string \<Rightarrow> (jsval \<times> string) option"
  and pelems :: "nat \<Rightarrow> string \<Rightarrow> (jsval list \<times> string) option"
  and pmembers :: "nat \<Rightarrow> props \<Rightarrow> string \<Rightarrow> (props \<times> string) option" where
  "pval 0 s = None"
| "pval (Suc n) s =
     (case skip s of
        [] \<Rightarrow> None
      | c # cs \<Rightarrow>
          if c = CHR ''{'' then
            (case skip cs of
               [] \<Rightarrow> None
             | d # r \<Rightarrow>
                 if d = CHR ''}'' then Some (JObj [], r)
                 else map_option (\<lambda>(ps, q). (JObj ps, q)) (pmembers n [] (d # r)))
          else if c = CHR ''['' then
            (case skip cs of
               [] \<Rightarrow> None
             | d # r \<Rightarrow>
                 if d = CHR '']'' then Some (JArr [], r)
                 else map_option (\<lambda>(vs, q). (JArr vs, q)) (pelems n (d # r)))
          else if c = dquote then map_option (\<lambda>(t, q). (JStr t, q)) (pchars cs)
          else if prefix ''true'' (c # cs) then Some (JBool True, drop 4 (c # cs))
          else if prefix ''false'' (c # cs) then Some (JBool False, drop 5 (c # cs))
          else if prefix ''null'' (c # cs) then Some (JNull, drop 4 (c # cs))
          else pnum (c # cs))"
| "pelems 0 s = None"
| "pelems (Suc n) s =
     (case pval n s of
        None \<Rightarrow> None
      | Some (v, r) \<Rightarrow>
          (case skip r of
             [] \<Rightarrow> None
           | c # cs \<Rightarrow>
               if c = CHR '','' then map_option (\<lambda>(vs, q). (v # vs, q)) (pelems n cs)
               else if c = CHR '']'' then Some ([v], cs)
               else None))"
| "pmembers 0 acc s = None"
| "pmembers (Suc n) acc s =
     (case skip s of
        [] \<Rightarrow> None
      | c # cs \<Rightarrow>
          if c \<noteq> dquote then None
          else (case pchars cs of
              None \<Rightarrow> None
            | Some (k, r) \<Rightarrow>
                (case skip r of
                   [] \<Rightarrow> None
                 | d # r' \<Rightarrow>
                     if d \<noteq> CHR '':'' then None
                     else (case pval n r' of
                         None \<Rightarrow> None
                       | Some (v, q) \<Rightarrow>
                           (case skip q of
                              [] \<Rightarrow> None
                            | e # q' \<Rightarrow>
                                if e = CHR '','' then pmembers n (put acc k v) q'
                                else if e = CHR ''}'' then Some (put acc k v, q')
                                else None)))))"

text \<open>\<open>JSON.parse\<close>: \<open>None\<close> is the thrown \<open>SyntaxError\<close>.\<close>

definition json_parse :: "string \<Rightarrow> jsval option" where
  "json_parse s =
     (case pval (Suc (2 * length s)) s of
        None \<Rightarrow> None
      | Some (v, r) \<Rightarrow> if skip r = [] then Some v else None)"

section \<open>The round trip\<close>

text \<open>Values JSON represents without loss: no \<open>undefined\<close>, safe integers, distinct keys.\<close>

fun json_safe :: "jsval \<Rightarrow> bool" where
  "json_safe JUndef = False"
| "json_safe JNull = True"
| "json_safe (JBool _) = True"
| "json_safe (JNum n) = (\<bar>n\<bar> < 2 ^ 53)"
| "json_safe (JDec _) = False"
| "json_safe (JStr _) = True"
| "json_safe (JArr vs) = list_all json_safe vs"
| "json_safe (JObj ps) = (distinct (map fst ps) \<and> list_all (\<lambda>p. json_safe (snd p)) ps)"

subsection \<open>Strings\<close>

lemma hex_val_char: "d < 16 \<Longrightarrow> hex_val (hex_char d) = Some d"
proof -
  assume "d < 16"
  then have "d \<in> {0, 1, 2, 3, 4, 5, 6, 7, 8, 9, 10, 11, 12, 13, 14, 15}" by simp presburger
  then show ?thesis by (auto simp: hex_val_def hex_char_def)
qed

lemma char_of_eqI: "of_char c = (k :: nat) \<Longrightarrow> c = char_of k"
  by (metis char_of_char)

lemma pchars_plain:
  assumes "c \<noteq> dquote" "c \<noteq> bslash" "\<not> (of_char c :: nat) < 32"
  shows "pchars (c # s) = map_option (\<lambda>(t, q). (c # t, q)) (pchars s)"
  using assms by (subst pchars.simps) simp

lemma pchars_escaped:
  assumes "pescape (e # w @ s) = Some ([c], s)"
  shows "pchars (bslash # e # w @ s) = map_option (\<lambda>(t, q). (c # t, q)) (pchars s)"
  using assms by (subst pchars.simps) simp

lemma hex_val_0: "hex_val CHR ''0'' = Some 0"
  by (simp add: hex_val_def)

lemma pescape_control:
  assumes "(of_char c :: nat) < 32"
  shows "pescape (CHR ''u'' # [CHR ''0'', CHR ''0'', hex_char (of_char c div 16), hex_char (of_char c mod 16)] @ s)
    = Some ([c], s)"
  using assms
  by (simp add: pescape_def unesc_def hex4_def hex_val_char hex_val_0 utf8_encode_def)

lemma pescape_simple: "unesc e = Some c \<Longrightarrow> pescape (e # [] @ s) = Some ([c], s)"
  by (simp add: pescape_def)

lemma of_char_code: "(k :: nat) = of_char d \<Longrightarrow> of_char c = k \<longleftrightarrow> c = d"
  by simp

lemma control_codes:
  "of_char c = (34 :: nat) \<longleftrightarrow> c = CHR 0x22"
  "of_char c = (92 :: nat) \<longleftrightarrow> c = CHR 0x5C"
  "of_char c = (8 :: nat) \<longleftrightarrow> c = CHR 0x08"
  "of_char c = (9 :: nat) \<longleftrightarrow> c = CHR 0x09"
  "of_char c = (10 :: nat) \<longleftrightarrow> c = CHR 0x0A"
  "of_char c = (12 :: nat) \<longleftrightarrow> c = CHR 0x0C"
  "of_char c = (13 :: nat) \<longleftrightarrow> c = CHR 0x0D"
  by (rule of_char_code, simp)+

lemma esc_char_cases:
  obtains (short) e where "esc_char c = [bslash, e]" and "unesc e = Some c"
    | (ctl) "(of_char c :: nat) < 32" and "esc_char c = bslash # CHR ''u'' #
        [CHR ''0'', CHR ''0'', hex_char (of_char c div 16), hex_char (of_char c mod 16)]"
    | (plain) "\<not> (of_char c :: nat) < 32" and "c \<noteq> dquote" and "c \<noteq> bslash" and "esc_char c = [c]"
proof (cases "(of_char c :: nat) \<in> {34, 92, 8, 9, 10, 12, 13}")
  case True
  then have "c \<in> {CHR 0x22, CHR 0x5C, CHR 0x08, CHR 0x09, CHR 0x0A, CHR 0x0C, CHR 0x0D}"
    by (simp add: control_codes)
  then have "\<exists>e. esc_char c = [bslash, e] \<and> unesc e = Some c"
    by (elim insertE emptyE) (simp_all add: esc_char_def unesc_def control_codes)
  then show ?thesis using short by blast
next
  case False
  then have "c \<noteq> dquote" "c \<noteq> bslash" by auto
  with False show ?thesis
    using ctl plain by (cases "(of_char c :: nat) < 32") (auto simp: esc_char_def Let_def)
qed

lemma pchars_esc_char:
  "pchars (esc_char c @ s) = map_option (\<lambda>(t, q). (c # t, q)) (pchars s)"
proof (cases c rule: esc_char_cases)
  case (short e)
  then show ?thesis using pchars_escaped [OF pescape_simple [of e c s]] by simp
next
  case ctl
  then show ?thesis using pchars_escaped [OF pescape_control [of c s]] by simp
next
  case plain
  then show ?thesis by (simp add: pchars_plain)
qed

lemma pchars_quote: "pchars (concat (map esc_char t) @ dquote # r) = Some (t, r)"
proof (induction t)
  case Nil
  show ?case by (subst pchars.simps) simp
next
  case (Cons c t)
  then show ?case by (simp add: pchars_esc_char)
qed

subsection \<open>Numbers\<close>

text \<open>What may follow a value: nothing, or the punctuation of a container.\<close>

definition stops :: "string \<Rightarrow> bool" where
  "stops r \<longleftrightarrow> (case r of [] \<Rightarrow> True | c # _ \<Rightarrow> c \<in> set '',]}'')"

lemma stops_simps [simp]:
  "stops []" "stops (CHR '','' # r)" "stops (CHR '']'' # r)" "stops (CHR ''}'' # r)"
  by (simp_all add: stops_def)

lemma nat_string_is_digit: "\<forall>c \<in> set (nat_string n). is_digit c"
  using nat_string_digit_val by (auto simp: is_digit_def)

lemma nat_string_no_leading_zero: "hd (nat_string n) = CHR ''0'' \<Longrightarrow> length (nat_string n) = 1"
proof (induction n rule: nat_string.induct)
  case (1 n)
  show ?case
  proof (cases "n < 10")
    case True
    then show ?thesis by (subst nat_string.simps) simp
  next
    case False
    then have eq: "nat_string n = nat_string (n div 10) @ [digit_char (n mod 10)]"
      by (subst nat_string.simps) simp
    with "1.prems" have "hd (nat_string (n div 10)) = CHR ''0''" by simp
    with "1.IH" False have "length (nat_string (n div 10)) = 1" by blast
    then obtain c where c: "nat_string (n div 10) = [c]" by (auto simp: length_Suc_conv)
    with \<open>hd (nat_string (n div 10)) = _\<close> have "digits_val 0 [CHR ''0''] = Some (n div 10)"
      by (metis digits_val_nat_string list.sel(1))
    then have "n div 10 = 0" by (simp add: digit_val_def)
    with False show ?thesis by simp
  qed
qed

lemma stops_not_digit: "stops r \<Longrightarrow> r = [] \<or> \<not> is_digit (hd r)"
  by (cases r) (auto simp: stops_def is_digit_def digit_val_def)

lemma pfrac_stops: "stops r \<Longrightarrow> pfrac r = Some ([], r)"
  and pexp_stops: "stops r \<Longrightarrow> pexp r = Some ([], r)"
  by (cases r; auto simp: stops_def pfrac_def pexp_def)+

lemma span_digits:
  assumes "stops r"
  shows "takeWhile is_digit (nat_string n @ r) = nat_string n"
    and "dropWhile is_digit (nat_string n @ r) = r"
proof -
  have "takeWhile is_digit r = []" "dropWhile is_digit r = r"
    using stops_not_digit [OF assms] by (cases r; auto)+
  then show "takeWhile is_digit (nat_string n @ r) = nat_string n"
    and "dropWhile is_digit (nat_string n @ r) = r"
    using nat_string_is_digit by (auto simp: takeWhile_append2 dropWhile_append2)
qed

lemma nat_string_head: "\<exists>c cs. nat_string n = c # cs \<and> is_digit c"
  using nat_string_is_digit [of n] nat_string_nonempty [of n] by (cases "nat_string n") auto

lemma is_digit_chars: "is_digit c \<Longrightarrow> c \<in> set ''0123456789''"
proof -
  assume "is_digit c"
  then have "of_char c \<in> {48 :: nat, 49, 50, 51, 52, 53, 54, 55, 56, 57}"
    by (simp add: is_digit_def digit_val_def Let_def split: if_splits) presburger
  moreover have
    "of_char c = (48 :: nat) \<longleftrightarrow> c = CHR ''0''" "of_char c = (49 :: nat) \<longleftrightarrow> c = CHR ''1''"
    "of_char c = (50 :: nat) \<longleftrightarrow> c = CHR ''2''" "of_char c = (51 :: nat) \<longleftrightarrow> c = CHR ''3''"
    "of_char c = (52 :: nat) \<longleftrightarrow> c = CHR ''4''" "of_char c = (53 :: nat) \<longleftrightarrow> c = CHR ''5''"
    "of_char c = (54 :: nat) \<longleftrightarrow> c = CHR ''6''" "of_char c = (55 :: nat) \<longleftrightarrow> c = CHR ''7''"
    "of_char c = (56 :: nat) \<longleftrightarrow> c = CHR ''8''" "of_char c = (57 :: nat) \<longleftrightarrow> c = CHR ''9''"
    by (rule of_char_code, simp)+
  ultimately show ?thesis by simp
qed

lemma int_string_head: "\<exists>c cs. int_string i = c # cs \<and> c \<in> set ''-0123456789''"
  using nat_string_head is_digit_chars by (fastforce simp: int_string_def)

lemma pnum_int_string:
  assumes "stops r"
  shows "pnum (int_string i @ r) = Some (JNum i, r)"
proof -
  note facts = span_digits [OF assms] pfrac_stops [OF assms] pexp_stops [OF assms]
  have lead: "\<not> (hd (nat_string n) = CHR ''0'' \<and> Suc 0 < length (nat_string n))" for n
    using nat_string_no_leading_zero [of n] by auto
  show ?thesis
  proof (cases "i < 0")
    case True
    then show ?thesis using lead by (simp add: pnum_def int_string_def facts Let_def)
  next
    case False
    obtain c cs where c: "nat_string (nat i) = c # cs" "is_digit c"
      using nat_string_head by blast
    then have "c \<noteq> CHR ''-''" using is_digit_chars by force
    then have "(case nat_string (nat i) @ r of d # ds \<Rightarrow>
        if d = CHR ''-'' then (True, ds) else (False, nat_string (nat i) @ r) | [] \<Rightarrow> (False, []))
      = (False, nat_string (nat i) @ r)"
      using c by simp
    then show ?thesis using False lead by (simp add: pnum_def int_string_def facts Let_def)
  qed
qed

subsection \<open>Values\<close>

lemma json_ws_iff [simp]: "json_ws c \<longleftrightarrow> c \<in> {CHR 0x09, CHR 0x0A, CHR 0x0D, CHR 0x20}"
proof -
  have "of_char c = (9 :: nat) \<longleftrightarrow> c = CHR 0x09" "of_char c = (10 :: nat) \<longleftrightarrow> c = CHR 0x0A"
    "of_char c = (13 :: nat) \<longleftrightarrow> c = CHR 0x0D" "of_char c = (32 :: nat) \<longleftrightarrow> c = CHR 0x20"
    by (rule of_char_code, simp)+
  then show ?thesis by (simp add: json_ws_def)
qed

text \<open>The first byte of a value's text: never white space, never a closing bracket.\<close>

lemma json_text_head:
  "json_safe v \<Longrightarrow> \<exists>c cs. json_text v = c # cs \<and> c \<in> set ''ntf-0123456789[{'' \<union> {dquote}"
  using int_string_head by (cases v) (auto simp: quote_def; fastforce)+

lemma skip_json_text: "json_safe v \<Longrightarrow> skip (json_text v @ r) = json_text v @ r"
  using json_text_head [of v] by auto

lemma join_Cons: "join_with sep (x # y # zs) = x @ sep @ join_with sep (y # zs)"
  by (simp add: join_with_def)

lemma join_single [simp]: "join_with sep [x] = x"
  and join_Nil [simp]: "join_with sep [] = []"
  by (simp_all add: join_with_def)

lemma pval_number:
  assumes "stops r"
  shows "pval (Suc n) (int_string i @ r) = Some (JNum i, r)"
proof -
  obtain c cs where c: "int_string i = c # cs" "c \<in> set ''-0123456789''"
    using int_string_head by blast
  then have ws: "skip (c # cs @ r) = c # cs @ r" by auto
  have "pnum (c # cs @ r) = Some (JNum i, r)"
    using pnum_int_string [OF assms, of i] c(1) by simp
  moreover have "c \<noteq> CHR ''{''" "c \<noteq> CHR ''[''" "c \<noteq> dquote" "c \<noteq> CHR ''t''" "c \<noteq> CHR ''f''" "c \<noteq> CHR ''n''"
    using c(2) by auto
  ultimately show ?thesis using c(1) ws by simp
qed

lemma json_text_head_cases:
  assumes "json_safe v"
  obtains c cs where "json_text v = c # cs" and "\<not> json_ws c" and "c \<noteq> CHR '']''" and "c \<noteq> CHR ''}''"
  using json_text_head [OF assms] by auto

lemma json_text_first:
  "json_safe v \<Longrightarrow> \<exists>c cs. json_text v = c # cs \<and> \<not> json_ws c \<and> c \<noteq> CHR '']''"
  by (erule json_text_head_cases) auto

lemma json_elems_head:
  assumes "list_all json_safe vs" and "vs \<noteq> []"
  shows "\<exists>c cs. join_with '','' (json_elems vs) = c # cs \<and> \<not> json_ws c \<and> c \<noteq> CHR '']''"
proof -
  obtain v ws where vs: "vs = v # ws" using assms(2) by (cases vs) auto
  with assms(1) obtain c cs where "json_text v = c # cs" "\<not> json_ws c" "c \<noteq> CHR '']''"
    using json_text_first [of v] by (auto simp del: json_ws_iff)
  then show ?thesis using vs by (cases ws) (auto simp: join_Cons)
qed

lemma json_members_head:
  assumes "list_all (\<lambda>p. json_safe (snd p)) ps" and "ps \<noteq> []"
  shows "\<exists>cs. join_with '','' (json_members ps) = dquote # cs"
proof -
  obtain k v qs where ps: "ps = (k, v) # qs" using assms(2) by (cases ps) auto
  with assms(1) have "v \<noteq> JUndef" by auto
  then show ?thesis using ps by (cases "json_members qs") (auto simp: join_Cons quote_def)
qed

lemma json_members_nonempty:
  "list_all (\<lambda>p. json_safe (snd p)) ps \<Longrightarrow> json_members ps = [] \<longleftrightarrow> ps = []"
  by (cases ps; cases "hd ps"; cases "snd (hd ps)") auto

lemma json_roundtrip_aux:
  "json_safe v \<Longrightarrow> length (json_text v) < n \<Longrightarrow> stops r \<Longrightarrow>
     pval n (json_text v @ r) = Some (v, r)"
  "vs \<noteq> [] \<Longrightarrow> list_all json_safe vs \<Longrightarrow> length (join_with '','' (json_elems vs)) + 1 < m \<Longrightarrow>
     pelems m (join_with '','' (json_elems vs) @ '']'' @ r) = Some (vs, r)"
  "ps \<noteq> [] \<Longrightarrow> list_all (\<lambda>p. json_safe (snd p)) ps \<Longrightarrow> distinct (map fst (acc @ ps)) \<Longrightarrow>
     length (join_with '','' (json_members ps)) + 1 < k \<Longrightarrow>
     pmembers k acc (join_with '','' (json_members ps) @ ''}'' @ r) = Some (acc @ ps, r)"
proof (induction v and vs and ps arbitrary: n r and m r and k acc r
    rule: json_text_json_elems_json_members.induct)
  case 1 then show ?case by simp
next
  case 2 then show ?case by (cases n) simp_all
next
  case (3 b) then show ?case by (cases n) auto
next
  case (4 i) then show ?case by (cases n) (simp_all del: pval.simps add: pval_number)
next
  case 5 then show ?case by simp
next
  case (6 s)
  then show ?case by (cases n) (simp_all add: quote_def pchars_quote)
next
  case (7 vs)
  show ?case
  proof (cases vs)
    case Nil
    with 7 show ?thesis by (cases n) simp_all
  next
    case (Cons w ws)
    with 7 obtain n' where n: "n = Suc n'" "length (join_with '','' (json_elems vs)) + 1 < n'"
      by (cases n) auto
    obtain c cs where c: "join_with '','' (json_elems vs) = c # cs" "\<not> json_ws c" "c \<noteq> CHR '']''"
      using json_elems_head [of vs] 7 Cons by auto
    have "pelems n' ((c # cs) @ '']'' @ r) = Some (vs, r)"
      using "7.IH" [of n' r] 7 Cons n(2) c(1) by simp
    then show ?thesis using n(1) c by simp
  qed
next
  case (8 ps)
  show ?case
  proof (cases ps)
    case Nil
    with 8 show ?thesis by (cases n) simp_all
  next
    case (Cons q qs)
    with 8 obtain n' where n: "n = Suc n'" "length (join_with '','' (json_members ps)) + 1 < n'"
      by (cases n) auto
    obtain cs where c: "join_with '','' (json_members ps) = dquote # cs"
      using json_members_head [of ps] 8 Cons by auto
    have "pmembers n' [] ((dquote # cs) @ ''}'' @ r) = Some ([] @ ps, r)"
      using "8.IH" [of "[]" n' r] 8 Cons n(2) c by simp
    then show ?thesis using n(1) c by simp
  qed
next
  case 9 then show ?case by simp
next
  case (10 v vs)
  then obtain m' where m: "m = Suc m'" by (cases m) auto
  show ?case
  proof (cases vs)
    case Nil
    have "pval m' (json_text v @ '']'' @ r) = Some (v, '']'' @ r)"
      using "10.IH"(1) [of m' "'']'' @ r"] 10 Nil m by simp
    then show ?thesis using Nil m by simp
  next
    case (Cons w ws)
    have "pval m' (json_text v @ '','' @ join_with '','' (json_elems vs) @ '']'' @ r) =
        Some (v, '','' @ join_with '','' (json_elems vs) @ '']'' @ r)"
      using "10.IH"(1) [of m'] 10 Cons m by (simp add: join_Cons)
    moreover have "pelems m' (join_with '','' (json_elems vs) @ '']'' @ r) = Some (vs, r)"
      using "10.IH"(2) [of m' r] 10 Cons m by (simp add: join_Cons)
    ultimately show ?thesis using Cons m by (simp add: join_Cons)
  qed
next
  case 11 then show ?case by simp
next
  case (12 key v ps)
  then obtain k' where k: "k = Suc k'" by (cases k) auto
  from 12 have v: "json_safe v" "v \<noteq> JUndef" by auto
  from 12 have fresh: "key \<notin> fst ` set acc" by auto
  show ?case
  proof (cases ps)
    case Nil
    have "pval k' (json_text v @ ''}'' @ r) = Some (v, ''}'' @ r)"
      using "12.IH"(2) [OF v(2), of k' "''}'' @ r"] 12 v Nil k by (simp add: quote_def)
    then show ?thesis using Nil k v fresh by (simp add: quote_def pchars_quote put_fresh)
  next
    case (Cons q qs)
    let ?rest = "join_with '','' (json_members ps) @ ''}'' @ r"
    have ne: "json_members ps \<noteq> []"
      using json_members_nonempty [of ps] 12 Cons by simp
    then have split: "join_with '','' ((quote key @ '':'' @ json_text v) # json_members ps) =
        quote key @ '':'' @ json_text v @ '','' @ join_with '','' (json_members ps)"
      by (cases "json_members ps") (simp_all add: join_Cons)
    have "pval k' (json_text v @ '','' @ ?rest) = Some (v, '','' @ ?rest)"
      using "12.IH"(2) [OF v(2), of k' "'','' @ ?rest"] 12 v k split by (simp add: quote_def)
    moreover have "pmembers k' (acc @ [(key, v)]) ?rest = Some ((acc @ [(key, v)]) @ ps, r)"
      using "12.IH"(3) [OF v(2), of "acc @ [(key, v)]" k' r] 12 v k split Cons
      by (simp add: quote_def)
    ultimately show ?thesis
      using k v fresh split by (simp add: quote_def pchars_quote put_fresh)
  qed
qed

lemma json_roundtrip:
  assumes "json_safe v"
  shows "json_parse (json_text v) = Some v"
  using json_roundtrip_aux(1) [OF assms, of "Suc (2 * length (json_text v))" "[]"]
  by (simp add: json_parse_def)

section \<open>Enough fuel\<close>

lemma pchars_length: "pchars s = Some (t, r) \<Longrightarrow> length r < length s"
proof (induction s arbitrary: t rule: pchars.induct)
  case (1 s)
  then show ?case
    by (subst (asm) (3) pchars.simps)
      (fastforce split: list.splits if_splits option.splits dest: pescape_length)
qed

lemma pfrac_length: "pfrac s = Some (t, r) \<Longrightarrow> length r \<le> length s"
  by (auto simp: pfrac_def Let_def length_dropWhile_le le_SucI split: list.splits if_splits)

lemma pexp_length: "pexp s = Some (t, r) \<Longrightarrow> length r \<le> length s"
  by (auto simp: pexp_def Let_def split: list.splits if_splits
      intro: le_SucI order_trans [OF length_dropWhile_le])

lemma pnum_length: "pnum s = Some (v, r) \<Longrightarrow> length r < length s"
proof -
  assume p: "pnum s = Some (v, r)"
  define q where "q = (case s of c # cs \<Rightarrow> if c = CHR ''-'' then cs else s | [] \<Rightarrow> [])"
  have qs: "length q \<le> length s" by (auto simp: q_def split: list.splits)
  have ne: "takeWhile is_digit q \<noteq> []"
    and rest: "\<exists>fs es r1. pfrac (dropWhile is_digit q) = Some (fs, r1) \<and> pexp r1 = Some (es, r)"
    using p by (auto simp: pnum_def q_def Let_def split: list.splits if_splits option.splits)
  have "length (takeWhile is_digit q) + length (dropWhile is_digit q) = length q"
    by (metis length_append takeWhile_dropWhile_id)
  with ne have "length (dropWhile is_digit q) < length q" by (cases "takeWhile is_digit q") auto
  with qs rest show ?thesis by (fastforce dest: pfrac_length pexp_length)
qed

lemma skip_length: "skip s = c # cs \<Longrightarrow> length cs < length s"
  using length_dropWhile_le [of json_ws s] by simp

lemma parse_consumes:
  "pval n s = Some (v, r) \<Longrightarrow> length r < length s"
  "pelems n s = Some (vs, r) \<Longrightarrow> length r < length s"
  "pmembers n acc s = Some (ps, r) \<Longrightarrow> length r < length s"
proof (induction n s and n s and n acc s arbitrary: v r and vs r and ps r
    rule: pval_pelems_pmembers.induct)
  case (2 n s)
  obtain c cs where c: "skip s = c # cs" using "2.prems" by (cases "skip s") auto
  then have cs: "length cs < length s" by (rule skip_length)
  consider (obj) "c = CHR ''{''" | (arr) "c = CHR ''[''" | (other) "c \<noteq> CHR ''{''" "c \<noteq> CHR ''[''" by blast
  then show ?case
  proof cases
    case obj
    with "2.prems" c obtain d r' where d: "skip cs = d # r'" by (cases "skip cs") auto
    then have "length r' < length cs" by (rule skip_length)
    moreover have "length r < length (d # r') \<or> r = r'"
      using "2.prems" c obj d "2.IH"(1) [OF c obj d] by (auto split: if_splits)
    ultimately show ?thesis using cs by auto
  next
    case arr
    with "2.prems" c obtain d r' where d: "skip cs = d # r'" by (cases "skip cs") auto
    then have "length r' < length cs" by (rule skip_length)
    moreover have "length r < length (d # r') \<or> r = r'"
      using "2.prems" c arr d "2.IH"(2) [OF c _ arr d] by (auto split: if_splits)
    ultimately show ?thesis using cs by auto
  next
    case other
    have "length r < length (c # cs)"
      using "2.prems" c other
      by (auto split: if_splits dest: pchars_length pnum_length simp del: length_Cons)
    with cs show ?thesis by simp
  qed
next
  case (4 n s)
  then show ?case
    by (fastforce split: option.splits list.splits if_splits prod.splits dest: skip_length)
next
  case (6 n acc s)
  then show ?case
    by (fastforce split: option.splits list.splits if_splits prod.splits
        dest: skip_length pchars_length)
qed simp_all

declare pval.simps [simp del] pelems.simps [simp del] pmembers.simps [simp del]

lemma fuel_step:
  "2 * length s < n \<Longrightarrow> pval (Suc n) s = pval n s"
  "2 * length s + 1 < n \<Longrightarrow> pelems (Suc n) s = pelems n s"
  "2 * length s + 1 < n \<Longrightarrow> pmembers (Suc n) acc s = pmembers n acc s"
proof (induction n s and n s and n acc s rule: pval_pelems_pmembers.induct)
  case (2 n s)
  have inner: "2 * length (d # r) + 1 < n" if "skip s = c # cs" "skip cs = d # r" for c cs d r
    using skip_length [OF that(1)] skip_length [OF that(2)] "2.prems" by simp
  have mem: "pmembers (Suc n) [] (d # r) = pmembers n [] (d # r)"
    if "skip s = CHR ''{'' # cs" "skip cs = d # r" "d \<noteq> CHR ''}''" for cs d r
    using "2.IH"(1) [OF that(1) refl that(2,3)] inner [OF that(1,2)] by simp
  have ele: "pelems (Suc n) (d # r) = pelems n (d # r)"
    if "skip s = CHR ''['' # cs" "skip cs = d # r" "d \<noteq> CHR '']''" for cs d r
    using "2.IH"(2) [OF that(1) _ refl that(2,3)] inner [OF that(1,2)] by simp
  show ?case
  proof (cases "skip s")
    case Nil
    show ?thesis unfolding pval.simps(2) Nil by simp
  next
    case (Cons c cs)
    consider (obj) "c = CHR ''{''" | (arr) "c = CHR ''[''"
      | (other) "c \<noteq> CHR ''{''" "c \<noteq> CHR ''[''" by blast
    then show ?thesis
    proof cases
      case obj
      then show ?thesis unfolding pval.simps(2) Cons
        by (cases "skip cs") (simp_all add: mem Cons del: dropWhile_eq_Nil_conv)
    next
      case arr
      then show ?thesis unfolding pval.simps(2) Cons
        by (cases "skip cs") (simp_all add: ele Cons del: dropWhile_eq_Nil_conv)
    next
      case other
      then show ?thesis unfolding pval.simps(2) Cons list.case by (simp only: if_False)
    qed
  qed
next
  case (4 n s)
  have v: "pval (Suc n) s = pval n s" using "4.IH"(1) "4.prems" by simp
  have e: "pelems (Suc n) cs = pelems n cs"
    if "pval n s = Some (v, r)" "skip r = CHR '','' # cs" for v r cs
  proof -
    have "length cs < length s"
      using skip_length [OF that(2)] parse_consumes(1) [OF that(1)] by simp
    then show ?thesis using "4.IH"(2) [OF that(1) refl that(2) refl] "4.prems" by simp
  qed
  show ?case
  proof (cases "pval n s")
    case None
    then show ?thesis
      unfolding pelems.simps(2) [of "Suc n" s] pelems.simps(2) [of n s] v by simp
  next
    case (Some p)
    obtain w r where p: "p = (w, r)" by (cases p)
    show ?thesis
      unfolding pelems.simps(2) [of "Suc n" s] pelems.simps(2) [of n s] v Some p
      using e [OF Some [unfolded p]]
      by (cases "skip r") (simp_all del: dropWhile_eq_Nil_conv)
  qed
next
  case (6 n acc s)
  have val: "pval (Suc n) r' = pval n r'"
    if "skip s = dquote # cs" "pchars cs = Some (k, r)" "skip r = CHR '':'' # r'" for cs k r r'
    using "6.IH"(1) [OF that(1) _ that(2) refl that(3)] "6.prems" skip_length [OF that(1)]
      pchars_length [OF that(2)] skip_length [OF that(3)] by simp
  have mem: "pmembers (Suc n) (put acc k v) q' = pmembers n (put acc k v) q'"
    if "skip s = dquote # cs" "pchars cs = Some (k, r)" "skip r = CHR '':'' # r'"
      "pval n r' = Some (v, q)" "skip q = CHR '','' # q'" for cs k r r' v q q'
  proof -
    have "length q' < length s"
      using skip_length [OF that(1)] pchars_length [OF that(2)] skip_length [OF that(3)]
        parse_consumes(1) [OF that(4)] skip_length [OF that(5)] by simp
    then show ?thesis
      using "6.IH"(2) [OF that(1) _ that(2) refl that(3) _ that(4) refl that(5)] "6.prems" by simp
  qed
  show ?case
  proof (cases "\<exists>cs k r r'. skip s = dquote # cs \<and> pchars cs = Some (k, r) \<and> skip r = CHR '':'' # r'")
    case False
    then show ?thesis
      unfolding pmembers.simps(2) [of "Suc n" acc s] pmembers.simps(2) [of n acc s]
      by (auto split: list.split option.split simp del: dropWhile_eq_Nil_conv)
  next
    case True
    then obtain cs k r r' where
      h: "skip s = dquote # cs" "pchars cs = Some (k, r)" "skip r = CHR '':'' # r'" by blast
    note unf = pmembers.simps(2) [of "Suc n" acc s] pmembers.simps(2) [of n acc s] h(1)
    show ?thesis
    proof (cases "pval n r'")
      case None
      then show ?thesis unfolding unf using h val [OF h] by simp
    next
      case (Some p)
      obtain v q where p: "p = (v, q)" by (cases p)
      show ?thesis
        unfolding unf using h val [OF h] Some p mem [OF h Some [unfolded p]]
        by (cases "skip q") (simp_all del: dropWhile_eq_Nil_conv)
    qed
  qed
qed simp_all

lemma pval_fuel:
  assumes "2 * length s < n"
  shows "pval n s = pval (Suc (2 * length s)) s"
proof -
  have "pval (Suc (2 * length s) + k) s = pval (Suc (2 * length s)) s" for k
    by (induction k) (simp_all add: fuel_step(1))
  from this [of "n - Suc (2 * length s)"] assms show ?thesis by simp
qed

section \<open>The codec interface\<close>

text \<open>What the clients of a text format rely on.\<close>

locale text_codec =
  fixes enc :: "'v \<Rightarrow> string" and dec :: "string \<Rightarrow> 'v option" and ok :: "'v \<Rightarrow> bool"
  assumes dec_enc: "ok v \<Longrightarrow> dec (enc v) = Some v"
begin

lemma enc_inj: "ok v \<Longrightarrow> ok w \<Longrightarrow> enc v = enc w \<Longrightarrow> v = w"
  by (metis dec_enc option.inject)

end

interpretation json_codec: text_codec json_text json_parse json_safe
  by unfold_locales (rule json_roundtrip)

end
