(* ===== verification/View.thy ===== *)
theory View
  imports Complex_Main Prelude
begin

text \<open>
  What a React component returns, and what an event handler does.  A component is a function
  from its props and state to a list of nodes (\<open>null\<close> is the empty list); the handlers
  it attaches are values of the component's own event type, so a view says which event a click
  or an edit raises and the component's step function says what the event does.  Static
  \<open>className\<close>, \<open>style\<close> and icon markup carries no behaviour and is left out; a class or a style that
  depends on data is kept as an attribute.

  The calls a handler makes on libraries (query cache, router, browser dialogs) are recorded as
  a list of effects in the order the handler makes them.
\<close>

section \<open>Nodes\<close>

datatype 'e attr =
    Attr string string
  | NumAttr string rat
  | Flag string bool
  | On string 'e

datatype 'e node =
    Text string
  | Elem string "'e attr list" "'e node list"

text \<open>The destinations of the links a view shows.\<close>

fun link_to :: "'e attr \<Rightarrow> string list" where
  "link_to (Attr k v) = (if k = ''to'' then [v] else [])"
| "link_to _ = []"

definition link_targets :: "string \<Rightarrow> 'e attr list \<Rightarrow> string list" where
  "link_targets tag as =
     (if tag = ''Link'' \<or> tag = ''NavLink'' then concat (map link_to as) else [])"

fun node_links :: "'e node \<Rightarrow> string list" where
  "node_links (Text _) = []"
| "node_links (Elem tag as kids) = link_targets tag as @ concat (map node_links kids)"

definition links :: "'e node list \<Rightarrow> string list" where
  "links ns = concat (map node_links ns)"

text \<open>The events a user can raise: the handlers of elements that are not disabled.\<close>

fun is_disabled :: "'e attr \<Rightarrow> bool" where
  "is_disabled (Flag k b) = (k = ''disabled'' \<and> b)"
| "is_disabled _ = False"

fun raised :: "'e attr \<Rightarrow> 'e list" where
  "raised (On _ e) = [e]"
| "raised _ = []"

definition handlers :: "'e attr list \<Rightarrow> 'e list" where
  "handlers as = (if list_ex is_disabled as then [] else concat (map raised as))"

fun node_events :: "'e node \<Rightarrow> 'e list" where
  "node_events (Text _) = []"
| "node_events (Elem tag as kids) = handlers as @ concat (map node_events kids)"

definition events :: "'e node list \<Rightarrow> 'e list" where
  "events ns = concat (map node_events ns)"

text \<open>A component embedded in another raises the events of the outer one.\<close>

fun map_attr_event :: "('e \<Rightarrow> 'f) \<Rightarrow> 'e attr \<Rightarrow> 'f attr" where
  "map_attr_event f (Attr k v) = Attr k v"
| "map_attr_event f (NumAttr k q) = NumAttr k q"
| "map_attr_event f (Flag k b) = Flag k b"
| "map_attr_event f (On k e) = On k (f e)"

fun map_event :: "('e \<Rightarrow> 'f) \<Rightarrow> 'e node \<Rightarrow> 'f node" where
  "map_event f (Text s) = Text s"
| "map_event f (Elem tag as kids) = Elem tag (map (map_attr_event f) as) (map (map_event f) kids)"

text \<open>\<open>{cond && <node/>}\<close>.\<close>

definition show_if :: "bool \<Rightarrow> 'e node list \<Rightarrow> 'e node list" where
  "show_if b ns = (if b then ns else [])"

fun node_texts :: "'e node \<Rightarrow> string list" where
  "node_texts (Text s) = [s]"
| "node_texts (Elem _ _ kids) = concat (map node_texts kids)"

definition texts :: "'e node list \<Rightarrow> string list" where
  "texts ns = concat (map node_texts ns)"

text \<open>The controlled inputs: the event a control raises on an edit, with the value it shows.\<close>

fun value_of :: "'e attr \<Rightarrow> string list" where
  "value_of (Attr k v) = (if k = ''value'' then [v] else [])"
| "value_of _ = []"

fun change_of :: "'e attr \<Rightarrow> 'e list" where
  "change_of (On k e) = (if k = ''change'' then [e] else [])"
| "change_of _ = []"

definition bound :: "'e attr list \<Rightarrow> ('e \<times> string) list" where
  "bound as = List.product (concat (map change_of as)) (concat (map value_of as))"

fun node_controls :: "'e node \<Rightarrow> ('e \<times> string) list" where
  "node_controls (Text _) = []"
| "node_controls (Elem tag as kids) = bound as @ concat (map node_controls kids)"

definition controls :: "'e node list \<Rightarrow> ('e \<times> string) list" where
  "controls ns = concat (map node_controls ns)"

section \<open>Effects\<close>

type_synonym query_key = "string list"

datatype effect =
    Invalidate query_key
  | InvalidateAll
  | ClearCache
  | Navigate string bool
  | GoBack
  | AlertBox string

text \<open>The query keys an invalidation reaches: those that extend it.\<close>

fun invalidates :: "effect \<Rightarrow> query_key \<Rightarrow> bool" where
  "invalidates (Invalidate k) q = prefix k q"
| "invalidates InvalidateAll q = True"
| "invalidates ClearCache q = True"
| "invalidates _ q = False"

definition refreshes :: "effect list \<Rightarrow> query_key \<Rightarrow> bool" where
  "refreshes es q \<longleftrightarrow> list_ex (\<lambda>e. invalidates e q) es"

fun destination :: "effect \<Rightarrow> string list" where
  "destination (Navigate p _) = [p]"
| "destination _ = []"

definition destinations :: "effect list \<Rightarrow> string list" where
  "destinations es = concat (map destination es)"

section \<open>Facts\<close>

lemma links_simps [simp]:
  "links [] = []"
  "links (Text s # ns) = links ns"
  "links (Elem t as ks # ns) = link_targets t as @ links ks @ links ns"
  by (simp_all add: links_def)

lemma links_append [simp]: "links (ns @ ms) = links ns @ links ms"
  by (simp add: links_def)

lemma links_concat: "links (concat nss) = concat (map links nss)"
  by (induction nss) simp_all

lemma events_simps [simp]:
  "events [] = []"
  "events (Text s # ns) = events ns"
  "events (Elem t as ks # ns) = handlers as @ events ks @ events ns"
  by (simp_all add: events_def)

lemma events_append [simp]: "events (ns @ ms) = events ns @ events ms"
  by (simp add: events_def)

lemma events_concat: "events (concat nss) = concat (map events nss)"
  by (induction nss) simp_all

lemma texts_simps [simp]:
  "texts [] = []"
  "texts (Text s # ns) = s # texts ns"
  "texts (Elem t as ks # ns) = texts ks @ texts ns"
  by (simp_all add: texts_def)

lemma texts_append [simp]: "texts (ns @ ms) = texts ns @ texts ms"
  by (simp add: texts_def)

lemma controls_simps [simp]:
  "controls [] = []"
  "controls (Text s # ns) = controls ns"
  "controls (Elem t as ks # ns) = bound as @ controls ks @ controls ns"
  by (simp_all add: controls_def)

lemma controls_append [simp]: "controls (ns @ ms) = controls ns @ controls ms"
  by (simp add: controls_def)

lemma controls_concat: "controls (concat nss) = concat (map controls nss)"
  by (induction nss) simp_all

lemma attr_map [simp]:
  "is_disabled (map_attr_event f a) = is_disabled a"
  "raised (map_attr_event f a) = map f (raised a)"
  "link_to (map_attr_event f a) = link_to a"
  by (cases a; simp)+

lemma handlers_map [simp]: "handlers (map (map_attr_event f) as) = map f (handlers as)"
  by (simp add: handlers_def map_concat comp_def list_ex_iff)

lemma link_targets_map [simp]: "link_targets t (map (map_attr_event f) as) = link_targets t as"
  by (simp add: link_targets_def comp_def)

lemma node_events_map: "node_events (map_event f n) = map f (node_events n)"
  by (induction n) (simp_all add: map_concat comp_def cong: map_cong)

lemma node_links_map: "node_links (map_event f n) = node_links n"
  by (induction n) (simp_all add: comp_def cong: map_cong)

lemma events_map [simp]: "events (map (map_event f) ns) = map f (events ns)"
  by (simp add: events_def map_concat comp_def node_events_map)

lemma links_map [simp]: "links (map (map_event f) ns) = links ns"
  by (simp add: links_def comp_def node_links_map)

lemma show_if_simps [simp]: "show_if True ns = ns" "show_if False ns = []"
  by (simp_all add: show_if_def)

lemma events_show_if [simp]: "events (show_if b ns) = (if b then events ns else [])"
  and links_show_if [simp]: "links (show_if b ns) = (if b then links ns else [])"
  and texts_show_if [simp]: "texts (show_if b ns) = (if b then texts ns else [])"
  by (simp_all add: show_if_def)

lemma controls_show_if [simp]: "controls (show_if b ns) = (if b then controls ns else [])"
  by (simp add: show_if_def)

lemma refreshes_simps [simp]:
  "refreshes [] q = False"
  "refreshes (e # es) q = (invalidates e q \<or> refreshes es q)"
  by (simp_all add: refreshes_def)

lemma destinations_simps [simp]:
  "destinations [] = []"
  "destinations (e # es) = destination e @ destinations es"
  by (simp_all add: destinations_def)

lemmas ui_eval = handlers_def link_targets_def bound_def

end
