(* ===== verification/Auth.thy ===== *)
theory Auth
  imports Api Json View
begin

text \<open>
  The session of the front end: \<open>AuthContext.jsx\<close> (the provider's state, \<open>setAuth\<close>,
  \<open>clearAuth\<close>, the two route guards), the header with its logout handler and the side bar.
  The browser state is localStorage together with the provider's React state.
\<close>

record auth_state =
  token :: jsval
  user :: jsval

record browser =
  local_storage :: storage
  auth :: auth_state

section \<open>AuthProvider\<close>

definition getItem :: "storage \<Rightarrow> string \<Rightarrow> jsval" where
  "getItem st k = (case st k of None \<Rightarrow> JNull | Some s \<Rightarrow> JStr s)"

text \<open>Both stores convert what they are given to a string.\<close>

definition setItem :: "string \<Rightarrow> jsval \<Rightarrow> storage \<Rightarrow> storage" where
  "setItem k v st = st(k \<mapsto> js_text v)"

definition removeItem :: "string \<Rightarrow> storage \<Rightarrow> storage" where
  "removeItem k st = st(k := None)"

text \<open>The two lazy initial states: \<open>JSON.parse\<close> of a missing entry parses
  \<open>null\<close>.\<close>

definition init_auth :: "storage \<Rightarrow> auth_state" where
  "init_auth st =
     \<lparr>token = getItem st ''token'',
      user = (case json_parse (js_text (getItem st ''user'')) of Some v \<Rightarrow> v | None \<Rightarrow> JNull)\<rparr>"

definition setAuth :: "jsval \<Rightarrow> jsval \<Rightarrow> browser \<Rightarrow> browser" where
  "setAuth newToken newUser b =
     b\<lparr>local_storage :=
         setItem ''user'' (stringify newUser) (setItem ''token'' newToken (local_storage b)),
       auth := \<lparr>token = newToken, user = newUser\<rparr>\<rparr>"

definition clearAuth :: "browser \<Rightarrow> browser" where
  "clearAuth b =
     b\<lparr>local_storage := removeItem ''user'' (removeItem ''token'' (local_storage b)),
       auth := \<lparr>token = JNull, user = JNull\<rparr>\<rparr>"

definition isAuthenticated :: "auth_state \<Rightarrow> bool" where
  "isAuthenticated a = truthy (token a)"

definition isAdmin :: "auth_state \<Rightarrow> bool" where
  "isAdmin a \<longleftrightarrow> oget (user a) ''role'' = JStr ''admin''"

section \<open>Route guards\<close>

datatype 'p outcome =
    Renders 'p
  | RedirectTo string bool

definition ProtectedRoute :: "auth_state \<Rightarrow> 'p \<Rightarrow> 'p outcome" where
  "ProtectedRoute a children =
     (if isAuthenticated a then Renders children else RedirectTo ''/login'' True)"

definition AdminRoute :: "auth_state \<Rightarrow> 'p \<Rightarrow> 'p outcome" where
  "AdminRoute a children =
     (if \<not> isAuthenticated a then RedirectTo ''/login'' True
      else if \<not> isAdmin a then RedirectTo ''/dashboard'' True
      else Renders children)"

section \<open>Header\<close>

datatype header_event = Refresh | Logout

text \<open>How React shows a value inside markup.\<close>

fun shown :: "jsval \<Rightarrow> 'e node list" where
  "shown (JStr s) = [Text s]"
| "shown (JNum n) = [Text (int_string n)]"
| "shown (JDec s) = [Text s]"
| "shown _ = []"

text \<open>\<open>email?.[0]?.toUpperCase()\<close>\<close>

fun initial :: "jsval \<Rightarrow> jsval" where
  "initial (JStr (c # cs)) = JStr (upper_char c # takeWhile is_cont cs)"
| "initial _ = JUndef"

definition handleLogout :: "browser \<Rightarrow> browser \<times> effect list" where
  "handleLogout b = (clearAuth b, [ClearCache, Navigate ''/login'' True])"

fun header_step :: "header_event \<Rightarrow> browser \<Rightarrow> browser \<times> effect list" where
  "header_step Refresh b = (b, [InvalidateAll])"
| "header_step Logout b = handleLogout b"

definition Header :: "auth_state \<Rightarrow> header_event node list" where
  "Header a =
     [Elem ''header'' []
       [Elem ''Link'' [Attr ''to'' ''/profile'']
          (Elem ''div'' [] (shown (initial (oget (user a) ''email'')))
             # shown (oget (user a) ''email'')),
        Elem ''div'' []
          [Elem ''Link'' [Attr ''to'' ''/profile'', Attr ''title'' ''Profile''] [],
           Elem ''button'' [On ''click'' Refresh, Attr ''title'' ''Refresh''] [],
           Elem ''button'' [On ''click'' Logout, Attr ''title'' ''Logout''] []]]]"

section \<open>Sidebar\<close>

definition navItems :: "(string \<times> string) list" where
  "navItems = [(''/dashboard'', ''Dashboard''), (''/jobs'', ''Jobs''),
     (''/jobs/new'', ''New Job''), (''/report'', ''Reports'')]"

definition adminItems :: "(string \<times> string) list" where
  "adminItems = [(''/admin/jobs'', ''All Jobs''), (''/admin/users'', ''Users'')]"

definition NavItem :: "string \<Rightarrow> string \<Rightarrow> bool \<Rightarrow> 'e node" where
  "NavItem to label exact =
     Elem ''NavLink'' [Attr ''to'' to, Flag ''end'' exact] [Text label]"

definition Sidebar :: "auth_state \<Rightarrow> 'e node list" where
  "Sidebar a =
     [Elem ''aside'' []
       ([Elem ''div'' [] [Elem ''span'' [] [Text ''CronPilot''], Elem ''p'' [] [Text ''Cron-as-a-Service'']],
         Elem ''nav'' [] (map (\<lambda>(to, label). NavItem to label (to = ''/jobs'')) navItems)]
        @ show_if (isAdmin a)
            [Elem ''div'' []
              [Elem ''span'' [] [Text ''Admin''],
               Elem ''div'' [] (map (\<lambda>(to, label). NavItem to label False) adminItems)]]
        @ [Elem ''div'' [] [Elem ''p'' [] [Text ''v1.0.0'']]])]"

section \<open>The storage interface\<close>

text \<open>
  What the provider relies on of localStorage: a stored value comes back as the string it was
  converted to, a removed key reads \<open>null\<close>, and other keys are left alone.
\<close>

locale web_storage =
  fixes get_item :: "'s \<Rightarrow> string \<Rightarrow> jsval"
    and set_item :: "string \<Rightarrow> jsval \<Rightarrow> 's \<Rightarrow> 's"
    and remove_item :: "string \<Rightarrow> 's \<Rightarrow> 's"
  assumes get_set: "get_item (set_item k v s) k' = (if k' = k then JStr (js_text v) else get_item s k')"
    and get_remove: "get_item (remove_item k s) k' = (if k' = k then JNull else get_item s k')"
begin

lemma get_pair:
  "k \<noteq> k' \<Longrightarrow> get_item (set_item k' w (set_item k v s)) k = JStr (js_text v)"
  "get_item (set_item k' w (set_item k v s)) k' = JStr (js_text w)"
  by (simp_all add: get_set)

lemma get_removed_pair:
  "get_item (remove_item k' (remove_item k s)) k = JNull"
  "get_item (remove_item k' (remove_item k s)) k' = JNull"
  by (simp_all add: get_remove)

end

text \<open>A value kept in a storage as encoded text.\<close>

locale persisted = web_storage get_item set_item remove_item + text_codec enc dec ok
  for get_item :: "'s \<Rightarrow> string \<Rightarrow> jsval"
    and set_item :: "string \<Rightarrow> jsval \<Rightarrow> 's \<Rightarrow> 's"
    and remove_item :: "string \<Rightarrow> 's \<Rightarrow> 's"
    and enc :: "'v \<Rightarrow> string" and dec :: "string \<Rightarrow> 'v option" and ok :: "'v \<Rightarrow> bool"
begin

lemma restore: "ok v \<Longrightarrow> dec (js_text (get_item (set_item k (JStr (enc v)) s) k)) = Some v"
  by (simp add: get_set dec_enc)

end

interpretation tab_storage: web_storage getItem setItem removeItem
  by unfold_locales (simp_all add: getItem_def setItem_def removeItem_def)

interpretation user_entry: persisted getItem setItem removeItem json_text json_parse json_safe
  by unfold_locales

section \<open>Facts\<close>

lemma setAuth_simps [simp]:
  "local_storage (setAuth t u b) ''token'' = Some (js_text t)"
  "local_storage (setAuth t u b) ''user'' = Some (js_text (stringify u))"
  "auth (setAuth t u b) = \<lparr>token = t, user = u\<rparr>"
  by (simp_all add: setAuth_def setItem_def)

lemma clearAuth_simps [simp]:
  "local_storage (clearAuth b) ''token'' = None"
  "local_storage (clearAuth b) ''user'' = None"
  "auth (clearAuth b) = \<lparr>token = JNull, user = JNull\<rparr>"
  by (simp_all add: clearAuth_def removeItem_def)

lemma json_parse_null [simp]: "json_parse ''null'' = Some JNull"
  using json_roundtrip [of JNull] by simp

lemma init_auth_setAuth:
  assumes "json_safe u"
  shows "init_auth (local_storage (setAuth (JStr t) u b)) = auth (setAuth (JStr t) u b)"
proof -
  have "stringify u = JStr (json_text u)" using assms by (auto simp: stringify_def)
  then show ?thesis
    using user_entry.restore [OF assms] tab_storage.get_pair(1) [of "''token''" "''user''"]
    by (simp add: init_auth_def setAuth_def)
qed

lemma init_auth_clearAuth:
  "init_auth (local_storage (clearAuth b)) = auth (clearAuth b)"
  by (simp add: init_auth_def getItem_def)

text \<open>
  The sessions a tab goes through: a page load, a login with what the server sent, a logout.
\<close>

inductive session :: "browser \<Rightarrow> bool" where
  load: "session \<lparr>local_storage = st, auth = init_auth st\<rparr>"
| logged_in: "session b \<Longrightarrow> json_safe u \<Longrightarrow> session (setAuth (JStr t) u b)"
| logged_out: "session b \<Longrightarrow> session (fst (handleLogout b))"

lemma session_in_sync: "session b \<Longrightarrow> auth b = init_auth (local_storage b)"
proof (induction rule: session.induct)
  case (logged_in b u t)
  then show ?case using init_auth_setAuth by simp
next
  case (logged_out b)
  then show ?case using init_auth_clearAuth [of b] by (simp add: handleLogout_def)
qed simp

lemma isAuthenticated_init:
  "isAuthenticated (init_auth st) \<longleftrightarrow> (\<exists>t. st ''token'' = Some t \<and> t \<noteq> [])"
  by (simp add: isAuthenticated_def init_auth_def getItem_def split: option.split)

lemma events_shown [simp]: "events (shown v) = []"
  and links_shown [simp]: "links (shown v) = []"
  by (cases v; simp)+

lemma links_NavItems [simp]:
  "links (map (\<lambda>(to, label). NavItem to label (f to)) xs) = map fst xs"
  by (induction xs) (auto simp: NavItem_def link_targets_def)

lemma links_Header: "links (Header a) = [''/profile'', ''/profile'']"
  by (simp add: Header_def link_targets_def)

lemma links_Sidebar:
  "links (Sidebar a) = map fst navItems @ (if isAdmin a then map fst adminItems else [])"
  by (simp add: Sidebar_def link_targets_def)

lemma events_Header: "events (Header a) = [Refresh, Logout]"
  by (simp add: Header_def handlers_def)

lemma authorization_header:
  "map_of (rq_headers (intercept st (client m u d))) ''Authorization'' =
     (if isAuthenticated (init_auth st) then Some (''Bearer '' @ js_text (token (init_auth st))) else None)"
  by (simp add: intercept_authorization isAuthenticated_def init_auth_def getItem_def
      split: option.split)

section \<open>Properties\<close>

text \<open>C36: A session survives a reload.  After any sequence of page load, logins with a string
  token and a user object the server can send, and logouts, the state the provider computes from
  localStorage on the next load is the state it holds now: token and user come back through
  \<open>JSON.stringify\<close> and \<open>JSON.parse\<close> unchanged.\<close>

theorem session_survives_reload:
  assumes "session b"
  shows "init_auth (local_storage b) = auth b"
  using session_in_sync [OF assms] by simp

theorem session_survives_reload_witness:
  "let u = JObj [(''id'', JStr ''7''), (''email'', JStr ''a@b.c''), (''role'', JStr ''admin'')];
       b0 = \<lparr>local_storage = Map.empty, auth = init_auth Map.empty\<rparr>;
       b = setAuth (JStr ''tok'') u b0
   in init_auth (local_storage b) = auth b"
proof -
  have "session \<lparr>local_storage = Map.empty, auth = init_auth Map.empty\<rparr>" by (rule session.load)
  then show ?thesis
    unfolding Let_def by (intro session_survives_reload session.logged_in) simp_all
qed

text \<open>The requests of a session carry its token.  In every session state the client adds the
  header \<open>Authorization: Bearer <token>\<close> exactly when the provider says the user is
  authenticated, with the token the provider holds.\<close>

theorem requests_carry_token:
  assumes "session b"
  shows "map_of (rq_headers (intercept (local_storage b) (client m u d))) ''Authorization'' =
    (if isAuthenticated (auth b) then Some (''Bearer '' @ js_text (token (auth b))) else None)"
  unfolding session_in_sync [OF assms] by (rule authorization_header)

theorem requests_carry_token_witness:
  "let b = setAuth (JStr ''tok'') JNull \<lparr>local_storage = Map.empty, auth = init_auth Map.empty\<rparr> in
     isAuthenticated (auth b) \<and>
     map_of (rq_headers (intercept (local_storage b) (client GET ''/jobs'' None))) ''Authorization''
       = Some ''Bearer tok''"
proof -
  let ?b = "setAuth (JStr ''tok'') JNull \<lparr>local_storage = Map.empty, auth = init_auth Map.empty\<rparr>"
  have "session ?b" by (intro session.logged_in session.load) simp
  from requests_carry_token [OF this, of GET "''/jobs''" None] show ?thesis
    by (simp add: isAuthenticated_def)
qed

text \<open>Logging out leaves nothing of the session: the provider is neither authenticated nor
  administrator, a reload does not bring the session back, requests carry no Authorization
  header, every cached query is dropped and the user is sent to the login page.\<close>

theorem logout_ends_session:
  "let (b', es) = handleLogout b in
     \<not> isAuthenticated (auth b') \<and> \<not> isAdmin (auth b') \<and>
     init_auth (local_storage b') = auth b' \<and>
     map_of (rq_headers (intercept (local_storage b') (client m u d))) ''Authorization'' = None \<and>
     refreshes es q \<and> destinations es = [''/login'']"
  by (simp add: handleLogout_def init_auth_clearAuth authorization_header)
    (simp add: isAuthenticated_def isAdmin_def)

end
