(* ===== verification/Routes.thy ===== *)
theory Routes
  imports Auth
begin

text \<open>
  The route tree of \<open>App.jsx\<close> with the layout it wraps around its pages.  Which route a path
  selects is the business of react-router and stays a parameter \<open>pick\<close>; \<open>router_contract\<close>
  is what its documentation promises: a selected route matches the path, a path that some route
  matches selects one, and a literal segment is preferred to a parameter.
\<close>

section \<open>The route tree\<close>

datatype page =
    LoginPage | RegisterPage | DashboardPage | JobsPage | NewJobPage | JobDetailPage
  | EditJobPage | ProfilePage | ReportPage | AdminJobsPage | AdminUsersPage

datatype element =
    Page page
  | NavigateTo string bool
  | ProtectedEl element
  | AdminEl element
  | LayoutEl

datatype route =
    Route string element "route list"
  | Index element

definition App :: "route list" where
  "App =
    [Route ''/login'' (Page LoginPage) [],
     Route ''/register'' (Page RegisterPage) [],
     Route ''/'' (ProtectedEl LayoutEl)
      [Index (NavigateTo ''/dashboard'' True),
       Route ''dashboard'' (Page DashboardPage) [],
       Route ''jobs'' (Page JobsPage) [],
       Route ''jobs/new'' (Page NewJobPage) [],
       Route ''jobs/:id'' (Page JobDetailPage) [],
       Route ''jobs/:id/edit'' (Page EditJobPage) [],
       Route ''profile'' (Page ProfilePage) [],
       Route ''report'' (Page ReportPage) [],
       Route ''admin/jobs'' (AdminEl (Page AdminJobsPage)) [],
       Route ''admin/users'' (AdminEl (Page AdminUsersPage)) []]]"

section \<open>Paths and patterns\<close>

datatype seg = Lit string | Param string

fun split_slash :: "string \<Rightarrow> string list" where
  "split_slash [] = [[]]"
| "split_slash (c # cs) =
     (if c = CHR ''/'' then [] # split_slash cs
      else (case split_slash cs of [] \<Rightarrow> [[c]] | w # ws \<Rightarrow> (c # w) # ws))"

definition segments :: "string \<Rightarrow> string list" where
  "segments p = filter (\<lambda>s. s \<noteq> []) (split_slash p)"

definition pattern_seg :: "string \<Rightarrow> seg" where
  "pattern_seg s = (case s of c # cs \<Rightarrow> if c = CHR '':'' then Param cs else Lit s | [] \<Rightarrow> Lit s)"

definition pattern :: "string \<Rightarrow> seg list" where
  "pattern p = map pattern_seg (segments p)"

text \<open>A leaf of the tree: its whole pattern and the elements from the outermost to its own.\<close>

type_synonym branch = "seg list \<times> element list"

fun branches :: "route \<Rightarrow> branch list" where
  "branches (Index e) = [([], [e])]"
| "branches (Route p e kids) =
     (if kids = [] then [(pattern p, [e])]
      else map (\<lambda>(q, es). (pattern p @ q, e # es)) (concat (map branches kids)))"

definition app_branches :: "branch list" where
  "app_branches = concat (map branches App)"

text \<open>react-router compares literal segments without regard to case (\<open>caseSensitive\<close> is
  not set).\<close>

fun seg_matches :: "seg \<Rightarrow> string \<Rightarrow> bool" where
  "seg_matches (Lit a) s = (to_lower a = to_lower s)"
| "seg_matches (Param _) s = (s \<noteq> [])"

definition matches :: "seg list \<Rightarrow> string list \<Rightarrow> bool" where
  "matches = list_all2 seg_matches"

definition literals :: "seg list \<Rightarrow> nat" where
  "literals ps = length (filter (\<lambda>s. case s of Lit _ \<Rightarrow> True | Param _ \<Rightarrow> False) ps)"

type_synonym 'a picker = "(seg list \<times> 'a) list \<Rightarrow> string list \<Rightarrow> (seg list \<times> 'a) option"

definition router_contract :: "'a picker \<Rightarrow> bool" where
  "router_contract pick \<longleftrightarrow>
     (\<forall>bs p. case pick bs p of
        None \<Rightarrow> (\<forall>b \<in> set bs. \<not> matches (fst b) p)
      | Some b \<Rightarrow> b \<in> set bs \<and> matches (fst b) p \<and>
          (\<forall>c \<in> set bs. matches (fst c) p \<longrightarrow> literals (fst c) \<le> literals (fst b)))"

section \<open>What a visit shows\<close>

datatype visit =
    Shows page
  | Redirects string bool
  | Blank

text \<open>
  The elements of a branch from the outside in: a guard may redirect, the layout renders its
  outlet.  A branch that ends in a layout has an empty outlet.
\<close>

fun element_visit :: "auth_state \<Rightarrow> element \<Rightarrow> visit option" where
  "element_visit a (Page p) = Some (Shows p)"
| "element_visit a (NavigateTo p r) = Some (Redirects p r)"
| "element_visit a LayoutEl = None"
| "element_visit a (ProtectedEl e) =
     (case ProtectedRoute a e of
        RedirectTo p r \<Rightarrow> Some (Redirects p r)
      | Renders _ \<Rightarrow> element_visit a e)"
| "element_visit a (AdminEl e) =
     (case AdminRoute a e of
        RedirectTo p r \<Rightarrow> Some (Redirects p r)
      | Renders _ \<Rightarrow> element_visit a e)"

fun chain_visit :: "auth_state \<Rightarrow> element list \<Rightarrow> visit" where
  "chain_visit a [] = Blank"
| "chain_visit a (e # es) = (case element_visit a e of Some v \<Rightarrow> v | None \<Rightarrow> chain_visit a es)"

definition visit :: "element list picker \<Rightarrow> auth_state \<Rightarrow> string \<Rightarrow> visit" where
  "visit pick a path =
     (case pick app_branches (segments path) of
        None \<Rightarrow> Blank
      | Some b \<Rightarrow> chain_visit a (snd b))"

text \<open>Following redirects, with fuel; \<open>None\<close> is a chain that has not ended.\<close>

fun follow :: "element list picker \<Rightarrow> auth_state \<Rightarrow> nat \<Rightarrow> string \<Rightarrow> visit option" where
  "follow pick a 0 path = None"
| "follow pick a (Suc n) path =
     (case visit pick a path of
        Redirects p r \<Rightarrow> follow pick a n p
      | v \<Rightarrow> Some v)"

text \<open>A router that keeps the contract: the first of the matching branches with most literals.\<close>

fun best :: "string list \<Rightarrow> (seg list \<times> 'a) list \<Rightarrow> (seg list \<times> 'a) option" where
  "best p [] = None"
| "best p (b # bs) =
     (case best p bs of
        None \<Rightarrow> if matches (fst b) p then Some b else None
      | Some c \<Rightarrow>
          if matches (fst b) p \<and> literals (fst c) \<le> literals (fst b) then Some b else Some c)"

definition ranked :: "'a picker" where
  "ranked bs p = best p bs"

section \<open>Facts\<close>

lemma best_contract:
  "case best p bs of
     None \<Rightarrow> (\<forall>b \<in> set bs. \<not> matches (fst b) p)
   | Some b \<Rightarrow> b \<in> set bs \<and> matches (fst b) p \<and>
       (\<forall>c \<in> set bs. matches (fst c) p \<longrightarrow> literals (fst c) \<le> literals (fst b))"
  by (induction bs) (auto split: option.splits)

lemma ranked_contract: "router_contract ranked"
  unfolding router_contract_def ranked_def using best_contract by blast

lemma app_branches_eval:
  "app_branches =
    [([Lit ''login''], [Page LoginPage]),
     ([Lit ''register''], [Page RegisterPage]),
     ([], [ProtectedEl LayoutEl, NavigateTo ''/dashboard'' True]),
     ([Lit ''dashboard''], [ProtectedEl LayoutEl, Page DashboardPage]),
     ([Lit ''jobs''], [ProtectedEl LayoutEl, Page JobsPage]),
     ([Lit ''jobs'', Lit ''new''], [ProtectedEl LayoutEl, Page NewJobPage]),
     ([Lit ''jobs'', Param ''id''], [ProtectedEl LayoutEl, Page JobDetailPage]),
     ([Lit ''jobs'', Param ''id'', Lit ''edit''], [ProtectedEl LayoutEl, Page EditJobPage]),
     ([Lit ''profile''], [ProtectedEl LayoutEl, Page ProfilePage]),
     ([Lit ''report''], [ProtectedEl LayoutEl, Page ReportPage]),
     ([Lit ''admin'', Lit ''jobs''], [ProtectedEl LayoutEl, AdminEl (Page AdminJobsPage)]),
     ([Lit ''admin'', Lit ''users''], [ProtectedEl LayoutEl, AdminEl (Page AdminUsersPage)])]"
  by (simp add: app_branches_def App_def pattern_def segments_def pattern_seg_def)

lemma pick_sound:
  assumes "router_contract pick" and "pick bs p = Some b"
  shows "b \<in> set bs" and "matches (fst b) p"
  using assms unfolding router_contract_def by (metis (no_types, lifting) option.simps(5))+

lemma pick_most_literal:
  assumes "router_contract pick" and "pick bs p = Some b" and "c \<in> set bs" and "matches (fst c) p"
  shows "literals (fst c) \<le> literals (fst b)"
  using assms unfolding router_contract_def by (metis (no_types, lifting) option.simps(5))

lemma pick_complete:
  assumes "router_contract pick" and "b \<in> set bs" and "matches (fst b) p"
  shows "\<exists>c. pick bs p = Some c"
proof (cases "pick bs p")
  case None
  then show ?thesis
    using assms unfolding router_contract_def by (metis (no_types, lifting) option.simps(4))
qed blast

text \<open>A branch that strictly beats every other matching one is the one selected.\<close>

lemma pick_unique:
  assumes c: "router_contract pick" and b: "b \<in> set bs" "matches (fst b) p"
    and beats: "\<And>d. d \<in> set bs \<Longrightarrow> matches (fst d) p \<Longrightarrow> d = b \<or> literals (fst d) < literals (fst b)"
  shows "pick bs p = Some b"
proof -
  obtain d where d: "pick bs p = Some d" using pick_complete [OF c b] by blast
  have "literals (fst b) \<le> literals (fst d)" by (rule pick_most_literal [OF c d b])
  then have "d = b" using beats [OF pick_sound [OF c d]] by auto
  then show ?thesis using d by simp
qed

lemma visit_cases:
  assumes "router_contract pick"
  shows "visit pick a path = Blank \<or>
    (\<exists>b \<in> set app_branches. matches (fst b) (segments path) \<and> visit pick a path = chain_visit a (snd b))"
proof (cases "pick app_branches (segments path)")
  case None
  then show ?thesis by (simp add: visit_def)
next
  case (Some b)
  then show ?thesis using pick_sound [OF assms Some] by (auto simp: visit_def)
qed

subsection \<open>Segments of the paths the pages link to\<close>

text \<open>A path segment: what an id must be to stand in a URL path.\<close>

definition segment :: "string \<Rightarrow> bool" where
  "segment s \<longleftrightarrow> s \<noteq> [] \<and> CHR ''/'' \<notin> set s"

lemma split_slash_single: "CHR ''/'' \<notin> set s \<Longrightarrow> split_slash s = [s]"
  by (induction s) auto

lemma split_slash_nonempty: "split_slash s \<noteq> []"
  by (induction s) (auto split: list.splits)

lemma split_slash_append:
  "CHR ''/'' \<notin> set s \<Longrightarrow> split_slash (s @ CHR ''/'' # t) = s # split_slash t"
  by (induction s) auto

lemma segments_job: "segment i \<Longrightarrow> segments (''/jobs/'' @ i) = [''jobs'', i]"
  by (simp add: segments_def segment_def split_slash_single)

lemma segments_job_edit:
  "segment i \<Longrightarrow> segments (''/jobs/'' @ i @ ''/edit'') = [''jobs'', i, ''edit'']"
  using split_slash_append [of i "''edit''"] by (simp add: segments_def segment_def)

text \<open>\<open>b\<close> is the branch a path with these segments selects, whatever router is used.\<close>

definition selects :: "string list \<Rightarrow> branch \<Rightarrow> bool" where
  "selects ps b \<longleftrightarrow> b \<in> set app_branches \<and> matches (fst b) ps \<and>
     list_all (\<lambda>d. matches (fst d) ps \<longrightarrow> d = b \<or> literals (fst d) < literals (fst b)) app_branches"

lemma visit_selects:
  assumes "router_contract pick" and "segments path = ps" and "selects ps b"
  shows "visit pick a path = chain_visit a (snd b)"
proof -
  have "pick app_branches ps = Some b"
    by (rule pick_unique [OF assms(1)]) (use assms(3) in \<open>auto simp: selects_def list_all_iff\<close>)
  then show ?thesis using assms(2) by (simp add: visit_def)
qed

lemma chain_visit_protected:
  "isAuthenticated a \<Longrightarrow> chain_visit a [ProtectedEl LayoutEl, Page p] = Shows p"
  by (simp add: ProtectedRoute_def)

lemmas selects_eval = selects_def app_branches_eval matches_def literals_def lower_char_def

text \<open>The paths that name a page literally.\<close>

definition literal_pages :: "(string \<times> page) list" where
  "literal_pages =
    [(''/dashboard'', DashboardPage), (''/jobs'', JobsPage), (''/jobs/new'', NewJobPage),
     (''/profile'', ProfilePage), (''/report'', ReportPage)]"

lemma segments_eval:
  "segments ''/'' = []"
  "segments ''/login'' = [''login'']"
  "segments ''/register'' = [''register'']"
  "segments ''/dashboard'' = [''dashboard'']"
  "segments ''/jobs'' = [''jobs'']"
  "segments ''/jobs/new'' = [''jobs'', ''new'']"
  "segments ''/profile'' = [''profile'']"
  "segments ''/report'' = [''report'']"
  "segments ''/admin/jobs'' = [''admin'', ''jobs'']"
  "segments ''/admin/users'' = [''admin'', ''users'']"
  by (simp_all add: segments_def)

lemma visit_login:
  assumes "router_contract pick"
  shows "visit pick a ''/login'' = Shows LoginPage"
  using visit_selects [OF assms segments_eval(2), of "([Lit ''login''], [Page LoginPage])"]
  by (simp add: selects_eval)

lemma visit_register:
  assumes "router_contract pick"
  shows "visit pick a ''/register'' = Shows RegisterPage"
  using visit_selects [OF assms segments_eval(3), of "([Lit ''register''], [Page RegisterPage])"]
  by (simp add: selects_eval)

lemma visit_page:
  assumes "router_contract pick" and "isAuthenticated a" and "segments path = ps"
    and "selects ps (pat, [ProtectedEl LayoutEl, Page p])"
  shows "visit pick a path = Shows p"
  using visit_selects [OF assms(1,3,4)] chain_visit_protected [OF assms(2)] by simp

lemma literal_selects:
  assumes "(path, p) \<in> set literal_pages"
  shows "selects (segments path) (map Lit (segments path), [ProtectedEl LayoutEl, Page p])"
  using assms unfolding literal_pages_def by (auto simp: segments_eval selects_eval)

lemma visit_literal:
  assumes "router_contract pick" and "isAuthenticated a" and "(path, p) \<in> set literal_pages"
  shows "visit pick a path = Shows p"
  by (rule visit_page [OF assms(1,2) refl literal_selects [OF assms(3)]])

lemma visit_job:
  assumes "router_contract pick" and "isAuthenticated a" and "segment i" and "to_lower i \<noteq> ''new''"
  shows "visit pick a (''/jobs/'' @ i) = Shows JobDetailPage"
  by (rule visit_page [OF assms(1,2) segments_job [OF assms(3)], of "[Lit ''jobs'', Param ''id'']"])
    (use assms(3,4) in \<open>auto simp: selects_eval segment_def\<close>)

lemma visit_job_edit:
  assumes "router_contract pick" and "isAuthenticated a" and "segment i"
  shows "visit pick a (''/jobs/'' @ i @ ''/edit'') = Shows EditJobPage"
  by (rule visit_page [OF assms(1,2) segments_job_edit [OF assms(3)],
        of "[Lit ''jobs'', Param ''id'', Lit ''edit'']"])
    (use assms(3) in \<open>auto simp: selects_eval segment_def\<close>)

lemma visit_admin:
  assumes "router_contract pick" and "(path, p) \<in> {(''/admin/jobs'', AdminJobsPage), (''/admin/users'', AdminUsersPage)}"
  shows "visit pick a path =
    (if \<not> isAuthenticated a then Redirects ''/login'' True
     else if isAdmin a then Shows p else Redirects ''/dashboard'' True)"
proof -
  have "selects (segments path) (map Lit (segments path), [ProtectedEl LayoutEl, AdminEl (Page p)])"
    using assms(2) by (auto simp: segments_eval selects_eval)
  then show ?thesis
    using visit_selects [OF assms(1) refl, of path] by (simp add: ProtectedRoute_def AdminRoute_def)
qed

section \<open>Properties\<close>

lemma chain_visit_app:
  assumes "b \<in> set app_branches"
  shows "chain_visit a (snd b) \<in> {Shows LoginPage, Shows RegisterPage} \<or>
    chain_visit a (snd b) = (if isAuthenticated a then Redirects ''/dashboard'' True else Redirects ''/login'' True) \<or>
    (isAuthenticated a \<and> (\<exists>p. chain_visit a (snd b) = Shows p \<and>
      (p \<in> {AdminJobsPage, AdminUsersPage} \<longrightarrow> isAdmin a)))"
  using assms unfolding app_branches_eval
  by (auto simp: ProtectedRoute_def AdminRoute_def)

text \<open>Without a token no path shows a page of the application: whatever path is visited,
  the visitor sees the login or the registration page, nothing, or is redirected to the login
  page.\<close>

theorem no_page_without_token:
  assumes "router_contract pick" and "\<not> isAuthenticated a"
  shows "visit pick a path \<in> {Shows LoginPage, Shows RegisterPage, Blank, Redirects ''/login'' True}"
  using visit_cases [OF assms(1), of a path] chain_visit_app [of _ a] assms(2) by force

theorem no_page_without_token_witness:
  "\<not> isAuthenticated \<lparr>token = JNull, user = JNull\<rparr> \<and>
   visit ranked \<lparr>token = JNull, user = JNull\<rparr> ''/jobs''
     \<in> {Shows LoginPage, Shows RegisterPage, Blank, Redirects ''/login'' True}"
proof -
  have "\<not> isAuthenticated \<lparr>token = JNull, user = JNull\<rparr>" by (simp add: isAuthenticated_def)
  then show ?thesis using no_page_without_token [OF ranked_contract] by simp
qed

text \<open>The administration pages are shown to administrators with a token only: any path that
  shows one of them was visited with a truthy token and the role \<open>admin\<close>.\<close>

theorem admin_pages_need_admin:
  assumes "router_contract pick" and "visit pick a path = Shows p"
    and "p \<in> {AdminJobsPage, AdminUsersPage}"
  shows "isAuthenticated a \<and> isAdmin a"
  using visit_cases [OF assms(1), of a path] chain_visit_app [of _ a] assms(2,3)
  by (force split: if_splits)

theorem admin_pages_need_admin_witness:
  "let a = \<lparr>token = JStr ''t'', user = JObj [(''role'', JStr ''admin'')]\<rparr> in
     visit ranked a ''/admin/jobs'' = Shows AdminJobsPage \<and> isAuthenticated a \<and> isAdmin a"
proof -
  let ?a = "\<lparr>token = JStr ''t'', user = JObj [(''role'', JStr ''admin'')]\<rparr>"
  have "isAuthenticated ?a" "isAdmin ?a" by (simp_all add: isAuthenticated_def isAdmin_def)
  then have v: "visit ranked ?a ''/admin/jobs'' = Shows AdminJobsPage"
    using visit_admin [OF ranked_contract, of "''/admin/jobs''" AdminJobsPage ?a] by simp
  then show ?thesis using admin_pages_need_admin [OF ranked_contract v] by simp
qed

text \<open>C37: Redirects end: from any path, in any session state, following redirects reaches a page
  or a path no route matches after at most one hop; the guards never send a visitor in a circle.\<close>

theorem redirects_end:
  assumes "router_contract pick"
  shows "\<exists>v. follow pick a 2 path = Some v \<and> (\<forall>p r. v \<noteq> Redirects p r)"
proof -
  have dash: "isAuthenticated a \<Longrightarrow> visit pick a ''/dashboard'' = Shows DashboardPage"
    by (rule visit_literal [OF assms]) (simp_all add: literal_pages_def)
  consider "visit pick a path = Blank" | b where "b \<in> set app_branches" "visit pick a path = chain_visit a (snd b)"
    using visit_cases [OF assms] by blast
  then show ?thesis
  proof cases
    case 1
    then show ?thesis by (simp add: numeral_2_eq_2)
  next
    case (2 b)
    then show ?thesis
      using chain_visit_app [OF 2(1), of a] visit_login [OF assms, of a] dash
      by (auto simp: numeral_2_eq_2 split: if_splits)
  qed
qed

theorem redirects_end_witness:
  "\<exists>v. follow ranked \<lparr>token = JStr ''t'', user = JNull\<rparr> 2 ''/admin/users'' = Some v \<and>
     (\<forall>p r. v \<noteq> Redirects p r)"
  by (rule redirects_end [OF ranked_contract])

end
