(* ===== verification/Backend.thy ===== *)
theory Backend
  imports Routes
begin

text \<open>
  The edge of the Go API: the route table of \<open>main.go\<close>, the two middlewares of
  \<open>middleware/auth.go\<close> and the response helpers.  The routing tree of chi and the JWT library
  are parameters; \<open>chi_contract\<close> states what chi documents: a request goes to a registered
  pattern of its method that matches its path segment by segment, and a static segment is preferred to a
  parameter.
\<close>

section \<open>Replies and claims\<close>

type_synonym reply = "nat \<times> jsval"

definition writeError :: "nat \<Rightarrow> string \<Rightarrow> reply" where
  "writeError status msg = (status, JObj [(''error'', JStr msg)])"

definition message :: "nat \<Rightarrow> string \<Rightarrow> reply" where
  "message status msg = (status, JObj [(''message'', JStr msg)])"

record claims =
  cl_user :: string
  cl_email :: string
  cl_role :: string

section \<open>Reading a body\<close>

text \<open>
  \<open>encoding/json\<close>: \<open>null\<close> leaves a field as it is, except that it clears a pointer and is kept by
  a raw message; a value of the wrong kind is an error, and so is a number that is no 64-bit
  integer.  \<open>JUndef\<close> does not occur in JSON text: it stands for an absent property.
\<close>

fun go_string :: "jsval \<Rightarrow> string \<Rightarrow> string option" where
  "go_string (JStr s) cur = Some s"
| "go_string JNull cur = Some cur"
| "go_string JUndef cur = Some cur"
| "go_string _ cur = None"

fun go_string_ptr :: "jsval \<Rightarrow> string option \<Rightarrow> string option option" where
  "go_string_ptr (JStr s) cur = Some (Some s)"
| "go_string_ptr JNull cur = Some None"
| "go_string_ptr JUndef cur = Some cur"
| "go_string_ptr _ cur = None"

fun go_int :: "jsval \<Rightarrow> int \<Rightarrow> int option" where
  "go_int (JNum n) cur = (if - (2 ^ 63) \<le> n \<and> n < 2 ^ 63 then Some n else None)"
| "go_int JNull cur = Some cur"
| "go_int JUndef cur = Some cur"
| "go_int _ cur = None"

text \<open>
  The string and string pointer fields of a small body struct.  A property goes to the field whose
  tag it names, upper and lower case not told apart, the last one winning.
\<close>

fun read_str :: "string \<Rightarrow> props \<Rightarrow> string \<Rightarrow> string option" where
  "read_str key [] cur = Some cur"
| "read_str key ((k, v) # ps) cur =
     (if to_lower k = key then Option.bind (go_string v cur) (read_str key ps) else read_str key ps cur)"

fun read_ptr :: "string \<Rightarrow> props \<Rightarrow> string option \<Rightarrow> string option option" where
  "read_ptr key [] cur = Some cur"
| "read_ptr key ((k, v) # ps) cur =
     (if to_lower k = key then Option.bind (go_string_ptr v cur) (read_ptr key ps) else read_ptr key ps cur)"

definition decode_str :: "string \<Rightarrow> jsval option \<Rightarrow> string option" where
  "decode_str key body =
     (case body of Some (JObj ps) \<Rightarrow> read_str key ps [] | Some JNull \<Rightarrow> Some [] | _ \<Rightarrow> None)"

definition decode_ptr :: "string \<Rightarrow> jsval option \<Rightarrow> string option option" where
  "decode_ptr key body =
     (case body of Some (JObj ps) \<Rightarrow> read_ptr key ps None | Some JNull \<Rightarrow> Some None | _ \<Rightarrow> None)"

text \<open>\<open>strconv.Atoi\<close> with its error dropped: 0 for what is no numeral, the nearest bound
  for what does not fit 64 bits.\<close>

definition numeral_of :: "string \<Rightarrow> nat option" where
  "numeral_of s = (if s = [] then None else digits_val 0 s)"

definition go_atoi :: "string \<Rightarrow> int" where
  "go_atoi s =
     (case s of
        [] \<Rightarrow> 0
      | c # cs \<Rightarrow>
          if c = CHR ''-'' then (case numeral_of cs of None \<Rightarrow> 0 | Some n \<Rightarrow> max (- (2 ^ 63)) (- int n))
          else if c = CHR ''+'' then (case numeral_of cs of None \<Rightarrow> 0 | Some n \<Rightarrow> min (2 ^ 63 - 1) (int n))
          else (case numeral_of s of None \<Rightarrow> 0 | Some n \<Rightarrow> min (2 ^ 63 - 1) (int n)))"

lemma go_atoi_nat_string: "go_atoi (nat_string n) = min (2 ^ 63 - 1) (int n)"
proof -
  obtain c cs where c: "nat_string n = c # cs" by (cases "nat_string n") simp_all
  have "digit_val c \<noteq> None" by (rule nat_string_digit_val [of _ n]) (simp add: c)
  then have "c \<noteq> CHR ''-''" "c \<noteq> CHR ''+''" by (auto simp: digit_val_def)
  then show ?thesis
    using digits_val_nat_string [of n] by (simp add: go_atoi_def c numeral_of_def)
qed

text \<open>VARCHAR(n) counts characters; no text column stores a NUL.\<close>

definition char_count :: "string \<Rightarrow> nat" where
  "char_count s = length (filter (\<lambda>c. \<not> is_cont c) s)"

definition varchar :: "nat \<Rightarrow> string \<Rightarrow> bool" where
  "varchar n s \<longleftrightarrow> char_count s \<le> n \<and> CHR 0x00 \<notin> set s"

section \<open>middleware/auth.go\<close>

text \<open>\<open>r.Header.Get\<close> of an absent header is the empty string; \<open>verify\<close> is
  the JWT library with the server's key at the time of the request.\<close>

definition RequireAuth :: "(string \<Rightarrow> claims option) \<Rightarrow> (string \<times> string) list \<Rightarrow> reply + claims" where
  "RequireAuth verify headers =
     (let header = (case map_of headers ''Authorization'' of None \<Rightarrow> [] | Some h \<Rightarrow> h) in
      if \<not> prefix ''Bearer '' header then Inl (writeError 401 ''Unauthorized'')
      else case verify (drop 7 header) of
        None \<Rightarrow> Inl (writeError 401 ''Invalid or expired token'')
      | Some c \<Rightarrow> Inr c)"

definition RequireAdmin :: "claims option \<Rightarrow> reply option" where
  "RequireAdmin c =
     (case c of
        None \<Rightarrow> Some (writeError 403 ''Forbidden'')
      | Some k \<Rightarrow> if cl_role k \<noteq> ''admin'' then Some (writeError 403 ''Forbidden'') else None)"

section \<open>The route table of main.go\<close>

datatype guard = Public | Authenticated | Administrator

datatype handler =
    ToHealth | ToRegister | ToLogin
  | ToListJobs | ToCreateJob | ToGetJob | ToUpdateJob | ToDeleteJob | ToPauseJob | ToResumeJob | ToTriggerJob
  | ToChangePassword
  | ToReportSummary | ToReportTimeline | ToReportJobs | ToReportCSV
  | ToListExecutions | ToListRunningExecutions | ToGetExecution
  | ToAdminListUsers | ToAdminCreateUser | ToAdminUpdateUser | ToAdminDeleteUser
  | ToAdminListJobs | ToAdminCreateJob | ToAdminUpdateJob | ToAdminDeleteJob
  | ToAdminPauseJob | ToAdminResumeJob | ToAdminTriggerJob

type_synonym api_route = "http_method \<times> string \<times> guard \<times> handler"

definition public_routes :: "(http_method \<times> string \<times> handler) list" where
  "public_routes =
    [(GET, ''/health'', ToHealth), (POST, ''/auth/register'', ToRegister), (POST, ''/auth/login'', ToLogin)]"

definition auth_routes :: "(http_method \<times> string \<times> handler) list" where
  "auth_routes =
    [(GET, ''/jobs'', ToListJobs),
     (POST, ''/jobs'', ToCreateJob),
     (GET, ''/jobs/{id}'', ToGetJob),
     (PUT, ''/jobs/{id}'', ToUpdateJob),
     (DELETE, ''/jobs/{id}'', ToDeleteJob),
     (POST, ''/jobs/{id}/pause'', ToPauseJob),
     (POST, ''/jobs/{id}/resume'', ToResumeJob),
     (POST, ''/jobs/{id}/trigger'', ToTriggerJob),
     (PUT, ''/profile/password'', ToChangePassword),
     (GET, ''/report/summary'', ToReportSummary),
     (GET, ''/report/timeline'', ToReportTimeline),
     (GET, ''/report/jobs'', ToReportJobs),
     (GET, ''/report/executions.csv'', ToReportCSV),
     (GET, ''/executions'', ToListExecutions),
     (GET, ''/executions/running'', ToListRunningExecutions),
     (GET, ''/executions/{id}'', ToGetExecution)]"

definition admin_routes :: "(http_method \<times> string \<times> handler) list" where
  "admin_routes =
    [(GET, ''/admin/users'', ToAdminListUsers),
     (POST, ''/admin/users'', ToAdminCreateUser),
     (PATCH, ''/admin/users/{id}'', ToAdminUpdateUser),
     (DELETE, ''/admin/users/{id}'', ToAdminDeleteUser),
     (GET, ''/admin/jobs'', ToAdminListJobs),
     (POST, ''/admin/jobs'', ToAdminCreateJob),
     (PUT, ''/admin/jobs/{id}'', ToAdminUpdateJob),
     (DELETE, ''/admin/jobs/{id}'', ToAdminDeleteJob),
     (POST, ''/admin/jobs/{id}/pause'', ToAdminPauseJob),
     (POST, ''/admin/jobs/{id}/resume'', ToAdminResumeJob),
     (POST, ''/admin/jobs/{id}/trigger'', ToAdminTriggerJob)]"

text \<open>\<open>r.Route("/api", ...)\<close> mounts all of them below \<open>/api\<close>; the groups
  nest the middlewares.\<close>

definition api_routes :: "api_route list" where
  "api_routes =
     map (\<lambda>(m, p, h). (m, ''/api'' @ p, Public, h)) public_routes
     @ map (\<lambda>(m, p, h). (m, ''/api'' @ p, Authenticated, h)) auth_routes
     @ map (\<lambda>(m, p, h). (m, ''/api'' @ p, Administrator, h)) admin_routes"

section \<open>Dispatch\<close>

definition chi_seg :: "string \<Rightarrow> seg" where
  "chi_seg s = (case s of c # cs \<Rightarrow> if c = CHR ''{'' then Param (butlast cs) else Lit s | [] \<Rightarrow> Lit s)"

definition chi_pattern :: "string \<Rightarrow> seg list" where
  "chi_pattern p = map chi_seg (segments p)"

text \<open>The patterns registered for a method.\<close>

definition method_table :: "http_method \<Rightarrow> (seg list \<times> guard \<times> handler) list" where
  "method_table m = map (\<lambda>(_, p, g, h). (chi_pattern p, g, h)) (filter (\<lambda>(m', _). m' = m) api_routes)"

text \<open>The first pattern has a static segment where the second has a parameter, and before that
  they are static at the same places.\<close>

fun static_before :: "seg list \<Rightarrow> seg list \<Rightarrow> bool" where
  "static_before (Lit _ # ps) (Param _ # qs) \<longleftrightarrow> True"
| "static_before (Lit _ # ps) (Lit _ # qs) \<longleftrightarrow> static_before ps qs"
| "static_before (Param _ # ps) (Param _ # qs) \<longleftrightarrow> static_before ps qs"
| "static_before _ _ \<longleftrightarrow> False"

text \<open>
  The segments of a path between its slashes, empty ones and a last empty one included: chi does not clean
  a path.  A static segment matches itself only, a parameter any segment, at the end a non-empty one.
\<close>

definition path_segments :: "string \<Rightarrow> string list" where
  "path_segments p = (case p of [] \<Rightarrow> [[]] | c # cs \<Rightarrow> if c = CHR ''/'' then split_slash cs else [p])"

fun chi_matches :: "seg list \<Rightarrow> string list \<Rightarrow> bool" where
  "chi_matches [] [] \<longleftrightarrow> True"
| "chi_matches (Lit a # ps) (s # ss) \<longleftrightarrow> a = s \<and> chi_matches ps ss"
| "chi_matches (Param x # ps) (s # ss) \<longleftrightarrow> (s \<noteq> [] \<or> ss \<noteq> []) \<and> chi_matches ps ss"
| "chi_matches _ _ \<longleftrightarrow> False"

definition chi_contract :: "'a picker \<Rightarrow> bool" where
  "chi_contract pick \<longleftrightarrow>
     (\<forall>bs p. case pick bs p of
        None \<Rightarrow> (\<forall>b \<in> set bs. \<not> chi_matches (fst b) p)
      | Some b \<Rightarrow> b \<in> set bs \<and> chi_matches (fst b) p \<and>
          (\<forall>c \<in> set bs. chi_matches (fst c) p \<longrightarrow> \<not> static_before (fst c) (fst b)))"

text \<open>The path of a URL, without its query.\<close>

definition url_path :: "string \<Rightarrow> string" where
  "url_path u = takeWhile (\<lambda>c. c \<noteq> CHR ''?'') u"

definition dispatch :: "(guard \<times> handler) picker \<Rightarrow> request \<Rightarrow> (guard \<times> handler) option" where
  "dispatch pick r = map_option snd (pick (method_table (rq_method r)) (path_segments (url_path (rq_url r))))"

text \<open>
  What the middlewares make of a request before its handler runs: chi's own 404 for an unknown
  route, a refusal, or the handler with the claims.
\<close>

datatype admission =
    NotRouted
  | Refusal reply
  | Admitted handler "claims option"

definition admit :: "(guard \<times> handler) picker \<Rightarrow> (string \<Rightarrow> claims option) \<Rightarrow> request \<Rightarrow> admission" where
  "admit pick verify r =
     (case dispatch pick r of
        None \<Rightarrow> NotRouted
      | Some (Public, h) \<Rightarrow> Admitted h None
      | Some (g, h) \<Rightarrow>
          (case RequireAuth verify (rq_headers r) of
             Inl refusal \<Rightarrow> Refusal refusal
           | Inr c \<Rightarrow>
               if g = Administrator
               then (case RequireAdmin (Some c) of Some refusal \<Rightarrow> Refusal refusal | None \<Rightarrow> Admitted h (Some c))
               else Admitted h (Some c)))"

section \<open>A router that keeps the contract\<close>

fun first_static :: "string list \<Rightarrow> (seg list \<times> 'a) list \<Rightarrow> (seg list \<times> 'a) option" where
  "first_static p [] = None"
| "first_static p (b # bs) =
     (case first_static p bs of
        None \<Rightarrow> if chi_matches (fst b) p then Some b else None
      | Some c \<Rightarrow> if chi_matches (fst b) p \<and> static_before (fst b) (fst c) then Some b else Some c)"

definition chi_like :: "'a picker" where
  "chi_like bs p = first_static p bs"

lemma static_before_trans:
  "static_before ps qs \<Longrightarrow> static_before qs rs \<Longrightarrow> static_before ps rs"
proof (induction ps qs arbitrary: rs rule: static_before.induct)
  case (1 a ps b qs)
  then show ?case by (cases rs rule: list.exhaust; cases "hd rs"; simp)
next
  case (2 a ps b qs)
  then show ?case by (cases rs rule: list.exhaust; cases "hd rs"; simp)
next
  case (3 a ps b qs)
  then show ?case by (cases rs rule: list.exhaust; cases "hd rs"; simp)
qed simp_all

lemma static_before_irrefl: "\<not> static_before ps ps"
proof (induction ps)
  case (Cons a ps)
  then show ?case by (cases a) simp_all
qed simp

lemma first_static_contract:
  "case first_static p bs of
     None \<Rightarrow> (\<forall>b \<in> set bs. \<not> chi_matches (fst b) p)
   | Some b \<Rightarrow> b \<in> set bs \<and> chi_matches (fst b) p \<and>
       (\<forall>c \<in> set bs. chi_matches (fst c) p \<longrightarrow> \<not> static_before (fst c) (fst b))"
proof (induction bs)
  case (Cons b bs)
  show ?case
  proof (cases "first_static p bs")
    case None
    then show ?thesis using Cons static_before_irrefl by auto
  next
    case (Some c)
    then show ?thesis
      using Cons static_before_irrefl static_before_trans by fastforce
  qed
qed simp

lemma chi_like_contract: "chi_contract chi_like"
  unfolding chi_contract_def chi_like_def using first_static_contract by blast

end
