(* ===== verification/Contract.thy ===== *)
theory Contract
  imports Backend
begin

text \<open>
  The front end's API layer against the server's route table: where the requests of
  \<open>src/api\<close> arrive, which middlewares they pass, and what becomes of a session's token.
\<close>

section \<open>Selecting a route\<close>

text \<open>\<open>b\<close> is the entry a path with these segments selects, whatever router is used.\<close>

definition chi_selects :: "(seg list \<times> 'a) list \<Rightarrow> string list \<Rightarrow> (seg list \<times> 'a) \<Rightarrow> bool" where
  "chi_selects bs ps b \<longleftrightarrow> b \<in> set bs \<and> chi_matches (fst b) ps \<and>
     list_all (\<lambda>d. chi_matches (fst d) ps \<longrightarrow> d = b \<or> static_before (fst b) (fst d)) bs"

lemma chi_pick:
  assumes c: "chi_contract pick" and b: "chi_selects bs ps b"
  shows "pick bs ps = Some b"
proof (cases "pick bs ps")
  case None
  have "\<forall>d \<in> set bs. \<not> chi_matches (fst d) ps"
    using c None unfolding chi_contract_def by (metis (no_types, lifting) option.simps(4))
  then show ?thesis using b by (auto simp: chi_selects_def)
next
  case (Some d)
  then have d: "d \<in> set bs" "chi_matches (fst d) ps"
      "\<forall>e \<in> set bs. chi_matches (fst e) ps \<longrightarrow> \<not> static_before (fst e) (fst d)"
    using c unfolding chi_contract_def by (metis (no_types, lifting) option.simps(5))+
  then have "d = b" using b unfolding chi_selects_def list_all_iff by blast
  then show ?thesis using Some by simp
qed

lemma dispatch_eq:
  assumes "chi_contract pick" and "path_segments (url_path (rq_url r)) = ps"
    and "chi_selects (method_table (rq_method r)) ps (pat, g, h)"
  shows "dispatch pick r = Some (g, h)"
  using chi_pick [OF assms(1,3)] assms(2) by (simp add: dispatch_def)

lemmas table_defs = method_table_def api_routes_def public_routes_def auth_routes_def
  admin_routes_def chi_pattern_def chi_seg_def segments_def

lemma table_GET:
  "method_table GET =
    [([Lit ''api'', Lit ''health''], Public, ToHealth),
     ([Lit ''api'', Lit ''jobs''], Authenticated, ToListJobs),
     ([Lit ''api'', Lit ''jobs'', Param ''id''], Authenticated, ToGetJob),
     ([Lit ''api'', Lit ''report'', Lit ''summary''], Authenticated, ToReportSummary),
     ([Lit ''api'', Lit ''report'', Lit ''timeline''], Authenticated, ToReportTimeline),
     ([Lit ''api'', Lit ''report'', Lit ''jobs''], Authenticated, ToReportJobs),
     ([Lit ''api'', Lit ''report'', Lit ''executions.csv''], Authenticated, ToReportCSV),
     ([Lit ''api'', Lit ''executions''], Authenticated, ToListExecutions),
     ([Lit ''api'', Lit ''executions'', Lit ''running''], Authenticated, ToListRunningExecutions),
     ([Lit ''api'', Lit ''executions'', Param ''id''], Authenticated, ToGetExecution),
     ([Lit ''api'', Lit ''admin'', Lit ''users''], Administrator, ToAdminListUsers),
     ([Lit ''api'', Lit ''admin'', Lit ''jobs''], Administrator, ToAdminListJobs)]"
  by (simp add: table_defs)

lemma table_POST:
  "method_table POST =
    [([Lit ''api'', Lit ''auth'', Lit ''register''], Public, ToRegister),
     ([Lit ''api'', Lit ''auth'', Lit ''login''], Public, ToLogin),
     ([Lit ''api'', Lit ''jobs''], Authenticated, ToCreateJob),
     ([Lit ''api'', Lit ''jobs'', Param ''id'', Lit ''pause''], Authenticated, ToPauseJob),
     ([Lit ''api'', Lit ''jobs'', Param ''id'', Lit ''resume''], Authenticated, ToResumeJob),
     ([Lit ''api'', Lit ''jobs'', Param ''id'', Lit ''trigger''], Authenticated, ToTriggerJob),
     ([Lit ''api'', Lit ''admin'', Lit ''users''], Administrator, ToAdminCreateUser),
     ([Lit ''api'', Lit ''admin'', Lit ''jobs''], Administrator, ToAdminCreateJob),
     ([Lit ''api'', Lit ''admin'', Lit ''jobs'', Param ''id'', Lit ''pause''], Administrator, ToAdminPauseJob),
     ([Lit ''api'', Lit ''admin'', Lit ''jobs'', Param ''id'', Lit ''resume''], Administrator, ToAdminResumeJob),
     ([Lit ''api'', Lit ''admin'', Lit ''jobs'', Param ''id'', Lit ''trigger''], Administrator, ToAdminTriggerJob)]"
  by (simp add: table_defs)

lemma table_PUT:
  "method_table PUT =
    [([Lit ''api'', Lit ''jobs'', Param ''id''], Authenticated, ToUpdateJob),
     ([Lit ''api'', Lit ''profile'', Lit ''password''], Authenticated, ToChangePassword),
     ([Lit ''api'', Lit ''admin'', Lit ''jobs'', Param ''id''], Administrator, ToAdminUpdateJob)]"
  by (simp add: table_defs)

lemma table_others:
  "method_table PATCH = [([Lit ''api'', Lit ''admin'', Lit ''users'', Param ''id''], Administrator, ToAdminUpdateUser)]"
  "method_table DELETE =
    [([Lit ''api'', Lit ''jobs'', Param ''id''], Authenticated, ToDeleteJob),
     ([Lit ''api'', Lit ''admin'', Lit ''users'', Param ''id''], Administrator, ToAdminDeleteUser),
     ([Lit ''api'', Lit ''admin'', Lit ''jobs'', Param ''id''], Administrator, ToAdminDeleteJob)]"
  by (simp_all add: table_defs)

lemmas tables = table_GET table_POST table_PUT table_others

section \<open>Segments of the request paths\<close>

text \<open>An id in a URL: a path segment without a query mark that is not the name of a fixed route.\<close>

definition url_id :: "string \<Rightarrow> bool" where
  "url_id i \<longleftrightarrow> segment i \<and> CHR ''?'' \<notin> set i \<and> i \<noteq> ''running''"

lemma url_path_append: "CHR ''?'' \<notin> set p \<Longrightarrow> url_path (p @ q) = p @ url_path q"
  unfolding url_path_def by (subst takeWhile_append2) auto

lemma url_path_plain: "CHR ''?'' \<notin> set p \<Longrightarrow> url_path p = p"
  using url_path_append [of p "[]"] by (simp add: url_path_def)

lemma split_slash_slash: "split_slash (p @ CHR ''/'' # t) = split_slash p @ split_slash t"
proof (induction p)
  case (Cons c p)
  then show ?case using split_slash_nonempty [of p] by (auto split: list.splits)
qed simp

lemma path_segments_slash: "prefix ''/'' p \<Longrightarrow> path_segments (p @ CHR ''/'' # t) = path_segments p @ split_slash t"
  by (auto simp: path_segments_def prefix_def split_slash_slash)

lemma path_id:
  assumes "url_id i" and "CHR ''?'' \<notin> set p" and "prefix ''/'' p"
  shows "path_segments (url_path (p @ CHR ''/'' # i)) = path_segments p @ [i]"
proof -
  have "url_path (p @ CHR ''/'' # i) = p @ CHR ''/'' # i"
    using assms by (intro url_path_plain) (auto simp: url_id_def)
  then show ?thesis
    using assms(1) path_segments_slash [OF assms(3), of i] by (simp add: url_id_def segment_def split_slash_single)
qed

lemma path_id_action:
  assumes "url_id i" and "CHR ''?'' \<notin> set p" and "segment w" and "CHR ''?'' \<notin> set w" and "prefix ''/'' p"
  shows "path_segments (url_path (p @ CHR ''/'' # i @ CHR ''/'' # w)) = path_segments p @ [i, w]"
proof -
  have "url_path (p @ CHR ''/'' # i @ CHR ''/'' # w) = p @ CHR ''/'' # i @ CHR ''/'' # w"
    using assms by (intro url_path_plain) (auto simp: url_id_def)
  then show ?thesis
    using assms path_segments_slash [OF assms(5), of "i @ CHR ''/'' # w"] split_slash_append [of i w]
    by (simp add: url_id_def segment_def split_slash_single)
qed

section \<open>The calls of the front end\<close>

text \<open>The requests of the API layer by the shape of their path.\<close>

lemma fixed_path:
  assumes "chi_contract pick" and "rq_method r = m" and "url_path (rq_url r) = p"
    and "chi_selects (method_table m) (path_segments p) (pat, g, h)"
  shows "dispatch pick r = Some (g, h)"
  using dispatch_eq [OF assms(1) refl, of r pat g h] assms(2-4) by simp

lemmas selects_route = chi_selects_def tables

lemmas request_defs = client_def base_url_def data_of_def response_of_def auth_calls job_calls report_calls admin_calls Let_def

lemma dispatch_fixed:
  assumes "chi_contract pick"
  shows
    "dispatch pick (call_request (login e p)) = Some (Public, ToLogin)"
    "dispatch pick (call_request (register e p)) = Some (Public, ToRegister)"
    "dispatch pick (call_request (changePassword p q)) = Some (Authenticated, ToChangePassword)"
    "dispatch pick (call_request getJobs) = Some (Authenticated, ToListJobs)"
    "dispatch pick (call_request (createJob d)) = Some (Authenticated, ToCreateJob)"
    "dispatch pick (call_request (getExecutions j l)) = Some (Authenticated, ToListExecutions)"
    "dispatch pick (call_request getRunningExecutions) = Some (Authenticated, ToListRunningExecutions)"
    "dispatch pick (call_request getReportSummary) = Some (Authenticated, ToReportSummary)"
    "dispatch pick (call_request (getReportTimeline l)) = Some (Authenticated, ToReportTimeline)"
    "dispatch pick (call_request getReportJobs) = Some (Authenticated, ToReportJobs)"
    "dispatch pick (downloadCsv_request j l) = Some (Authenticated, ToReportCSV)"
    "dispatch pick (call_request admin_getUsers) = Some (Administrator, ToAdminListUsers)"
    "dispatch pick (call_request (admin_createUser d)) = Some (Administrator, ToAdminCreateUser)"
    "dispatch pick (call_request admin_getAllJobs) = Some (Administrator, ToAdminListJobs)"
    "dispatch pick (call_request (admin_createJob d)) = Some (Administrator, ToAdminCreateJob)"
proof -
  note d = fixed_path [OF assms]
  show "dispatch pick (call_request (login e p)) = Some (Public, ToLogin)"
    by (rule d [of _ POST "''/api/auth/login''" "[Lit ''api'', Lit ''auth'', Lit ''login'']"])
      (simp_all add: request_defs url_path_def path_segments_def selects_route)
  show "dispatch pick (call_request (register e p)) = Some (Public, ToRegister)"
    by (rule d [of _ POST "''/api/auth/register''" "[Lit ''api'', Lit ''auth'', Lit ''register'']"])
      (simp_all add: request_defs url_path_def path_segments_def selects_route)
  show "dispatch pick (call_request (changePassword p q)) = Some (Authenticated, ToChangePassword)"
    by (rule d [of _ PUT "''/api/profile/password''" "[Lit ''api'', Lit ''profile'', Lit ''password'']"])
      (simp_all add: request_defs url_path_def path_segments_def selects_route)
  show "dispatch pick (call_request getJobs) = Some (Authenticated, ToListJobs)"
    by (rule d [of _ GET "''/api/jobs''" "[Lit ''api'', Lit ''jobs'']"])
      (simp_all add: request_defs url_path_def path_segments_def selects_route)
  show "dispatch pick (call_request (createJob d)) = Some (Authenticated, ToCreateJob)"
    by (rule d [of _ POST "''/api/jobs''" "[Lit ''api'', Lit ''jobs'']"])
      (simp_all add: request_defs url_path_def path_segments_def selects_route)
  show "dispatch pick (call_request (getExecutions j l)) = Some (Authenticated, ToListExecutions)"
    by (rule d [of _ GET "''/api/executions''" "[Lit ''api'', Lit ''executions'']"])
      (simp_all add: request_defs url_path_def path_segments_def selects_route)
  show "dispatch pick (call_request getRunningExecutions) = Some (Authenticated, ToListRunningExecutions)"
    by (rule d [of _ GET "''/api/executions/running''" "[Lit ''api'', Lit ''executions'', Lit ''running'']"])
      (simp_all add: request_defs url_path_def path_segments_def selects_route)
  show "dispatch pick (call_request getReportSummary) = Some (Authenticated, ToReportSummary)"
    by (rule d [of _ GET "''/api/report/summary''" "[Lit ''api'', Lit ''report'', Lit ''summary'']"])
      (simp_all add: request_defs url_path_def path_segments_def selects_route)
  show "dispatch pick (call_request (getReportTimeline l)) = Some (Authenticated, ToReportTimeline)"
    by (rule d [of _ GET "''/api/report/timeline''" "[Lit ''api'', Lit ''report'', Lit ''timeline'']"])
      (simp_all add: request_defs url_path_def path_segments_def selects_route)
  show "dispatch pick (call_request getReportJobs) = Some (Authenticated, ToReportJobs)"
    by (rule d [of _ GET "''/api/report/jobs''" "[Lit ''api'', Lit ''report'', Lit ''jobs'']"])
      (simp_all add: request_defs url_path_def path_segments_def selects_route)
  show "dispatch pick (downloadCsv_request j l) = Some (Authenticated, ToReportCSV)"
    by (rule d [of _ GET "''/api/report/executions.csv''" "[Lit ''api'', Lit ''report'', Lit ''executions.csv'']"])
      (simp_all add: request_defs url_path_def path_segments_def selects_route)
  show "dispatch pick (call_request admin_getUsers) = Some (Administrator, ToAdminListUsers)"
    by (rule d [of _ GET "''/api/admin/users''" "[Lit ''api'', Lit ''admin'', Lit ''users'']"])
      (simp_all add: request_defs url_path_def path_segments_def selects_route)
  show "dispatch pick (call_request (admin_createUser d)) = Some (Administrator, ToAdminCreateUser)"
    by (rule d [of _ POST "''/api/admin/users''" "[Lit ''api'', Lit ''admin'', Lit ''users'']"])
      (simp_all add: request_defs url_path_def path_segments_def selects_route)
  show "dispatch pick (call_request admin_getAllJobs) = Some (Administrator, ToAdminListJobs)"
    by (rule d [of _ GET "''/api/admin/jobs''" "[Lit ''api'', Lit ''admin'', Lit ''jobs'']"])
      (simp_all add: request_defs url_path_def path_segments_def selects_route)
  show "dispatch pick (call_request (admin_createJob d)) = Some (Administrator, ToAdminCreateJob)"
    by (rule d [of _ POST "''/api/admin/jobs''" "[Lit ''api'', Lit ''admin'', Lit ''jobs'']"])
      (simp_all add: request_defs url_path_def path_segments_def selects_route)
qed

text \<open>The path of each call about one job, execution or account.\<close>

lemma id_segments:
  assumes "url_id i"
  shows
    "path_segments (url_path (rq_url (call_request (getJob i)))) = [''api'', ''jobs'', i]"
    "path_segments (url_path (rq_url (call_request (updateJob i d)))) = [''api'', ''jobs'', i]"
    "path_segments (url_path (rq_url (call_request (deleteJob i)))) = [''api'', ''jobs'', i]"
    "path_segments (url_path (rq_url (call_request (pauseJob i)))) = [''api'', ''jobs'', i, ''pause'']"
    "path_segments (url_path (rq_url (call_request (resumeJob i)))) = [''api'', ''jobs'', i, ''resume'']"
    "path_segments (url_path (rq_url (call_request (triggerJob i)))) = [''api'', ''jobs'', i, ''trigger'']"
    "path_segments (url_path (rq_url (call_request (getExecution i)))) = [''api'', ''executions'', i]"
    "path_segments (url_path (rq_url (call_request (admin_updateUser i d)))) = [''api'', ''admin'', ''users'', i]"
    "path_segments (url_path (rq_url (call_request (admin_deleteUser i)))) = [''api'', ''admin'', ''users'', i]"
    "path_segments (url_path (rq_url (call_request (admin_updateJob i d)))) = [''api'', ''admin'', ''jobs'', i]"
    "path_segments (url_path (rq_url (call_request (admin_deleteJob i)))) = [''api'', ''admin'', ''jobs'', i]"
    "path_segments (url_path (rq_url (call_request (admin_pauseJob i)))) = [''api'', ''admin'', ''jobs'', i, ''pause'']"
    "path_segments (url_path (rq_url (call_request (admin_resumeJob i)))) = [''api'', ''admin'', ''jobs'', i, ''resume'']"
    "path_segments (url_path (rq_url (call_request (admin_triggerJob i)))) = [''api'', ''admin'', ''jobs'', i, ''trigger'']"
  using path_id [OF assms, of "''/api/jobs''"] path_id [OF assms, of "''/api/executions''"]
    path_id [OF assms, of "''/api/admin/users''"] path_id [OF assms, of "''/api/admin/jobs''"]
    path_id_action [OF assms, of "''/api/jobs''" "''pause''"] path_id_action [OF assms, of "''/api/jobs''" "''resume''"]
    path_id_action [OF assms, of "''/api/jobs''" "''trigger''"]
    path_id_action [OF assms, of "''/api/admin/jobs''" "''pause''"]
    path_id_action [OF assms, of "''/api/admin/jobs''" "''resume''"]
    path_id_action [OF assms, of "''/api/admin/jobs''" "''trigger''"]
  by (simp_all add: request_defs path_segments_def segment_def)

lemma dispatch_by_id:
  assumes "chi_contract pick" and "url_id i"
  shows
    "dispatch pick (call_request (getJob i)) = Some (Authenticated, ToGetJob)"
    "dispatch pick (call_request (updateJob i d)) = Some (Authenticated, ToUpdateJob)"
    "dispatch pick (call_request (deleteJob i)) = Some (Authenticated, ToDeleteJob)"
    "dispatch pick (call_request (pauseJob i)) = Some (Authenticated, ToPauseJob)"
    "dispatch pick (call_request (resumeJob i)) = Some (Authenticated, ToResumeJob)"
    "dispatch pick (call_request (triggerJob i)) = Some (Authenticated, ToTriggerJob)"
    "dispatch pick (call_request (getExecution i)) = Some (Authenticated, ToGetExecution)"
    "dispatch pick (call_request (admin_updateUser i d)) = Some (Administrator, ToAdminUpdateUser)"
    "dispatch pick (call_request (admin_deleteUser i)) = Some (Administrator, ToAdminDeleteUser)"
    "dispatch pick (call_request (admin_updateJob i d)) = Some (Administrator, ToAdminUpdateJob)"
    "dispatch pick (call_request (admin_deleteJob i)) = Some (Administrator, ToAdminDeleteJob)"
    "dispatch pick (call_request (admin_pauseJob i)) = Some (Administrator, ToAdminPauseJob)"
    "dispatch pick (call_request (admin_resumeJob i)) = Some (Administrator, ToAdminResumeJob)"
    "dispatch pick (call_request (admin_triggerJob i)) = Some (Administrator, ToAdminTriggerJob)"
proof -
  have i: "i \<noteq> []" "i \<noteq> ''running''" using assms(2) by (auto simp: url_id_def segment_def)
  note seg = id_segments [OF assms(2)] and select = dispatch_eq [OF assms(1)]
  show "dispatch pick (call_request (getJob i)) = Some (Authenticated, ToGetJob)"
    by (rule select [OF seg(1), where pat = "[Lit ''api'', Lit ''jobs'', Param ''id'']"]) (use i in \<open>simp_all add: request_defs selects_route\<close>)
  show "dispatch pick (call_request (updateJob i d)) = Some (Authenticated, ToUpdateJob)"
    by (rule select [OF seg(2), where pat = "[Lit ''api'', Lit ''jobs'', Param ''id'']"]) (use i in \<open>simp_all add: request_defs selects_route\<close>)
  show "dispatch pick (call_request (deleteJob i)) = Some (Authenticated, ToDeleteJob)"
    by (rule select [OF seg(3), where pat = "[Lit ''api'', Lit ''jobs'', Param ''id'']"]) (use i in \<open>simp_all add: request_defs selects_route\<close>)
  show "dispatch pick (call_request (pauseJob i)) = Some (Authenticated, ToPauseJob)"
    by (rule select [OF seg(4), where pat = "[Lit ''api'', Lit ''jobs'', Param ''id'', Lit ''pause'']"]) (use i in \<open>simp_all add: request_defs selects_route\<close>)
  show "dispatch pick (call_request (resumeJob i)) = Some (Authenticated, ToResumeJob)"
    by (rule select [OF seg(5), where pat = "[Lit ''api'', Lit ''jobs'', Param ''id'', Lit ''resume'']"]) (use i in \<open>simp_all add: request_defs selects_route\<close>)
  show "dispatch pick (call_request (triggerJob i)) = Some (Authenticated, ToTriggerJob)"
    by (rule select [OF seg(6), where pat = "[Lit ''api'', Lit ''jobs'', Param ''id'', Lit ''trigger'']"]) (use i in \<open>simp_all add: request_defs selects_route\<close>)
  show "dispatch pick (call_request (getExecution i)) = Some (Authenticated, ToGetExecution)"
    by (rule select [OF seg(7), where pat = "[Lit ''api'', Lit ''executions'', Param ''id'']"]) (use i in \<open>simp_all add: request_defs selects_route\<close>)
  show "dispatch pick (call_request (admin_updateUser i d)) = Some (Administrator, ToAdminUpdateUser)"
    by (rule select [OF seg(8), where pat = "[Lit ''api'', Lit ''admin'', Lit ''users'', Param ''id'']"]) (use i in \<open>simp_all add: request_defs selects_route\<close>)
  show "dispatch pick (call_request (admin_deleteUser i)) = Some (Administrator, ToAdminDeleteUser)"
    by (rule select [OF seg(9), where pat = "[Lit ''api'', Lit ''admin'', Lit ''users'', Param ''id'']"]) (use i in \<open>simp_all add: request_defs selects_route\<close>)
  show "dispatch pick (call_request (admin_updateJob i d)) = Some (Administrator, ToAdminUpdateJob)"
    by (rule select [OF seg(10), where pat = "[Lit ''api'', Lit ''admin'', Lit ''jobs'', Param ''id'']"]) (use i in \<open>simp_all add: request_defs selects_route\<close>)
  show "dispatch pick (call_request (admin_deleteJob i)) = Some (Administrator, ToAdminDeleteJob)"
    by (rule select [OF seg(11), where pat = "[Lit ''api'', Lit ''admin'', Lit ''jobs'', Param ''id'']"]) (use i in \<open>simp_all add: request_defs selects_route\<close>)
  show "dispatch pick (call_request (admin_pauseJob i)) = Some (Administrator, ToAdminPauseJob)"
    by (rule select [OF seg(12), where pat = "[Lit ''api'', Lit ''admin'', Lit ''jobs'', Param ''id'', Lit ''pause'']"]) (use i in \<open>simp_all add: request_defs selects_route\<close>)
  show "dispatch pick (call_request (admin_resumeJob i)) = Some (Administrator, ToAdminResumeJob)"
    by (rule select [OF seg(13), where pat = "[Lit ''api'', Lit ''admin'', Lit ''jobs'', Param ''id'', Lit ''resume'']"]) (use i in \<open>simp_all add: request_defs selects_route\<close>)
  show "dispatch pick (call_request (admin_triggerJob i)) = Some (Administrator, ToAdminTriggerJob)"
    by (rule select [OF seg(14), where pat = "[Lit ''api'', Lit ''admin'', Lit ''jobs'', Param ''id'', Lit ''trigger'']"]) (use i in \<open>simp_all add: request_defs selects_route\<close>)
qed

section \<open>Properties\<close>

text \<open>Every request the front end can send has a route.  For any id that can stand in a path
  (and is not the name of the fixed route \<open>running\<close>), each function of the API layer reaches the
  handler meant for it; the calls of the administration pages pass the administrator guard, login and
  registration none, all others the authentication guard.\<close>

theorem api_contract:
  assumes "chi_contract pick" and "url_id i"
  shows "list_all (\<lambda>(r, g, h). dispatch pick r = Some (g, h))
    [(call_request (login e p), Public, ToLogin),
     (call_request (register e p), Public, ToRegister),
     (call_request (changePassword p q), Authenticated, ToChangePassword),
     (call_request getJobs, Authenticated, ToListJobs),
     (call_request (getJob i), Authenticated, ToGetJob),
     (call_request (createJob d), Authenticated, ToCreateJob),
     (call_request (updateJob i d), Authenticated, ToUpdateJob),
     (call_request (deleteJob i), Authenticated, ToDeleteJob),
     (call_request (pauseJob i), Authenticated, ToPauseJob),
     (call_request (resumeJob i), Authenticated, ToResumeJob),
     (call_request (triggerJob i), Authenticated, ToTriggerJob),
     (call_request (getExecutions j l), Authenticated, ToListExecutions),
     (call_request getRunningExecutions, Authenticated, ToListRunningExecutions),
     (call_request (getExecution i), Authenticated, ToGetExecution),
     (call_request getReportSummary, Authenticated, ToReportSummary),
     (call_request (getReportTimeline l), Authenticated, ToReportTimeline),
     (call_request getReportJobs, Authenticated, ToReportJobs),
     (downloadCsv_request j l, Authenticated, ToReportCSV),
     (call_request admin_getUsers, Administrator, ToAdminListUsers),
     (call_request (admin_createUser d), Administrator, ToAdminCreateUser),
     (call_request (admin_updateUser i d), Administrator, ToAdminUpdateUser),
     (call_request (admin_deleteUser i), Administrator, ToAdminDeleteUser),
     (call_request admin_getAllJobs, Administrator, ToAdminListJobs),
     (call_request (admin_createJob d), Administrator, ToAdminCreateJob),
     (call_request (admin_updateJob i d), Administrator, ToAdminUpdateJob),
     (call_request (admin_deleteJob i), Administrator, ToAdminDeleteJob),
     (call_request (admin_pauseJob i), Administrator, ToAdminPauseJob),
     (call_request (admin_resumeJob i), Administrator, ToAdminResumeJob),
     (call_request (admin_triggerJob i), Administrator, ToAdminTriggerJob)]"
  using dispatch_fixed [OF assms(1)] dispatch_by_id [OF assms]
  by (simp only: list.pred_inject prod.case simp_thms)

theorem api_contract_witness:
  "dispatch chi_like (call_request getRunningExecutions) = Some (Authenticated, ToListRunningExecutions) \<and>
   dispatch chi_like (call_request (getExecution ''7'')) = Some (Authenticated, ToGetExecution) \<and>
   dispatch chi_like (call_request (admin_pauseJob ''7'')) = Some (Administrator, ToAdminPauseJob)"
proof -
  have "url_id ''7''" by (simp add: url_id_def segment_def)
  from api_contract [OF chi_like_contract this] show ?thesis
    by (simp only: list.pred_inject prod.case simp_thms)
qed

text \<open>What the server sees of a session.\<close>

lemma session_header:
  assumes "session b" and "rq_headers r = client_headers"
  shows "map_of (rq_headers (intercept (local_storage b) r)) ''Authorization'' =
    (if isAuthenticated (auth b) then Some (''Bearer '' @ js_text (token (auth b))) else None)"
proof -
  have "map_of (rq_headers r) ''Authorization'' = None"
    using assms(2) by (simp add: client_headers_def)
  then show ?thesis
    unfolding session_in_sync [OF assms(1)]
    by (simp add: intercept_authorization isAuthenticated_def init_auth_def getItem_def split: option.split)
qed

lemma dispatch_intercept [simp]: "dispatch pick (intercept st r) = dispatch pick r"
  by (simp add: dispatch_def)

lemma admit_session:
  assumes "session b" and "rq_headers r = client_headers" and "dispatch pick r = Some (g, h)"
  shows "admit pick verify (intercept (local_storage b) r) =
    (if g = Public then Admitted h None
     else if \<not> isAuthenticated (auth b) then Refusal (writeError 401 ''Unauthorized'')
     else case verify (js_text (token (auth b))) of
       None \<Rightarrow> Refusal (writeError 401 ''Invalid or expired token'')
     | Some c \<Rightarrow>
         if g = Administrator \<and> cl_role c \<noteq> ''admin'' then Refusal (writeError 403 ''Forbidden'')
         else Admitted h (Some c))"
  using assms(3) session_header [OF assms(1,2)]
  by (cases g) (auto simp: admit_def RequireAuth_def RequireAdmin_def Let_def split: option.splits)

text \<open>C4: What the server admits is what the session may do.  A request of a browser session to a
  route that is not public is refused as unauthorized when the provider is not authenticated, and as
  having an invalid token when the server does not verify the token the provider holds; otherwise the
  handler runs with the claims of exactly that token, on the administration routes only if they have
  the role \<open>admin\<close>.\<close>

theorem session_admission:
  assumes "session b" and "rq_headers r = client_headers" and "dispatch pick r = Some (g, h)" and "g \<noteq> Public"
  shows "admit pick verify (intercept (local_storage b) r) =
    (if \<not> isAuthenticated (auth b) then Refusal (401, JObj [(''error'', JStr ''Unauthorized'')])
     else case verify (js_text (token (auth b))) of
       None \<Rightarrow> Refusal (401, JObj [(''error'', JStr ''Invalid or expired token'')])
     | Some c \<Rightarrow>
         if g = Administrator \<and> cl_role c \<noteq> ''admin''
         then Refusal (403, JObj [(''error'', JStr ''Forbidden'')])
         else Admitted h (Some c))"
  using assms(4) by (simp add: admit_session [OF assms(1-3)] writeError_def split: option.split)

theorem session_admission_witness:
  "let b = setAuth (JStr ''tok'') JNull \<lparr>local_storage = Map.empty, auth = init_auth Map.empty\<rparr>;
       c = \<lparr>cl_user = ''1'', cl_email = ''a@b.c'', cl_role = ''user''\<rparr>;
       verify = (\<lambda>t. if t = ''tok'' then Some c else None)
   in admit chi_like verify (intercept (local_storage b) (call_request admin_getUsers)) =
        Refusal (403, JObj [(''error'', JStr ''Forbidden'')])"
proof -
  let ?b = "setAuth (JStr ''tok'') JNull \<lparr>local_storage = Map.empty, auth = init_auth Map.empty\<rparr>"
  have s: "session ?b" by (intro session.logged_in session.load) simp
  have d: "dispatch chi_like (call_request admin_getUsers) = Some (Administrator, ToAdminListUsers)"
    using dispatch_fixed [OF chi_like_contract] by blast
  have h: "rq_headers (call_request admin_getUsers) = client_headers"
    by (simp add: admin_getUsers_def response_of_def client_def)
  show ?thesis
    unfolding Let_def by (subst session_admission [OF s h d]) (simp_all add: isAuthenticated_def)
qed

end
