(* ===== verification/JobsApi.thy ===== *)
theory JobsApi
  imports Backend
begin

text \<open>
  The job handlers of the Go API, \<open>handler/jobs.go\<close> and the job half of \<open>handler/admin.go\<close>, over
  the tables of \<open>db/schema.sql\<close>.  A table is the list of its rows in the order of insertion; a
  statement is the function it computes on them; an order by creation or by start is the order of
  insertion.  A handler returns the database after it and its
  reply.  Ids are the canonical text of a UUID, so a malformed one matches no row, which is the
  branch the handlers take for it as well.  Fresh ids, the current time and the text of a database
  error are arguments.
\<close>

section \<open>Tables\<close>

record job =
  jb_id :: string
  jb_user :: "string option"
  jb_name :: string
  jb_description :: string
  jb_cron :: string
  jb_url :: string
  jb_method :: string
  jb_headers :: jsval
  jb_body :: "string option"
  jb_status :: string
  jb_timezone :: string
  jb_timeout :: int
  jb_policy :: string
  jb_last_run :: "string option"
  jb_created :: string
  jb_updated :: string

record execution =
  ex_id :: string
  ex_job :: string
  ex_status :: string
  ex_trigger :: string
  ex_started :: string
  ex_completed :: "string option"
  ex_duration :: "int option"
  ex_response :: "int option"
  ex_body :: "string option"
  ex_error :: "string option"
  ex_cancel :: bool

record user_row =
  us_id :: string
  us_email :: string
  us_hash :: string
  us_role :: string
  us_created :: string

record db =
  db_users :: "user_row list"
  db_jobs :: "job list"
  db_execs :: "execution list"

section \<open>jobInput\<close>

record job_input =
  in_name :: string
  in_description :: string
  in_cron :: string
  in_url :: string
  in_method :: string
  in_headers :: "jsval option"
  in_body :: "string option"
  in_timezone :: string
  in_timeout :: int
  in_policy :: string

definition empty_input :: job_input where
  "empty_input = \<lparr>in_name = [], in_description = [], in_cron = [], in_url = [], in_method = [],
     in_headers = None, in_body = None, in_timezone = [], in_timeout = 0, in_policy = []\<rparr>"

text \<open>A property goes to the field whose tag it names, upper and lower case not told apart;
  unknown properties are skipped.\<close>

definition decode_field :: "string \<Rightarrow> jsval \<Rightarrow> job_input \<Rightarrow> job_input option" where
  "decode_field key v b =
     (let k = to_lower key in
      if k = ''name'' then map_option (\<lambda>s. b\<lparr>in_name := s\<rparr>) (go_string v (in_name b))
      else if k = ''description'' then map_option (\<lambda>s. b\<lparr>in_description := s\<rparr>) (go_string v (in_description b))
      else if k = ''cron_expression'' then map_option (\<lambda>s. b\<lparr>in_cron := s\<rparr>) (go_string v (in_cron b))
      else if k = ''url'' then map_option (\<lambda>s. b\<lparr>in_url := s\<rparr>) (go_string v (in_url b))
      else if k = ''method'' then map_option (\<lambda>s. b\<lparr>in_method := s\<rparr>) (go_string v (in_method b))
      else if k = ''headers'' then Some (if v = JUndef then b else b\<lparr>in_headers := Some v\<rparr>)
      else if k = ''body'' then map_option (\<lambda>s. b\<lparr>in_body := s\<rparr>) (go_string_ptr v (in_body b))
      else if k = ''timezone'' then map_option (\<lambda>s. b\<lparr>in_timezone := s\<rparr>) (go_string v (in_timezone b))
      else if k = ''timeout_seconds'' then map_option (\<lambda>n. b\<lparr>in_timeout := n\<rparr>) (go_int v (in_timeout b))
      else if k = ''concurrency_policy'' then map_option (\<lambda>s. b\<lparr>in_policy := s\<rparr>) (go_string v (in_policy b))
      else Some b)"

fun decode_fields :: "props \<Rightarrow> job_input \<Rightarrow> job_input option" where
  "decode_fields [] b = Some b"
| "decode_fields ((k, v) # ps) b = Option.bind (decode_field k v b) (decode_fields ps)"

fun decode_job :: "jsval option \<Rightarrow> job_input option" where
  "decode_job (Some (JObj ps)) = decode_fields ps empty_input"
| "decode_job (Some JNull) = Some empty_input"
| "decode_job _ = None"

definition applyDefaults :: "job_input \<Rightarrow> job_input" where
  "applyDefaults b =
     b\<lparr>in_method := (if in_method b = [] then ''GET'' else in_method b),
       in_timezone := (if in_timezone b = [] then ''UTC'' else in_timezone b),
       in_timeout := (if in_timeout b = 0 then 30 else in_timeout b),
       in_policy := (if in_policy b = [] then ''Allow'' else in_policy b)\<rparr>"

definition headersJSON :: "job_input \<Rightarrow> jsval" where
  "headersJSON b = (case in_headers b of None \<Rightarrow> JObj [] | Some v \<Rightarrow> v)"

text \<open>A JSONB column stores no NUL in a string or a key.\<close>

fun jsonb_ok :: "jsval \<Rightarrow> bool" where
  "jsonb_ok (JStr s) \<longleftrightarrow> CHR 0x00 \<notin> set s"
| "jsonb_ok (JArr vs) \<longleftrightarrow> list_all jsonb_ok vs"
| "jsonb_ok (JObj ps) \<longleftrightarrow> list_all (\<lambda>p. CHR 0x00 \<notin> set (fst p) \<and> jsonb_ok (snd p)) ps"
| "jsonb_ok _ \<longleftrightarrow> True"

text \<open>What the columns of the table accept; INT is 32 bits wide.\<close>

definition fits_schema :: "job_input \<Rightarrow> bool" where
  "fits_schema b \<longleftrightarrow>
     varchar 255 (in_name b) \<and> CHR 0x00 \<notin> set (in_description b) \<and> varchar 100 (in_cron b) \<and>
     varchar 2048 (in_url b) \<and> varchar 10 (in_method b) \<and>
     (case in_body b of None \<Rightarrow> True | Some t \<Rightarrow> CHR 0x00 \<notin> set t) \<and>
     varchar 100 (in_timezone b) \<and> - (2 ^ 31) \<le> in_timeout b \<and> in_timeout b < 2 ^ 31 \<and>
     varchar 20 (in_policy b) \<and> jsonb_ok (headersJSON b)"

section \<open>Rows as JSON\<close>

text \<open>The executions of a user's jobs, the join of both tables.\<close>

definition user_execs :: "string \<Rightarrow> db \<Rightarrow> execution list" where
  "user_execs uid d =
     filter (\<lambda>e. list_ex (\<lambda>j. jb_id j = ex_job e \<and> jb_user j = Some uid) (db_jobs d)) (db_execs d)"

fun opt_string :: "string option \<Rightarrow> jsval" where
  "opt_string None = JNull"
| "opt_string (Some s) = JStr s"

definition job_execs :: "db \<Rightarrow> job \<Rightarrow> execution list" where
  "job_execs d j = filter (\<lambda>e. ex_job e = jb_id j) (db_execs d)"

text \<open>\<open>jobsQuery\<close>, \<open>scanJob\<close> and the encoding of the \<open>Job\<close>
  struct.\<close>

definition job_json :: "db \<Rightarrow> job \<Rightarrow> props" where
  "job_json d j =
     [(''id'', JStr (jb_id j)), (''user_id'', opt_string (jb_user j)), (''name'', JStr (jb_name j)),
      (''description'', JStr (jb_description j)), (''cron_expression'', JStr (jb_cron j)),
      (''url'', JStr (jb_url j)), (''method'', JStr (jb_method j)), (''headers'', jb_headers j),
      (''body'', opt_string (jb_body j)), (''status'', JStr (jb_status j)),
      (''timezone'', JStr (jb_timezone j)), (''timeout_seconds'', JNum (jb_timeout j)),
      (''concurrency_policy'', JStr (jb_policy j)), (''last_run_at'', opt_string (jb_last_run j)),
      (''created_at'', JStr (jb_created j)), (''updated_at'', JStr (jb_updated j)),
      (''execution_count'', JNum (int (length (job_execs d j)))),
      (''last_execution_status'',
         case job_execs d j of [] \<Rightarrow> JNull | es \<Rightarrow> JStr (ex_status (last es)))]"

text \<open>\<open>adminJobsQuery\<close> does not select the policy, so the struct keeps its zero value; it adds the
  owner's address, which is left out of the JSON when there is none.\<close>

definition owner_email :: "db \<Rightarrow> job \<Rightarrow> string option" where
  "owner_email d j =
     (case jb_user j of
        None \<Rightarrow> None
      | Some u \<Rightarrow> map_option us_email (find (\<lambda>r. us_id r = u) (db_users d)))"

definition scanAdminJob :: "job \<Rightarrow> job" where
  "scanAdminJob j = j\<lparr>jb_policy := []\<rparr>"

definition admin_job_json :: "db \<Rightarrow> job \<Rightarrow> props" where
  "admin_job_json d j =
     job_json d (scanAdminJob j)
     @ (case owner_email d j of None \<Rightarrow> [] | Some e \<Rightarrow> [(''owner_email'', JStr e)])"

section \<open>Statements\<close>

definition owned_job :: "string \<Rightarrow> string \<Rightarrow> db \<Rightarrow> job option" where
  "owned_job uid i d = find (\<lambda>j. jb_id j = i \<and> jb_user j = Some uid) (db_jobs d)"

definition any_job :: "string \<Rightarrow> db \<Rightarrow> job option" where
  "any_job i d = find (\<lambda>j. jb_id j = i) (db_jobs d)"

definition update_job :: "string \<Rightarrow> (job \<Rightarrow> job) \<Rightarrow> db \<Rightarrow> db" where
  "update_job i f d = d\<lparr>db_jobs := map (\<lambda>j. if jb_id j = i then f j else j) (db_jobs d)\<rparr>"

text \<open>Deleting a job deletes its executions with it.\<close>

definition remove_job :: "string \<Rightarrow> db \<Rightarrow> db" where
  "remove_job i d = d\<lparr>db_jobs := filter (\<lambda>j. jb_id j \<noteq> i) (db_jobs d),
     db_execs := filter (\<lambda>e. ex_job e \<noteq> i) (db_execs d)\<rparr>"

definition new_job :: "string \<Rightarrow> string \<Rightarrow> string \<Rightarrow> job_input \<Rightarrow> job" where
  "new_job i uid now b =
     \<lparr>jb_id = i, jb_user = Some uid, jb_name = in_name b, jb_description = in_description b,
      jb_cron = in_cron b, jb_url = in_url b, jb_method = in_method b, jb_headers = headersJSON b,
      jb_body = in_body b, jb_status = ''active'', jb_timezone = in_timezone b,
      jb_timeout = in_timeout b, jb_policy = in_policy b, jb_last_run = None, jb_created = now,
      jb_updated = now\<rparr>"

definition set_job :: "string \<Rightarrow> job_input \<Rightarrow> job \<Rightarrow> job" where
  "set_job now b j =
     j\<lparr>jb_name := in_name b, jb_description := in_description b, jb_cron := in_cron b,
       jb_url := in_url b, jb_method := in_method b, jb_headers := headersJSON b, jb_body := in_body b,
       jb_timezone := in_timezone b, jb_timeout := in_timeout b, jb_policy := in_policy b,
       jb_updated := now\<rparr>"

section \<open>jobs.go\<close>

definition ListJobs :: "string \<Rightarrow> db \<Rightarrow> reply" where
  "ListJobs uid d =
     (200, JArr (map (\<lambda>j. JObj (job_json d j)) (rev (filter (\<lambda>j. jb_user j = Some uid) (db_jobs d)))))"

definition GetJob :: "string \<Rightarrow> string \<Rightarrow> db \<Rightarrow> reply" where
  "GetJob uid i d =
     (case owned_job uid i d of
        None \<Rightarrow> writeError 404 ''Job not found''
      | Some j \<Rightarrow> (200, JObj (job_json d j)))"

definition CreateJob :: "string \<Rightarrow> string \<Rightarrow> string \<Rightarrow> string \<Rightarrow> jsval option \<Rightarrow> db \<Rightarrow> db \<times> reply" where
  "CreateJob fresh now dberr uid body d =
     (case decode_job body of
        None \<Rightarrow> (d, writeError 400 ''Invalid request body'')
      | Some b0 \<Rightarrow>
          let b = applyDefaults b0 in
          if fits_schema b \<and> uid \<in> us_id ` set (db_users d) then
            let j = new_job fresh uid now b; d' = d\<lparr>db_jobs := db_jobs d @ [j]\<rparr>
            in (d', (201, JObj (job_json d' j)))
          else (d, writeError 500 dberr))"

definition UpdateJob :: "string \<Rightarrow> string \<Rightarrow> string \<Rightarrow> jsval option \<Rightarrow> db \<Rightarrow> db \<times> reply" where
  "UpdateJob now uid i body d =
     (case decode_job body of
        None \<Rightarrow> (d, writeError 400 ''Invalid request body'')
      | Some b0 \<Rightarrow>
          let b = applyDefaults b0 in
          (case owned_job uid i d of
             Some j \<Rightarrow>
               if fits_schema b then
                 let d' = update_job i (set_job now b) d in (d', (200, JObj (job_json d' (set_job now b j))))
               else (d, writeError 404 ''Job not found'')
           | None \<Rightarrow> (d, writeError 404 ''Job not found'')))"

definition DeleteJob :: "string \<Rightarrow> string \<Rightarrow> db \<Rightarrow> db \<times> reply" where
  "DeleteJob uid i d =
     (case owned_job uid i d of
        None \<Rightarrow> (d, writeError 404 ''Job not found'')
      | Some j \<Rightarrow> (remove_job i d, (204, JUndef)))"

definition setJobStatus :: "string \<Rightarrow> string \<Rightarrow> string \<Rightarrow> string \<Rightarrow> string \<Rightarrow> db \<Rightarrow> db \<times> reply" where
  "setJobStatus newStatus requiredStatus now uid i d =
     (case owned_job uid i d of
        Some j \<Rightarrow>
          if jb_status j = requiredStatus then
            let f = (\<lambda>k. k\<lparr>jb_status := newStatus, jb_updated := now\<rparr>); d' = update_job i f d
            in (d', (200, JObj (job_json d' (f j))))
          else (d, writeError 404 ''Job not found or wrong status'')
      | None \<Rightarrow> (d, writeError 404 ''Job not found or wrong status''))"

definition PauseJob :: "string \<Rightarrow> string \<Rightarrow> string \<Rightarrow> db \<Rightarrow> db \<times> reply" where
  "PauseJob = setJobStatus ''paused'' ''active''"

definition ResumeJob :: "string \<Rightarrow> string \<Rightarrow> string \<Rightarrow> db \<Rightarrow> db \<times> reply" where
  "ResumeJob = setJobStatus ''active'' ''paused''"

text \<open>The jobs handed to \<open>executor.Run\<close> are the third component.\<close>

definition HasRunning :: "string \<Rightarrow> db \<Rightarrow> bool" where
  "HasRunning i d \<longleftrightarrow> list_ex (\<lambda>e. ex_job e = i \<and> ex_status e = ''running'') (db_execs d)"

definition cancel_running :: "string \<Rightarrow> db \<Rightarrow> db" where
  "cancel_running i d =
     d\<lparr>db_execs := map (\<lambda>e. if ex_job e = i \<and> ex_status e = ''running'' then e\<lparr>ex_cancel := True\<rparr> else e) (db_execs d)\<rparr>"

definition TriggerJob :: "string \<Rightarrow> string \<Rightarrow> db \<Rightarrow> db \<times> reply \<times> job list" where
  "TriggerJob uid i d =
     (case owned_job uid i d of
        None \<Rightarrow> (d, writeError 404 ''Job not found'', [])
      | Some j \<Rightarrow>
          if jb_policy j = ''Forbid'' \<and> HasRunning (jb_id j) d then
            (d, writeError 409 ''Job is already running (Forbid policy)'', [])
          else
            ((if jb_policy j = ''Replace'' then cancel_running (jb_id j) d else d),
             message 200 ''Job triggered'', [j]))"

section \<open>The job half of admin.go\<close>

definition AdminListJobs :: "db \<Rightarrow> reply" where
  "AdminListJobs d = (200, JArr (map (\<lambda>j. JObj (admin_job_json d j)) (rev (db_jobs d))))"

text \<open>\<open>user_id\<close> beside the embedded \<open>jobInput\<close>.\<close>

definition decode_owner :: "jsval option \<Rightarrow> string option" where
  "decode_owner body = decode_str ''user_id'' body"

definition AdminCreateJob :: "string \<Rightarrow> string \<Rightarrow> string \<Rightarrow> jsval option \<Rightarrow> db \<Rightarrow> db \<times> reply" where
  "AdminCreateJob fresh now dberr body d =
     (case (decode_job body, decode_owner body) of
        (Some b0, Some uid) \<Rightarrow>
          if uid = [] then (d, writeError 400 ''user_id required'')
          else
            let b = applyDefaults b0 in
            if fits_schema (b\<lparr>in_policy := []\<rparr>) \<and> uid \<in> us_id ` set (db_users d) then
              let j = new_job fresh uid now (b\<lparr>in_policy := ''Allow''\<rparr>); d' = d\<lparr>db_jobs := db_jobs d @ [j]\<rparr>
              in (d', (201, JObj (admin_job_json d' j)))
            else (d, writeError 500 dberr)
      | _ \<Rightarrow> (d, writeError 400 ''user_id required''))"

definition AdminUpdateJob :: "string \<Rightarrow> string \<Rightarrow> jsval option \<Rightarrow> db \<Rightarrow> db \<times> reply" where
  "AdminUpdateJob now i body d =
     (case decode_job body of
        None \<Rightarrow> (d, writeError 400 ''Invalid request body'')
      | Some b0 \<Rightarrow>
          let b = applyDefaults b0; f = (\<lambda>j. set_job now (b\<lparr>in_policy := jb_policy j\<rparr>) j) in
          (case any_job i d of
             Some j \<Rightarrow>
               if fits_schema (b\<lparr>in_policy := []\<rparr>) then
                 let d' = update_job i f d in (d', (200, JObj (admin_job_json d' (f j))))
               else (d, writeError 404 ''Job not found'')
           | None \<Rightarrow> (d, writeError 404 ''Job not found'')))"

definition AdminDeleteJob :: "string \<Rightarrow> db \<Rightarrow> db \<times> reply" where
  "AdminDeleteJob i d =
     (case any_job i d of
        None \<Rightarrow> (d, writeError 404 ''Job not found'')
      | Some j \<Rightarrow> (remove_job i d, (204, JUndef)))"

definition adminSetJobStatus :: "string \<Rightarrow> string \<Rightarrow> string \<Rightarrow> string \<Rightarrow> db \<Rightarrow> db \<times> reply" where
  "adminSetJobStatus newStatus required now i d =
     (case any_job i d of
        Some j \<Rightarrow>
          if jb_status j = required then
            let f = (\<lambda>k. k\<lparr>jb_status := newStatus, jb_updated := now\<rparr>); d' = update_job i f d
            in (d', (200, JObj (admin_job_json d' (f j))))
          else (d, writeError 404 ''Job not found or wrong status'')
      | None \<Rightarrow> (d, writeError 404 ''Job not found or wrong status''))"

definition AdminPauseJob :: "string \<Rightarrow> string \<Rightarrow> db \<Rightarrow> db \<times> reply" where
  "AdminPauseJob = adminSetJobStatus ''paused'' ''active''"

definition AdminResumeJob :: "string \<Rightarrow> string \<Rightarrow> db \<Rightarrow> db \<times> reply" where
  "AdminResumeJob = adminSetJobStatus ''active'' ''paused''"

definition AdminTriggerJob :: "string \<Rightarrow> db \<Rightarrow> reply \<times> job list" where
  "AdminTriggerJob i d =
     (case any_job i d of
        None \<Rightarrow> (writeError 404 ''Job not found'', [])
      | Some j \<Rightarrow> (message 200 ''Job triggered'', [scanAdminJob j]))"

section \<open>An instance\<close>

text \<open>One job of the user \<open>1\<close> and two executions of it on one day.\<close>

definition sample_db :: db where
  "sample_db =
     \<lparr>db_users = [],
      db_jobs = [\<lparr>jb_id = ''7'', jb_user = Some ''1'', jb_name = ''n'', jb_description = [],
        jb_cron = ''* * * * *'', jb_url = ''u'', jb_method = ''GET'', jb_headers = JObj [], jb_body = None,
        jb_status = ''active'', jb_timezone = ''UTC'', jb_timeout = 30, jb_policy = ''Allow'',
        jb_last_run = None, jb_created = ''t'', jb_updated = ''t''\<rparr>],
      db_execs =
        [\<lparr>ex_id = ''a'', ex_job = ''7'', ex_status = ''success'', ex_trigger = ''schedule'',
          ex_started = ''2024-05-03T08:00:00Z'', ex_completed = Some ''2024-05-03T08:00:01Z'', ex_duration = Some 120,
          ex_response = Some 200, ex_body = Some ''ok'', ex_error = None, ex_cancel = False\<rparr>,
         \<lparr>ex_id = ''b'', ex_job = ''7'', ex_status = ''failure'', ex_trigger = ''manual'',
          ex_started = ''2024-05-03T09:30:00Z'', ex_completed = Some ''2024-05-03T09:30:01Z'', ex_duration = Some 40,
          ex_response = None, ex_body = None, ex_error = Some ''refused'', ex_cancel = False\<rparr>]\<rparr>"

end
