(* ===== verification/Widgets.thy ===== *)
theory Widgets
  imports Auth
begin

text \<open>
  The display components shared by the pages: \<open>StatusBadge.jsx\<close> and \<open>ExecutionTable.jsx\<close>.
  Rows come from the API as JSON objects, so a component reads them property by property; a
  property the server left out reads as \<open>undefined\<close>.  The two formatters of date-fns the pages
  use are a parameter: \<open>ago v\<close> is \<open>formatDistanceToNow(new Date(v), {addSuffix: true})\<close> and
  \<open>full_date v\<close> is \<open>format(new Date(v), 'PPpp')\<close>.
\<close>

section \<open>Reading rows\<close>

record dates =
  ago :: "jsval \<Rightarrow> string"
  full_date :: "jsval \<Rightarrow> string"

definition field :: "props \<Rightarrow> string \<Rightarrow> jsval" where
  "field row k = oget (JObj row) k"

lemma field_lookup [simp]:
  "field [] k = JUndef"
  "field ((k', v) # row) k = (if k' = k then v else field row k)"
  by (simp_all add: field_def)

lemma field_put [simp]: "field (put row k v) k' = (if k' = k then v else field row k')"
  by (simp add: field_def)

lemma field_spread_right:
  assumes "distinct (map fst qs)" and "k \<in> fst ` set qs"
  shows "field (spread ps qs) k = field qs k"
  using assms by (simp add: field_def map_of_spread map_add_def split: option.split)
    (metis map_of_eq_None_iff option.distinct(1))

lemma field_spread_left: "k \<notin> fst ` set qs \<Longrightarrow> field (spread ps qs) k = field ps k"
  by (simp add: field_def map_of_spread_notin)

text \<open>\<open>const { data: rows = [] }\<close>: the default applies while the query has no data.\<close>

definition rows_or_empty :: "props list option \<Rightarrow> props list" where
  "rows_or_empty d = (case d of None \<Rightarrow> [] | Some rows \<Rightarrow> rows)"

text \<open>\<open>{v && <node/>}\<close> for a value that is not a boolean: a falsy value is itself rendered.\<close>

definition and_then :: "jsval \<Rightarrow> 'e node list \<Rightarrow> 'e node list" where
  "and_then v ns = (if truthy v then ns else shown v)"

text \<open>What a controlled input shows: nothing for \<open>null\<close> and \<open>undefined\<close>.\<close>

definition input_value :: "jsval \<Rightarrow> string" where
  "input_value v = (if v = JUndef \<or> v = JNull then [] else js_text v)"

text \<open>\<open>v < n\<close>: the API sends integers; \<open>null\<close> counts as 0, what is not a
  number compares false.\<close>

fun js_less :: "jsval \<Rightarrow> int \<Rightarrow> bool" where
  "js_less (JNum m) n = (m < n)"
| "js_less JNull n = (0 < n)"
| "js_less (JBool b) n = (of_bool b < n)"
| "js_less _ n = False"

text \<open>
  \<open>s.slice(0, n)\<close> counts code units; a surrogate pair cut in half is displayed as U+FFFD.
\<close>

fun u16_take :: "nat \<Rightarrow> string \<Rightarrow> string" where
  "u16_take n [] = []"
| "u16_take n (c # cs) =
     (if is_cont c then c # u16_take n cs
      else if units c \<le> n then c # u16_take (n - units c) cs
      else if 0 < n then [CHR 0xEF, CHR 0xBF, CHR 0xBD]
      else [])"

lemma u16len_take: "u16len (u16_take n s) \<le> n"
proof (induction n s rule: u16_take.induct)
  case (2 n c cs)
  have "u16len [CHR 0xEF, CHR 0xBF, CHR 0xBD] = 1"
    by (simp add: units_def is_cont_def)
  moreover have "is_cont c \<Longrightarrow> units c = 0"
    by (simp add: units_def)
  ultimately show ?case
    using 2 by (auto simp del: u16len_Cons simp: u16len_Cons [of c])
qed simp

lemma u16_take_short: "u16len s \<le> n \<Longrightarrow> u16_take n s = s"
  by (induction n s rule: u16_take.induct) (auto simp: units_def split: if_splits)

section \<open>StatusBadge.jsx\<close>

definition palette :: "string \<rightharpoonup> string" where
  "palette = map_of
    [(''active'', ''bg-green-100 text-green-700''),
     (''paused'', ''bg-yellow-100 text-yellow-700''),
     (''disabled'', ''bg-gray-100 text-gray-500''),
     (''success'', ''bg-green-100 text-green-700''),
     (''failure'', ''bg-red-100 text-red-700''),
     (''running'', ''bg-blue-100 text-blue-700'')]"

definition badge_colours :: "jsval \<Rightarrow> string" where
  "badge_colours status =
     (case palette (js_text status) of
        Some c \<Rightarrow> c
      | None \<Rightarrow> the (palette ''disabled''))"

definition StatusBadge :: "jsval \<Rightarrow> 'e node" where
  "StatusBadge status =
     Elem ''span''
       [Attr ''className''
          (''inline-flex items-center px-2.5 py-0.5 rounded-full text-xs font-medium '' @ badge_colours status)]
       (shown status)"

section \<open>ExecutionTable.jsx\<close>

text \<open>\<open>e != null\<close>\<close>

definition not_null :: "jsval \<Rightarrow> bool" where
  "not_null v \<longleftrightarrow> v \<noteq> JUndef \<and> v \<noteq> JNull"

text \<open>The fourth cell: the HTTP status, or else the start of the error message, or a dash.  The
  message is a string or \<open>null\<close>.\<close>

definition http_cell :: "props \<Rightarrow> 'e node list" where
  "http_cell exec =
     (let status = field exec ''response_status''; err = field exec ''error_message'' in
      if truthy status then
        [Elem ''span''
           [Attr ''className'' (if js_less status 400 then ''text-green-600 font-mono'' else ''text-red-600 font-mono'')]
           (shown status)]
      else if truthy err then
        [Elem ''span'' [Attr ''title'' (js_text err)] [Text (u16_take 60 (js_text err))]]
      else [Text em_dash])"

definition execution_row :: "dates \<Rightarrow> props \<Rightarrow> 'e node" where
  "execution_row fmt exec =
     Elem ''tr'' []
       [Elem ''td'' [] [StatusBadge (field exec ''status'')],
        Elem ''td'' [Attr ''title'' (full_date fmt (field exec ''started_at''))]
          [Text (ago fmt (field exec ''started_at''))],
        Elem ''td'' []
          [Text (if not_null (field exec ''duration_ms'')
                 then js_text (field exec ''duration_ms'') @ ''ms'' else em_dash)],
        Elem ''td'' [] (http_cell exec),
        Elem ''td'' [] (shown (field exec ''triggered_by''))]"

definition ExecutionTable :: "dates \<Rightarrow> props list \<Rightarrow> 'e node list" where
  "ExecutionTable fmt executions =
     (if executions = [] then [Elem ''p'' [] [Text ''No executions yet.'']]
      else
        [Elem ''div'' []
          [Elem ''table'' []
            [Elem ''thead'' []
              [Elem ''tr'' []
                [Elem ''th'' [] [Text ''Status''], Elem ''th'' [] [Text ''Started''],
                 Elem ''th'' [] [Text ''Duration''], Elem ''th'' [] [Text ''HTTP''],
                 Elem ''th'' [] [Text ''Triggered By'']]],
             Elem ''tbody'' [] (map (execution_row fmt) executions)]]])"

section \<open>Facts\<close>

lemma StatusBadge_inert [simp]:
  "node_events (StatusBadge s) = []" "node_links (StatusBadge s) = []"
  using events_shown [of s] links_shown [of s]
  by (simp_all add: StatusBadge_def ui_eval events_def links_def)

lemma events_StatusBadge [simp]: "events (StatusBadge s # ns) = events ns"
  and links_StatusBadge [simp]: "links (StatusBadge s # ns) = links ns"
  by (simp_all add: events_def links_def)

lemma events_and_then [simp]: "events (and_then v ns) = (if truthy v then events ns else [])"
  and links_and_then [simp]: "links (and_then v ns) = (if truthy v then links ns else [])"
  by (simp_all add: and_then_def)

lemma http_cell_inert [simp]: "events (http_cell e) = []" "links (http_cell e) = []"
  by (simp_all add: http_cell_def Let_def ui_eval)

lemma execution_row_inert:
  "node_events (execution_row fmt e) = []" "node_links (execution_row fmt e) = []"
proof -
  have "events [execution_row fmt e] = []" and "links [execution_row fmt e] = []"
    by (simp_all add: execution_row_def ui_eval)
  then show "node_events (execution_row fmt e) = []" "node_links (execution_row fmt e) = []"
    by (simp_all add: events_def links_def)
qed

lemma execution_rows_inert [simp]:
  "events (map (execution_row fmt) es) = []" "links (map (execution_row fmt) es) = []"
  by (simp_all add: events_def links_def execution_row_inert comp_def)

lemma ExecutionTable_inert [simp]:
  "events (ExecutionTable fmt es) = []" "links (ExecutionTable fmt es) = []"
  by (simp_all add: ExecutionTable_def ui_eval)

end
