(* ===== verification/Cron.thy ===== *)
theory Cron
  imports View
begin

text \<open>
  \<open>CronHelper.jsx\<close>: the sentence shown under a cron expression.  \<open>describe\<close> returns
  \<open>None\<close> where the source returns \<open>null\<close>.
\<close>

definition describe :: "string \<Rightarrow> string option" where
  "describe expr =
     (case split_ws (trim expr) of
        [mins, hour, dayom, month, dow] \<Rightarrow>
          if expr = ''* * * * *'' then Some ''Every minute''
          else if prefix ''*/'' mins then Some (''Every '' @ drop 2 mins @ '' minutes'')
          else if dayom = ''*'' \<and> month = ''*'' \<and> dow = ''*'' then
            (if hour = ''*'' then Some (''At minute '' @ mins @ '' of every hour'')
             else Some (''Daily at '' @ pad_start 2 CHR ''0'' hour @ '':'' @ pad_start 2 CHR ''0'' mins))
          else None
      | _ \<Rightarrow> None)"

definition CronHelper :: "string \<Rightarrow> 'e node list" where
  "CronHelper expression =
     (case describe expression of
        None \<Rightarrow> []
      | Some text \<Rightarrow> if text = [] then [] else [Elem ''p'' [] [Text text]])"

section \<open>Splitting five words\<close>

definition word :: "string \<Rightarrow> bool" where
  "word w \<longleftrightarrow> w \<noteq> [] \<and> (\<forall>c \<in> set w. \<not> is_ws c)"

definition five :: "string \<Rightarrow> string \<Rightarrow> string \<Rightarrow> string \<Rightarrow> string \<Rightarrow> string" where
  "five a b c d e = a @ '' '' @ b @ '' '' @ c @ '' '' @ d @ '' '' @ e"

lemma is_ws_space [simp]: "is_ws CHR '' ''"
  by (simp add: is_ws_def)

lemma trim_id:
  assumes "s \<noteq> []" and "\<not> is_ws (hd s)" and "\<not> is_ws (last s)"
  shows "trim s = s"
proof -
  have "trim_left s = s" using assms(1,2) by (cases s) (simp_all add: trim_left_def)
  moreover have "trim_left (rev s) = rev s"
    using assms(1,3) by (cases "rev s") (auto simp: trim_left_def last_conv_nth hd_rev [symmetric] hd_conv_nth)
  ultimately show ?thesis by (simp add: trim_def)
qed

lemma split_word: "word w \<Longrightarrow> split_ws w = [w]"
  by (rule split_ws_word) (simp add: word_def)

lemma split_word_step:
  "word w \<Longrightarrow> r \<noteq> [] \<Longrightarrow> \<not> is_ws (hd r) \<Longrightarrow> split_ws (w @ CHR '' '' # r) = w # split_ws r"
  by (rule split_ws_step) (auto simp: word_def)

lemma split_two_words:
  assumes "word w" and "word v"
  shows "split_ws (w @ CHR '' '' # v @ r) = w # split_ws (v @ r)"
  by (rule split_word_step [OF assms(1)]) (use assms(2) in \<open>cases v; auto simp: word_def\<close>)+

lemma word_hd: "word w \<Longrightarrow> \<not> is_ws (hd (w @ r))"
  by (cases w) (auto simp: word_def)

lemma word_ne: "word w \<Longrightarrow> w \<noteq> []"
  by (simp add: word_def)

lemma split_five:
  assumes "word a" "word b" "word c" "word d" "word e"
  shows "split_ws (trim (five a b c d e)) = [a, b, c, d, e]"
proof -
  have "last e \<in> set e" using assms(5) by (simp add: word_def)
  then have "trim (five a b c d e) = five a b c d e"
    using assms(1,5) word_hd [of a] by (intro trim_id) (auto simp: five_def word_def)
  then show ?thesis
    using assms split_two_words [of d e "[]"] by (simp add: five_def split_two_words split_word)
qed

section \<open>Describing a schedule\<close>

lemma five_inj:
  assumes "word a" "word b" "word c" "word d" "word e"
    and "word a'" "word b'" "word c'" "word d'" "word e'"
    and "five a b c d e = five a' b' c' d' e'"
  shows "[a, b, c, d, e] = [a', b', c', d', e']"
proof -
  have "split_ws (trim (five a b c d e)) = split_ws (trim (five a' b' c' d' e'))"
    by (simp only: assms(11))
  then show ?thesis unfolding split_five [OF assms(1-5)] split_five [OF assms(6-10)] .
qed

lemma word_star: "word ''*''"
  by (simp add: word_def is_ws_def)

lemma five_star: "''* * * * *'' = five ''*'' ''*'' ''*'' ''*'' ''*''"
  by (simp add: five_def)

lemma describe_five:
  assumes "word a" "word b" "word c" "word d" "word e"
  shows "describe (five a b c d e) =
    (if [a, b, c, d, e] = [''*'', ''*'', ''*'', ''*'', ''*''] then Some ''Every minute''
     else if prefix ''*/'' a then Some (''Every '' @ drop 2 a @ '' minutes'')
     else if c = ''*'' \<and> d = ''*'' \<and> e = ''*'' then
       (if b = ''*'' then Some (''At minute '' @ a @ '' of every hour'')
        else Some (''Daily at '' @ pad_start 2 CHR ''0'' b @ '':'' @ pad_start 2 CHR ''0'' a))
     else None)"
proof -
  have "five a b c d e = ''* * * * *'' \<longleftrightarrow> [a, b, c, d, e] = [''*'', ''*'', ''*'', ''*'', ''*'']"
    using five_inj [OF assms word_star word_star word_star word_star word_star]
    by (auto simp: five_star)
  then show ?thesis by (simp add: describe_def split_five [OF assms])
qed

lemma describe_Some_five: "describe e \<noteq> None \<Longrightarrow> length (split_ws (trim e)) = 5"
  by (auto simp: describe_def split: list.splits)

lemma describe_nonempty: "describe e = Some t \<Longrightarrow> t \<noteq> []"
  by (auto simp: describe_def split: list.splits if_splits)

lemma digit_char_not_ws: "n < 10 \<Longrightarrow> \<not> is_ws (digit_char n)"
  by (erule less_10_cases) (simp_all add: is_ws_def digit_char_def)

lemma word_nat_string: "word (nat_string n)"
  using nat_string_digits digit_char_not_ws by (fastforce simp: word_def)

lemma digit_char_not_star: "n < 10 \<Longrightarrow> digit_char n \<noteq> CHR ''*''"
  by (erule less_10_cases) (simp_all add: digit_char_def)

lemma nat_string_not_star: "nat_string n \<noteq> CHR ''*'' # r"
  using nat_string_digits [of "CHR ''*''" n] digit_char_not_star by fastforce

lemma u16len_digits: "\<forall>c \<in> set s. \<exists>d < 10. c = digit_char d \<Longrightarrow> u16len s = length s"
proof (induction s)
  case (Cons c s)
  then obtain d where "d < 10" "c = digit_char d" by auto
  then have "units c = 1"
    by (erule_tac less_10_cases) (simp_all add: units_def is_cont_def digit_char_def)
  with Cons show ?case by simp
qed simp

lemma u16len_nat_string: "u16len (nat_string n) = length (nat_string n)"
  using nat_string_digits by (blast intro: u16len_digits)

text \<open>A number written with at least two digits.\<close>

definition two_digits :: "nat \<Rightarrow> string" where
  "two_digits n = (if n < 10 then CHR ''0'' # nat_string n else nat_string n)"

lemma length_nat_string: "n < 10 \<longleftrightarrow> length (nat_string n) = 1"
proof -
  have "\<not> n < 10 \<Longrightarrow> length (nat_string (n div 10)) > 0" by simp
  then show ?thesis by (subst nat_string.simps) auto
qed

lemma pad_two_digits: "pad_start 2 CHR ''0'' (nat_string n) = two_digits n"
proof (cases "n < 10")
  case True
  then show ?thesis
    using length_nat_string [of n] by (simp add: pad_start_def two_digits_def u16len_nat_string)
next
  case False
  have "length (nat_string n) \<noteq> 0" by simp
  then have "2 \<le> length (nat_string n)" using False length_nat_string [of n] by linarith
  with False show ?thesis by (simp add: pad_start_def two_digits_def u16len_nat_string)
qed

section \<open>Properties\<close>

text \<open>A daily schedule is described by its time of day.  For every minute and hour given as
  plain numbers, \<open>m h * * *\<close> is described as \<open>Daily at hh:mm\<close>, hour and minute padded to two
  digits; a step \<open>*/n * * * *\<close> is described as \<open>Every n minutes\<close>.\<close>

theorem describe_daily:
  "describe (five (nat_string m) (nat_string h) ''*'' ''*'' ''*'') =
     Some (''Daily at '' @ two_digits h @ '':'' @ two_digits m) \<and>
   describe (five (''*/'' @ nat_string n) ''*'' ''*'' ''*'' ''*'') =
     Some (''Every '' @ nat_string n @ '' minutes'')"
proof -
  have "word (''*/'' @ nat_string n)"
    using word_nat_string [of n] by (auto simp: word_def is_ws_def)
  moreover have "\<not> prefix ''*/'' (nat_string m)"
    using nat_string_not_star [of m] by (cases "nat_string m") auto
  ultimately show ?thesis
    using nat_string_not_star [of h "[]"] nat_string_not_star [of m "[]"]
    by (simp add: describe_five word_nat_string word_star pad_two_digits)
qed

text \<open>A step in the minute field hides the rest of the schedule: whatever the other four
  fields say, the expression is described as running every \<open>n\<close> minutes.  So \<open>*/5 9 * * 1\<close>,
  which runs on Monday mornings only, is described as \<open>Every 5 minutes\<close>.\<close>

theorem describe_step_hides_rest:
  assumes "word step" and "word hour" and "word dayom" and "word month" and "word dow"
  shows "describe (five (''*/'' @ step) hour dayom month dow) = Some (''Every '' @ step @ '' minutes'')"
proof -
  have "word (''*/'' @ step)" using assms(1) by (auto simp: word_def is_ws_def)
  then show ?thesis using assms by (simp add: describe_five)
qed

theorem describe_step_hides_rest_witness:
  "five ''*/5'' ''9'' ''*'' ''*'' ''1'' = ''*/5 9 * * 1'' \<and>
   describe (five (''*/'' @ ''5'') ''9'' ''*'' ''*'' ''1'') = Some ''Every 5 minutes''"
proof -
  have w: "word ''5''" "word ''9''" "word ''*''" "word ''1''"
    by (simp_all add: word_def is_ws_def)
  show ?thesis
    using describe_step_hides_rest [OF w(1,2,3,3,4)] by (simp add: five_def)
qed

end
