(* ===== verification/JobForm.thy ===== *)
theory JobForm
  imports Widgets Cron
begin

text \<open>
  \<open>JobForm.jsx\<close>: the form object, its handlers and its markup.  The form object starts as the
  defaults overridden by the \<open>initial\<close> prop; every control writes one property of it, so the
  object a submission hands to \<open>onSubmit\<close> keeps all the other properties of \<open>initial\<close>.
\<close>

section \<open>State\<close>

definition METHODS :: "string list" where
  "METHODS = [''GET'', ''POST'', ''PUT'', ''PATCH'', ''DELETE'']"

record policy =
  policy_value :: string
  policy_label :: string
  policy_desc :: string

definition CONCURRENCY_POLICIES :: "policy list" where
  "CONCURRENCY_POLICIES =
    [\<lparr>policy_value = ''Allow'', policy_label = ''Allow'',
      policy_desc = ''Allow concurrent runs '' @ em_dash
        @ '' new run starts even if a previous one is still in-flight.''\<rparr>,
     \<lparr>policy_value = ''Forbid'', policy_label = ''Forbid'',
      policy_desc = ''Skip new run if the previous one hasn't finished yet.''\<rparr>,
     \<lparr>policy_value = ''Replace'', policy_label = ''Replace'',
      policy_desc = ''Cancel the in-flight run and immediately start a new one.''\<rparr>]"

definition PRESETS :: "(string \<times> string) list" where
  "PRESETS =
    [(''Every minute'', ''* * * * *''),
     (''Every 5 min'', ''*/5 * * * *''),
     (''Every 15 min'', ''*/15 * * * *''),
     (''Every hour'', ''0 * * * *''),
     (''Daily midnight'', ''0 0 * * *''),
     (''Mon 9am'', ''0 9 * * 1'')]"

definition form_defaults :: props where
  "form_defaults =
    [(''name'', JStr []), (''description'', JStr []), (''cron_expression'', JStr ''0 * * * *''),
     (''url'', JStr []), (''method'', JStr ''GET''), (''body'', JStr []), (''timezone'', JStr ''UTC''),
     (''timeout_seconds'', JNum 30), (''concurrency_policy'', JStr ''Allow'')]"

definition form_init :: "props \<Rightarrow> props" where
  "form_init given = spread form_defaults given"

section \<open>Handlers\<close>

text \<open>
  The events of the controls: an edit or choice for one property, a preset, submit, cancel.  A
  step also gets \<open>e.target.value\<close>, which only an edit reads.
\<close>

datatype form_event =
    Change string
  | Preset string
  | Submit
  | Cancel

datatype form_action =
    OnSubmit props
  | OnCancel
  | Leave effect

definition set_field :: "string \<Rightarrow> string \<Rightarrow> props \<Rightarrow> props" where
  "set_field key value f = put f key (JStr value)"

fun form_step :: "bool \<Rightarrow> form_event \<Rightarrow> string \<Rightarrow> props \<Rightarrow> props \<times> form_action list" where
  "form_step hasOnCancel (Change key) v f = (set_field key v f, [])"
| "form_step hasOnCancel (Preset value) v f = (put f ''cron_expression'' (JStr value), [])"
| "form_step hasOnCancel Submit v f = (f, [OnSubmit f])"
| "form_step hasOnCancel Cancel v f = (f, [if hasOnCancel then OnCancel else Leave GoBack])"

section \<open>Markup\<close>

definition text_input :: "bool \<Rightarrow> string \<Rightarrow> string \<Rightarrow> props \<Rightarrow> form_event node" where
  "text_input required key placeholder form =
     Elem ''input''
       [Flag ''required'' required, Attr ''value'' (input_value (field form key)),
        On ''change'' (Change key), Attr ''placeholder'' placeholder] []"

definition policy_hint :: "props \<Rightarrow> string option" where
  "policy_hint form =
     map_option policy_desc
       (find (\<lambda>p. JStr (policy_value p) = field form ''concurrency_policy'') CONCURRENCY_POLICIES)"

definition shows_body :: "props \<Rightarrow> bool" where
  "shows_body form \<longleftrightarrow> field form ''method'' \<in> {JStr ''POST'', JStr ''PUT'', JStr ''PATCH''}"

definition body_placeholder :: string where
  "body_placeholder = ''{'' @ [dquote] @ ''key'' @ [dquote] @ '': '' @ [dquote] @ ''value'' @ [dquote] @ ''}''"

definition JobForm :: "props \<Rightarrow> bool \<Rightarrow> form_event node list" where
  "JobForm form isLoading =
    [Elem ''form'' [On ''submit'' Submit]
      [Elem ''div'' []
        ([Elem ''div'' [] [Elem ''label'' [] [Text ''Job Name *''],
            text_input True ''name'' ''My Cron Job'' form],
          Elem ''div'' [] [Elem ''label'' [] [Text ''Description''],
            text_input False ''description'' ''Optional description'' form],
          Elem ''div'' []
            ([Elem ''label'' [] [Text ''Cron Expression *''],
              text_input True ''cron_expression'' ''0 * * * *'' form,
              Elem ''div'' []
                (map (\<lambda>(label, value).
                   Elem ''button'' [Attr ''type'' ''button'', On ''click'' (Preset value)] [Text label]) PRESETS)]
             @ CronHelper (js_text (field form ''cron_expression''))),
          Elem ''div'' [] [Elem ''label'' [] [Text ''Timezone''],
            text_input False ''timezone'' ''UTC'' form],
          Elem ''div'' []
            [Elem ''label'' [] [Text ''URL *''],
             Elem ''div'' []
              [Elem ''select'' [Attr ''value'' (input_value (field form ''method'')), On ''change'' (Change ''method'')]
                 (map (\<lambda>m. Elem ''option'' [] [Text m]) METHODS),
               Elem ''input''
                 [Flag ''required'' True, Attr ''type'' ''url'', Attr ''value'' (input_value (field form ''url'')),
                  On ''change'' (Change ''url''), Attr ''placeholder'' ''https://example.com/webhook''] []]],
          Elem ''div'' []
            [Elem ''label'' [] [Text ''Timeout (seconds)''],
             Elem ''input''
               [Attr ''type'' ''number'', NumAttr ''min'' 1, NumAttr ''max'' 300,
                Attr ''value'' (input_value (field form ''timeout_seconds'')),
                On ''change'' (Change ''timeout_seconds'')] []],
          Elem ''div'' []
            [Elem ''label'' [] [Text ''Concurrency Policy''],
             Elem ''select''
               [Attr ''value'' (input_value (field form ''concurrency_policy'')),
                On ''change'' (Change ''concurrency_policy'')]
               (map (\<lambda>p. Elem ''option'' [Attr ''option-value'' (policy_value p)] [Text (policy_label p)])
                  CONCURRENCY_POLICIES),
             Elem ''p'' [] (case policy_hint form of None \<Rightarrow> [] | Some d \<Rightarrow> [Text d])]]
         @ show_if (shows_body form)
             [Elem ''div'' []
               [Elem ''label'' [] [Text ''Request Body''],
                Elem ''textarea''
                  [Attr ''value'' (input_value (field form ''body'')), On ''change'' (Change ''body''),
                   Attr ''placeholder'' body_placeholder] []]]),
       Elem ''div'' []
        [Elem ''button'' [Attr ''type'' ''submit'', Flag ''disabled'' isLoading]
           [Text (if isLoading then ''Saving'' @ ellipsis else ''Save Job'')],
         Elem ''button'' [Attr ''type'' ''button'', On ''click'' Cancel] [Text ''Cancel'']]]]"

section \<open>Facts\<close>

lemma CronHelper_inert [simp]:
  "events (CronHelper e) = []" "controls (CronHelper e) = []" "links (CronHelper e) = []"
  by (simp_all add: CronHelper_def ui_eval split: option.split)

lemma distinct_form_defaults: "distinct (map fst form_defaults)"
  by (simp add: form_defaults_def)

lemma form_init_default: "k \<notin> fst ` set given \<Longrightarrow> field (form_init given) k = field form_defaults k"
  by (simp add: form_init_def field_spread_left)

lemma form_init_given:
  "distinct (map fst given) \<Longrightarrow> k \<in> fst ` set given \<Longrightarrow> field (form_init given) k = field given k"
  by (simp add: form_init_def field_spread_right)

text \<open>The property an event writes, with the value it gets.\<close>

fun writes :: "form_event \<Rightarrow> string \<Rightarrow> (string \<times> string) option" where
  "writes (Change key) v = Some (key, v)"
| "writes (Preset value) v = Some (''cron_expression'', value)"
| "writes Submit v = None"
| "writes Cancel v = None"

definition run_form :: "bool \<Rightarrow> (form_event \<times> string) list \<Rightarrow> props \<Rightarrow> props" where
  "run_form c es f = foldl (\<lambda>g (ev, v). fst (form_step c ev v g)) f es"

text \<open>The value last written to a property by a run of events.\<close>

definition last_write :: "(form_event \<times> string) list \<Rightarrow> string \<rightharpoonup> string" where
  "last_write es = map_of (rev (List.map_filter (\<lambda>(ev, v). writes ev v) es))"

lemma step_field:
  "field (fst (form_step c ev v f)) k =
     (case writes ev v of Some (k', w) \<Rightarrow> if k' = k then JStr w else field f k | None \<Rightarrow> field f k)"
  by (cases ev) (auto simp: set_field_def)

lemma run_form_snoc [simp]:
  "run_form c (es @ [(ev, v)]) f = fst (form_step c ev v (run_form c es f))"
  by (simp add: run_form_def)

lemma last_write_snoc:
  "last_write (es @ [(ev, v)]) k =
     (case writes ev v of Some (k', w) \<Rightarrow> if k' = k then Some w else last_write es k | None \<Rightarrow> last_write es k)"
  by (simp add: last_write_def List.map_filter_def split: option.split)

lemma run_form_field:
  "field (run_form c es f) k =
     (case last_write es k of Some w \<Rightarrow> JStr w | None \<Rightarrow> field f k)"
proof (induction es rule: rev_induct)
  case Nil
  then show ?case by (simp add: run_form_def last_write_def List.map_filter_def)
next
  case (snoc p es)
  then show ?case
    by (cases p) (auto simp: step_field last_write_snoc split: option.splits)
qed

lemma keys_step: "distinct (map fst f) \<Longrightarrow> distinct (map fst (fst (form_step c ev v f)))"
  by (cases ev) (simp_all add: set_field_def distinct_put)

lemma keys_run: "distinct (map fst f) \<Longrightarrow> distinct (map fst (run_form c es f))"
proof (induction es rule: rev_induct)
  case (snoc p es)
  then show ?case by (cases p) (simp add: keys_step)
qed (simp add: run_form_def)

text \<open>The events a user can raise on the form, and what they can write.\<close>

lemma events_presets [simp]:
  "events (map (\<lambda>(label, value). Elem ''button'' [Attr ''type'' ''button'', On ''click'' (Preset value)]
     [Text label]) ps) = map (Preset \<circ> snd) ps"
  by (induction ps) (auto simp: ui_eval)

lemma events_options [simp]:
  "events (map (\<lambda>m. Elem ''option'' [] [Text m]) ms) = []"
  "events (map (\<lambda>p. Elem ''option'' [Attr ''option-value'' (f p)] [Text (g p)]) ps) = []"
  by (induction ms, simp_all add: ui_eval) (induction ps, simp_all add: ui_eval)

lemma events_JobForm:
  "events (JobForm form isLoading) =
     Submit # [Change ''name'', Change ''description'', Change ''cron_expression'']
     @ map (Preset \<circ> snd) PRESETS
     @ [Change ''timezone'', Change ''method'', Change ''url'', Change ''timeout_seconds'',
        Change ''concurrency_policy'']
     @ (if shows_body form then [Change ''body''] else []) @ [Cancel]"
  by (simp add: JobForm_def text_input_def ui_eval split: option.split)

lemma change_event:
  assumes "Change k \<in> set (events (JobForm form l))"
  shows "k \<in> set (map fst form_defaults)"
proof (cases "k = ''body''")
  case True
  then show ?thesis by (simp add: form_defaults_def)
next
  case False
  then have "k = ''name'' \<or> k = ''description'' \<or> k = ''cron_expression'' \<or> k = ''timezone'' \<or> k = ''method'' \<or>
      k = ''url'' \<or> k = ''timeout_seconds'' \<or> k = ''concurrency_policy''"
    using assms unfolding events_JobForm by (cases "shows_body form") (simp_all add: image_iff)
  then show ?thesis
    by (elim disjE) (simp_all add: form_defaults_def)
qed

lemma form_event_writes:
  assumes "ev \<in> set (events (JobForm form l))" and "writes ev v = Some (k, w)"
  shows "k \<in> fst ` set form_defaults"
proof (cases ev)
  case (Change k')
  then show ?thesis using assms change_event by simp
next
  case (Preset p)
  then show ?thesis using assms(2) by (auto simp: form_defaults_def)
qed (use assms(2) in simp_all)

text \<open>A run of events the form offered, each on some state of the form.\<close>

definition offered_run :: "(form_event \<times> string) list \<Rightarrow> bool" where
  "offered_run es \<longleftrightarrow> list_all (\<lambda>(ev, v). \<exists>form l. ev \<in> set (events (JobForm form l))) es"

lemma run_form_keys:
  assumes "offered_run es" and "fst ` set form_defaults \<subseteq> fst ` set f"
  shows "map fst (run_form c es f) = map fst f"
  using assms(1)
proof (induction es rule: rev_induct)
  case (snoc p es)
  obtain ev v where p: "p = (ev, v)" by (cases p)
  from snoc have ih: "map fst (run_form c es f) = map fst f" by (simp add: offered_run_def)
  obtain form l where "ev \<in> set (events (JobForm form l))"
    using snoc.prems p by (auto simp: offered_run_def)
  then have w: "writes ev v = Some (k, w) \<Longrightarrow> k \<in> fst ` set (run_form c es f)" for k w
    using form_event_writes [of ev form l v k w] assms(2) ih by (metis list.set_map subsetD)
  show ?case
    using w ih by (cases ev) (simp_all add: p set_field_def put_keys_known)
qed (simp add: run_form_def)

section \<open>Properties\<close>

text \<open>C39: Saving a job form hands on exactly what the page gave it, overridden by the last edit of
  each property: after any run of edits, presets, submissions and cancels, the object passed to
  \<open>onSubmit\<close> has the last value written to a property, or the value of the
  \<open>initial\<close> prop where nothing was written, or the default where the page gave none. Properties
  the form has no control for (id, headers, owner) are passed through untouched.\<close>

theorem form_submission:
  assumes "distinct (map fst given)"
    and "snd (form_step c Submit v (run_form c es (form_init given))) = [OnSubmit payload]"
  shows "distinct (map fst payload) \<and> field payload k =
    (case last_write es k of
       Some w \<Rightarrow> JStr w
     | None \<Rightarrow> if k \<in> fst ` set given then field given k else field form_defaults k)"
proof
  have p: "payload = run_form c es (form_init given)" using assms(2) by simp
  show "field payload k = (case last_write es k of Some w \<Rightarrow> JStr w
     | None \<Rightarrow> if k \<in> fst ` set given then field given k else field form_defaults k)"
    unfolding p run_form_field
    using form_init_given [OF assms(1)] form_init_default [of k given]
    by (simp split: option.split)
  show "distinct (map fst payload)"
    unfolding p form_init_def
    by (intro keys_run distinct_spread distinct_form_defaults)
qed

theorem form_submission_witness:
  "let given = [(''name'', JStr ''n''), (''url'', JStr ''u''), (''id'', JStr ''7'')];
       es = [(Change ''name'', ''nightly''), (Preset ''0 0 * * *'', [])];
       payload = run_form False es (form_init given)
   in snd (form_step False Submit [] payload) = [OnSubmit payload] \<and>
      field payload ''name'' = JStr ''nightly'' \<and> field payload ''cron_expression'' = JStr ''0 0 * * *'' \<and>
      field payload ''id'' = JStr ''7'' \<and> field payload ''method'' = JStr ''GET''"
proof -
  let ?given = "[(''name'', JStr ''n''), (''url'', JStr ''u''), (''id'', JStr ''7'')]"
  let ?es = "[(Change ''name'', ''nightly''), (Preset ''0 0 * * *'', [])]"
  let ?payload = "run_form False ?es (form_init ?given)"
  have "snd (form_step False Submit [] ?payload) = [OnSubmit ?payload]" by simp
  note this form_submission [OF _ this, of "''name''"]
    form_submission [OF _ this, of "''cron_expression''"]
    form_submission [OF _ this, of "''id''"] form_submission [OF _ this, of "''method''"]
  then show ?thesis
    by (simp add: Let_def last_write_def List.map_filter_def form_defaults_def)
qed

text \<open>The controls of the job form are wired to the properties they show: each input shows
  the current value of exactly the property its edits write, every property of the defaults has one
  control, and the body input is there when the method is POST, PUT or PATCH only.\<close>

theorem form_controls:
  "controls (JobForm form isLoading) =
     map (\<lambda>k. (Change k, input_value (field form k)))
       ([''name'', ''description'', ''cron_expression'', ''timezone'', ''method'', ''url'',
         ''timeout_seconds'', ''concurrency_policy'']
        @ (if field form ''method'' \<in> {JStr ''POST'', JStr ''PUT'', JStr ''PATCH''} then [''body''] else []))"
proof -
  have presets: "controls (map (\<lambda>(label, value). Elem ''button'' [Attr ''type'' ''button'', On ''click'' (Preset value)]
      [Text label]) ps) = []" for ps
    by (induction ps) (auto simp: ui_eval)
  have options: "controls (map (\<lambda>m. Elem ''option'' [] [Text m]) ms) = []" for ms
    by (induction ms) (auto simp: ui_eval)
  have policies: "controls (map (\<lambda>p. Elem ''option'' [Attr ''option-value'' (policy_value p)]
      [Text (policy_label p)]) ps) = []" for ps
    by (induction ps) (auto simp: ui_eval)
  have hint: "controls (case policy_hint form of None \<Rightarrow> [] | Some d \<Rightarrow> [Text d]) = []"
    by (cases "policy_hint form") simp_all
  show ?thesis
    by (simp add: JobForm_def text_input_def ui_eval presets options policies hint shows_body_def)
qed

end
