(* ===== verification/JobPages.thy ===== *)
theory JobPages
  imports JobForm
begin

text \<open>
  The pages around a job: \<open>JobCard.jsx\<close>, \<open>Jobs.jsx\<close>, \<open>NewJob.jsx\<close>, \<open>EditJob.jsx\<close> and
  \<open>JobDetail.jsx\<close>.  A click handler is a function to the API calls it starts (the mutation
  functions) and \<open>onSuccess\<close> to the effects that follow; the status of queries and mutations
  (data, \<open>isLoading\<close>, \<open>isPending\<close>, error) belongs to the query library and is an
  argument of the views.  \<open>ask\<close> is \<open>window.confirm\<close>, from the question to the user's answer.
\<close>

section \<open>The actions on a job\<close>

datatype job_event = Run | Pause | Resume | Remove

definition delete_question :: "props \<Rightarrow> string" where
  "delete_question job = ''Delete '' @ [dquote] @ js_text (field job ''name'') @ [dquote] @ ''?''"

definition job_id :: "props \<Rightarrow> string" where
  "job_id job = js_text (field job ''id'')"

definition job_link :: "string \<Rightarrow> string" where
  "job_link i = ''/jobs/'' @ i"

definition edit_link :: "string \<Rightarrow> string" where
  "edit_link i = ''/jobs/'' @ i @ ''/edit''"

section \<open>JobCard.jsx\<close>

fun JobCard_click :: "(string \<Rightarrow> bool) \<Rightarrow> props \<Rightarrow> job_event \<Rightarrow> call list" where
  "JobCard_click ask job Run = [triggerJob (job_id job)]"
| "JobCard_click ask job Pause = [pauseJob (job_id job)]"
| "JobCard_click ask job Resume = [resumeJob (job_id job)]"
| "JobCard_click ask job Remove = (if ask (delete_question job) then [deleteJob (job_id job)] else [])"

definition JobCard_onSuccess :: "job_event \<Rightarrow> effect list" where
  "JobCard_onSuccess ev = [Invalidate [''jobs'']]"

definition JobCard :: "props \<Rightarrow> job_event node list" where
  "JobCard job =
    [Elem ''div'' []
      [Elem ''div'' []
        [Elem ''div'' []
          (Elem ''Link'' [Attr ''to'' (job_link (job_id job))] (shown (field job ''name''))
           # and_then (field job ''description'') [Elem ''p'' [] (shown (field job ''description''))]),
         StatusBadge (field job ''status'')],
       Elem ''div'' [] [Elem ''code'' [] (shown (field job ''cron_expression''))],
       Elem ''a'' [Attr ''href'' (js_text (field job ''url'')), Attr ''target'' ''_blank'', Attr ''rel'' ''noreferrer'']
         [Elem ''span'' [] (shown (field job ''url''))],
       Elem ''div'' []
        (Elem ''button'' [On ''click'' Run] [Text ''Run'']
         # show_if (field job ''status'' = JStr ''active'') [Elem ''button'' [On ''click'' Pause] [Text ''Pause'']]
         @ show_if (field job ''status'' = JStr ''paused'') [Elem ''button'' [On ''click'' Resume] [Text ''Resume'']]
         @ [Elem ''Link'' [Attr ''to'' (edit_link (job_id job))] [Text ''Edit''],
            Elem ''button'' [On ''click'' Remove] []])]]"

section \<open>Jobs.jsx\<close>

text \<open>\<open>toLowerCase\<close> and \<open>includes\<close> are methods of strings: on anything else
  the render throws.\<close>

fun js_lower :: "jsval \<Rightarrow> string option" where
  "js_lower (JStr s) = Some (to_lower s)"
| "js_lower _ = None"

definition job_matches :: "string \<Rightarrow> props \<Rightarrow> bool option" where
  "job_matches query j =
     (case js_lower (field j ''name'') of
        None \<Rightarrow> None
      | Some n \<Rightarrow>
          if str_includes n (to_lower query) then Some True
          else (case js_lower (field j ''url'') of
                  None \<Rightarrow> None
                | Some u \<Rightarrow> Some (str_includes u (to_lower query))))"

fun filter_rows :: "('a \<Rightarrow> bool option) \<Rightarrow> 'a list \<Rightarrow> 'a list option" where
  "filter_rows p [] = Some []"
| "filter_rows p (x # xs) =
     (case p x of
        None \<Rightarrow> None
      | Some b \<Rightarrow> (case filter_rows p xs of
          None \<Rightarrow> None
        | Some ys \<Rightarrow> Some (if b then x # ys else ys)))"

definition filtered :: "string \<Rightarrow> props list \<Rightarrow> props list option" where
  "filtered query jobs = filter_rows (job_matches query) jobs"

datatype jobs_event =
    Search
  | OnCard props job_event

text \<open>The one piece of state is the search text; the cards are handled by \<open>JobCard\<close>.\<close>

fun Jobs_step :: "jobs_event \<Rightarrow> string \<Rightarrow> string \<Rightarrow> string" where
  "Jobs_step Search v query = v"
| "Jobs_step (OnCard job ev) v query = query"

definition Jobs :: "string \<Rightarrow> props list option \<Rightarrow> bool \<Rightarrow> jobs_event node list option" where
  "Jobs query data isLoading =
     (case filtered query (rows_or_empty data) of
        None \<Rightarrow> None
      | Some shown_jobs \<Rightarrow> Some
          [Elem ''div'' []
            [Elem ''div'' []
              [Elem ''h1'' [] [Text ''Jobs''],
               Elem ''Link'' [Attr ''to'' ''/jobs/new''] [Text ''New Job'']],
             Elem ''div'' []
              [Elem ''input''
                 [Attr ''placeholder'' (''Search by name or URL'' @ ellipsis), Attr ''value'' query, On ''change'' Search] []],
             (if isLoading then Elem ''div'' [] (replicate 3 (Elem ''div'' [] []))
              else if shown_jobs \<noteq> [] then
                Elem ''div'' [] (concat (map (\<lambda>job. map (map_event (OnCard job)) (JobCard job)) shown_jobs))
              else
                Elem ''div'' []
                  (Elem ''p'' [] [Text (if query \<noteq> [] then ''No jobs match your search.'' else ''No jobs yet.'')]
                   # show_if (query = [])
                       [Elem ''Link'' [Attr ''to'' ''/jobs/new''] [Text ''Create your first job'']]))]])"

definition Jobs_queries :: "(query_key \<times> call) list" where
  "Jobs_queries = [([''jobs''], getJobs)]"

section \<open>NewJob.jsx and EditJob.jsx\<close>

text \<open>What a click on the embedded form starts: a submission calls the mutation with the form.\<close>

definition NewJob_onSubmit :: "props \<Rightarrow> call" where
  "NewJob_onSubmit form = createJob (JObj form)"

definition NewJob_onSuccess :: "jsval \<Rightarrow> effect list" where
  "NewJob_onSuccess job =
     [Invalidate [''jobs''], Navigate (job_link (js_text (oget job ''id''))) False]"

definition NewJob :: "props \<Rightarrow> bool \<Rightarrow> failure option \<Rightarrow> form_event node list" where
  "NewJob form isPending error =
    [Elem ''div'' []
      [Elem ''h1'' [] [Text ''New Job''],
       Elem ''div'' []
        (JobForm form isPending
         @ (case error of
              None \<Rightarrow> []
            | Some err \<Rightarrow> [Elem ''p'' [] (shown (failure_text_nullish err ''Failed to create job''))]))]]"

definition EditJob_onSubmit :: "string \<Rightarrow> props \<Rightarrow> call" where
  "EditJob_onSubmit i form = updateJob i (JObj form)"

definition EditJob_onSuccess :: "string \<Rightarrow> effect list" where
  "EditJob_onSuccess i = [Invalidate [''jobs''], Navigate (job_link i) False]"

definition EditJob_queries :: "string \<Rightarrow> (query_key \<times> call) list" where
  "EditJob_queries i = [([''jobs'', i], getJob i)]"

text \<open>The form is mounted once the job is there, with the job as its initial object.\<close>

definition EditJob_mount :: "props option \<Rightarrow> bool \<Rightarrow> props option" where
  "EditJob_mount job isLoading =
     (if isLoading then None else map_option form_init job)"

definition EditJob :: "props option \<Rightarrow> bool \<Rightarrow> props \<Rightarrow> bool \<Rightarrow> failure option \<Rightarrow> form_event node list" where
  "EditJob job isLoading form isPending error =
     (if isLoading then [Elem ''div'' [] []]
      else if job = None then [Elem ''p'' [] [Text ''Job not found.'']]
      else
        [Elem ''div'' []
          [Elem ''h1'' [] [Text ''Edit Job''],
           Elem ''div'' []
            (JobForm form isPending
             @ (case error of
                  None \<Rightarrow> []
                | Some err \<Rightarrow> [Elem ''p'' [] (shown (failure_text_nullish err ''Failed to update job''))]))]])"

section \<open>JobDetail.jsx\<close>

fun JobDetail_click :: "(string \<Rightarrow> bool) \<Rightarrow> string \<Rightarrow> props \<Rightarrow> job_event \<Rightarrow> call list" where
  "JobDetail_click ask i job Run = [triggerJob i]"
| "JobDetail_click ask i job Pause = [pauseJob i]"
| "JobDetail_click ask i job Resume = [resumeJob i]"
| "JobDetail_click ask i job Remove = (if ask (delete_question job) then [deleteJob i] else [])"

fun JobDetail_onSuccess :: "string \<Rightarrow> job_event \<Rightarrow> effect list" where
  "JobDetail_onSuccess i Remove = [Navigate ''/jobs'' False]"
| "JobDetail_onSuccess i _ = [Invalidate [''jobs''], Invalidate [''executions'', i]]"

text \<open>The two queries of the page; the second is enabled when there is an id.\<close>

definition JobDetail_queries :: "string \<Rightarrow> (query_key \<times> call) list" where
  "JobDetail_queries i =
     ([''jobs'', i], getJob i)
     # (if i \<noteq> [] then [([''executions'', i], getExecutions (Some i) None)] else [])"

definition policy_colours :: "jsval \<Rightarrow> string" where
  "policy_colours p =
     (if p = JStr ''Forbid'' then ''bg-red-100 text-red-700''
      else if p = JStr ''Replace'' then ''bg-amber-100 text-amber-700''
      else ''bg-green-100 text-green-700'')"

definition job_header :: "string \<Rightarrow> props \<Rightarrow> job_event node" where
  "job_header i job =
     Elem ''div'' []
      [Elem ''Link'' [Attr ''to'' ''/jobs''] [],
       Elem ''div'' []
        (Elem ''div'' [] [Elem ''h1'' [] (shown (field job ''name'')), StatusBadge (field job ''status'')]
         # and_then (field job ''description'') [Elem ''p'' [] (shown (field job ''description''))]),
       Elem ''div'' []
        (Elem ''button'' [On ''click'' Run] [Text ''Run Now'']
         # show_if (field job ''status'' = JStr ''active'') [Elem ''button'' [On ''click'' Pause] [Text ''Pause'']]
         @ show_if (field job ''status'' = JStr ''paused'') [Elem ''button'' [On ''click'' Resume] [Text ''Resume'']]
         @ [Elem ''Link'' [Attr ''to'' (edit_link i)] [Text ''Edit''],
            Elem ''button'' [On ''click'' Remove] []])]"

definition schedule_card :: "dates \<Rightarrow> props \<Rightarrow> 'e node" where
  "schedule_card fmt job =
     Elem ''div'' []
      ([Elem ''h3'' [] [Text ''Schedule''],
        Elem ''div'' [] [Elem ''p'' [] [Text ''Expression''], Elem ''code'' [] (shown (field job ''cron_expression''))],
        Elem ''div'' [] [Elem ''p'' [] [Text ''Timezone''], Elem ''p'' [] (shown (field job ''timezone''))]]
       @ and_then (field job ''last_run_at'')
           [Elem ''div'' [] [Elem ''p'' [] [Text ''Last Run''],
              Elem ''p'' [] [Text (full_date fmt (field job ''last_run_at''))]]]
       @ [Elem ''div'' []
           [Elem ''p'' [] [Text ''Concurrency''],
            Elem ''span''
              [Attr ''className'' (''inline-block text-xs font-medium px-2 py-0.5 rounded-full ''
                 @ policy_colours (field job ''concurrency_policy''))]
              (shown (js_or (field job ''concurrency_policy'') (JStr ''Allow'')))]])"

definition request_card :: "props \<Rightarrow> 'e node" where
  "request_card job =
     Elem ''div'' []
      ([Elem ''h3'' [] [Text ''Request''],
        Elem ''div'' []
         [Elem ''p'' [] [Text ''Endpoint''],
          Elem ''div'' []
           [Elem ''span'' [] (shown (field job ''method'')),
            Elem ''a'' [Attr ''href'' (js_text (field job ''url'')), Attr ''target'' ''_blank'', Attr ''rel'' ''noreferrer'']
              (shown (field job ''url''))]],
        Elem ''div'' [] [Elem ''p'' [] [Text ''Timeout''],
          Elem ''p'' [] (shown (field job ''timeout_seconds'') @ [Text ''s''])]]
       @ and_then (field job ''body'')
           [Elem ''div'' [] [Elem ''p'' [] [Text ''Body''], Elem ''pre'' [] (shown (field job ''body''))]])"

definition JobDetail ::
    "dates \<Rightarrow> string \<Rightarrow> props option \<Rightarrow> bool \<Rightarrow> props list option \<Rightarrow> job_event node list" where
  "JobDetail fmt i data isLoading executions =
     (if isLoading then [Elem ''div'' [] []]
      else case data of
        None \<Rightarrow> [Elem ''p'' [] [Text ''Job not found.'']]
      | Some job \<Rightarrow>
          [Elem ''div'' []
            [job_header i job,
             Elem ''div'' [] [schedule_card fmt job, request_card job],
             Elem ''div'' []
              (Elem ''h3'' [] [Text ''Execution History''] # ExecutionTable fmt (rows_or_empty executions))]])"

section \<open>Facts\<close>

text \<open>The buttons both the card and the page of a job offer.\<close>

definition offered :: "jsval \<Rightarrow> job_event list" where
  "offered status = Run # (if status = JStr ''active'' then [Pause] else [])
     @ (if status = JStr ''paused'' then [Resume] else []) @ [Remove]"

lemma events_JobCard: "events (JobCard job) = offered (field job ''status'')"
  by (simp add: JobCard_def ui_eval offered_def)

lemma links_JobCard: "links (JobCard job) = [job_link (job_id job), edit_link (job_id job)]"
  by (simp add: JobCard_def ui_eval)

lemma events_JobDetail:
  "events (JobDetail fmt i (Some job) False es) = offered (field job ''status'')"
  by (simp add: JobDetail_def job_header_def schedule_card_def request_card_def ui_eval offered_def)

lemma links_JobDetail:
  "links (JobDetail fmt i (Some job) False es) = [''/jobs'', edit_link i]"
  by (simp add: JobDetail_def job_header_def schedule_card_def request_card_def ui_eval)

text \<open>Filtering rows that have a name and a URL.\<close>

lemma job_matches_strings:
  assumes "field j ''name'' = JStr n" and "field j ''url'' = JStr u"
  shows "job_matches query j =
    Some (sublist (to_lower query) (to_lower n) \<or> sublist (to_lower query) (to_lower u))"
  using assms by (simp add: job_matches_def str_includes_iff_sublist)

lemma filter_rows_some:
  "(\<And>x. x \<in> set xs \<Longrightarrow> p x = Some (q x)) \<Longrightarrow> filter_rows p xs = Some (filter q xs)"
  by (induction xs) simp_all

text \<open>The text of a property that is a string.\<close>

definition text_of :: "props \<Rightarrow> string \<Rightarrow> string" where
  "text_of j k = (case field j k of JStr s \<Rightarrow> s | _ \<Rightarrow> [])"

definition has_text :: "props \<Rightarrow> string \<Rightarrow> bool" where
  "has_text j k \<longleftrightarrow> (\<exists>s. field j k = JStr s)"

lemma has_text_field: "has_text j k \<Longrightarrow> field j k = JStr (text_of j k)"
  by (auto simp: has_text_def text_of_def)

lemma filtered_strings:
  assumes "\<forall>j \<in> set jobs. has_text j ''name'' \<and> has_text j ''url''"
  shows "filtered query jobs = Some (filter (\<lambda>j.
    sublist (to_lower query) (to_lower (text_of j ''name'')) \<or>
    sublist (to_lower query) (to_lower (text_of j ''url''))) jobs)"
  unfolding filtered_def
  by (rule filter_rows_some) (use assms in \<open>simp add: job_matches_strings has_text_field\<close>)

lemma events_cards:
  "events (concat (map (\<lambda>job. map (map_event (OnCard job)) (JobCard job)) jobs)) =
     concat (map (\<lambda>job. map (OnCard job) (offered (field job ''status''))) jobs)"
  by (induction jobs) (simp_all add: events_JobCard)

lemma events_Jobs:
  assumes "filtered query (rows_or_empty data) = Some js" and "Jobs query data False = Some view"
  shows "events view = Search # concat (map (\<lambda>j. map (OnCard j) (offered (field j ''status''))) js)"
  using assms by (auto simp: Jobs_def ui_eval events_cards)

lemma jobs_view_exists:
  "\<forall>j \<in> set jobs. has_text j ''name'' \<and> has_text j ''url'' \<Longrightarrow> \<exists>view. Jobs query (Some jobs) b = Some view"
  using filtered_strings [of jobs query] by (simp add: Jobs_def rows_or_empty_def)

section \<open>Properties\<close>

text \<open>The search of the job list.  When every job has a name and a URL, the page never fails to
  render, and it offers the actions of exactly those jobs whose name or URL contains the search
  text, upper and lower case not being told apart, in the order the server sent them; the empty
  search offers all jobs.\<close>

theorem jobs_search:
  assumes "\<forall>j \<in> set jobs. has_text j ''name'' \<and> has_text j ''url''"
  shows "\<exists>view. Jobs query (Some jobs) False = Some view \<and>
    events view = Search # concat (map (\<lambda>j. map (OnCard j) (offered (field j ''status'')))
      (filter (\<lambda>j. query = [] \<or> sublist (to_lower query) (to_lower (text_of j ''name'')) \<or>
         sublist (to_lower query) (to_lower (text_of j ''url''))) jobs))"
proof -
  let ?P = "\<lambda>j. sublist (to_lower query) (to_lower (text_of j ''name'')) \<or>
    sublist (to_lower query) (to_lower (text_of j ''url''))"
  have f: "filtered query (rows_or_empty (Some jobs)) = Some (filter ?P jobs)"
    using filtered_strings [OF assms] by (simp add: rows_or_empty_def)
  then obtain view where v: "Jobs query (Some jobs) False = Some view"
    by (simp add: Jobs_def)
  moreover have "(\<lambda>j. query = [] \<or> ?P j) = ?P" by auto
  ultimately show ?thesis using events_Jobs [OF f v] by simp
qed

theorem jobs_search_witness:
  "let a = [(''id'', JStr ''1''), (''name'', JStr ''Nightly''), (''url'', JStr ''http://x''), (''status'', JStr ''active'')];
       b = [(''id'', JStr ''2''), (''name'', JStr ''Ping''), (''url'', JStr ''http://y''), (''status'', JStr ''paused'')]
   in \<exists>view. Jobs ''NIGHT'' (Some [a, b]) False = Some view \<and>
        events view = [Search, OnCard a Run, OnCard a Pause, OnCard a Remove]"
proof -
  let ?a = "[(''id'', JStr ''1''), (''name'', JStr ''Nightly''), (''url'', JStr ''http://x''), (''status'', JStr ''active'')]"
  let ?b = "[(''id'', JStr ''2''), (''name'', JStr ''Ping''), (''url'', JStr ''http://y''), (''status'', JStr ''paused'')]"
  have "\<forall>j \<in> set [?a, ?b]. has_text j ''name'' \<and> has_text j ''url''"
    by (simp add: has_text_def)
  moreover have "filter (\<lambda>j. ''NIGHT'' = [] \<or> sublist (to_lower ''NIGHT'') (to_lower (text_of j ''name'')) \<or>
      sublist (to_lower ''NIGHT'') (to_lower (text_of j ''url''))) [?a, ?b] = [?a]"
    unfolding str_includes_iff_sublist [symmetric] by code_simp
  ultimately show ?thesis
    using jobs_search [of "[?a, ?b]" "''NIGHT''"] by (simp add: Let_def offered_def del: filter.simps)
qed

text \<open>What an action on a job sends and refreshes.  From the card and from the job's page each
  action calls its own endpoint for this job, deletion only after the user confirmed; on success the
  job list is refreshed, except that deleting from the job's page only goes back to the list, whose
  cached copy still shows the job.\<close>

theorem job_actions:
  "map (\<lambda>c. (rq_method (call_request c), rq_url (call_request c))) (JobCard_click ask job ev) =
     (case ev of
        Run \<Rightarrow> [(POST, ''/api/jobs/'' @ job_id job @ ''/trigger'')]
      | Pause \<Rightarrow> [(POST, ''/api/jobs/'' @ job_id job @ ''/pause'')]
      | Resume \<Rightarrow> [(POST, ''/api/jobs/'' @ job_id job @ ''/resume'')]
      | Remove \<Rightarrow> if ask (delete_question job) then [(DELETE, ''/api/jobs/'' @ job_id job)] else []) \<and>
   JobDetail_click ask (job_id job) job ev = JobCard_click ask job ev \<and>
   refreshes (JobCard_onSuccess ev) [''jobs''] \<and> refreshes (JobCard_onSuccess ev) [''jobs'', i] \<and>
   (refreshes (JobDetail_onSuccess i ev) [''jobs''] \<longleftrightarrow> ev \<noteq> Remove)"
  by (cases ev) (simp_all add: job_calls call_defs JobCard_onSuccess_def)

end
