(* ===== verification/Dashboard.thy ===== *)
theory Dashboard
  imports JobPages "HOL-Library.Signed_Division"
begin

text \<open>
  \<open>Dashboard.jsx\<close>: the statistics cards, the banner of running executions with its elapsed
  timer, and the lists of recent jobs and executions.  Times are milliseconds since the epoch;
  \<open>elapsed fmt e\<close> is the seconds the timer of execution \<open>e\<close> last measured.
\<close>

section \<open>StatCard and ElapsedTimer\<close>

definition StatCard :: "string \<Rightarrow> nat \<Rightarrow> string \<Rightarrow> 'e node" where
  "StatCard label value cls =
     Elem ''div'' []
      [Elem ''div'' []
        [Elem ''div'' [Attr ''className'' (''p-2.5 rounded-lg '' @ cls)] [],
         Elem ''div'' [] [Elem ''p'' [] [Text (nat_string value)], Elem ''p'' [] [Text label]]]]"

text \<open>The interval callback; the state is 0 until it first fires.\<close>

definition elapsed_tick :: "int \<Rightarrow> int \<Rightarrow> int" where
  "elapsed_tick start now = (now - start) div 1000"

text \<open>\<open>Math.floor\<close> rounds down, \<open>%\<close> takes the sign of its left operand.\<close>

definition ElapsedTimer :: "int \<Rightarrow> 'e node" where
  "ElapsedTimer elapsed =
     (let m = elapsed div 60; s = elapsed smod 60 in
      Elem ''span'' [] [Text (if m > 0 then int_string m @ ''m '' else []), Text (int_string s), Text ''s''])"

section \<open>The page\<close>

definition Dashboard_queries :: "(query_key \<times> call) list" where
  "Dashboard_queries =
     [([''jobs''], getJobs), ([''executions''], getExecutions None (Some 10)),
      ([''executions'', ''running''], getRunningExecutions)]"

definition count_status :: "string \<Rightarrow> props list \<Rightarrow> nat" where
  "count_status s rows = length (filter (\<lambda>r. field r ''status'' = JStr s) rows)"

definition running_link :: "dates \<Rightarrow> (props \<Rightarrow> int) \<Rightarrow> props \<Rightarrow> 'e node" where
  "running_link fmt elapsed exec =
     Elem ''Link'' [Attr ''to'' (job_link (js_text (field exec ''job_id'')))]
      [Elem ''div'' []
        [Elem ''span'' [] [], Elem ''span'' [] (shown (field exec ''job_name'')),
         Elem ''span'' [] (Text ''via '' # shown (field exec ''triggered_by''))],
       Elem ''div'' []
        [Elem ''span'' [] [ElapsedTimer (elapsed exec)],
         Elem ''span'' [] [Text (ago fmt (field exec ''started_at''))]]]"

definition running_banner :: "dates \<Rightarrow> (props \<Rightarrow> int) \<Rightarrow> props list \<Rightarrow> 'e node list" where
  "running_banner fmt elapsed running =
     show_if (length running > 0)
      [Elem ''div'' []
        [Elem ''div'' []
          [Elem ''h2'' []
            [Text (''Running Now '' @ em_dash @ '' ''), Text (nat_string (length running)), Text '' job'',
             Text (if length running > 1 then ''s'' else []), Text '' in progress'']],
         Elem ''div'' [] (map (running_link fmt elapsed) running)]]"

definition recent_job :: "props \<Rightarrow> 'e node" where
  "recent_job job =
     Elem ''Link'' [Attr ''to'' (job_link (job_id job))]
      [Elem ''span'' [] (shown (field job ''name'')), StatusBadge (field job ''status'')]"

definition recent_execution :: "dates \<Rightarrow> props \<Rightarrow> 'e node" where
  "recent_execution fmt exec =
     Elem ''div'' []
      [Elem ''span'' [] (shown (field exec ''job_name'')),
       Elem ''div'' [] [StatusBadge (field exec ''status''), Elem ''span'' [] [Text (ago fmt (field exec ''started_at''))]]]"

definition Dashboard ::
    "dates \<Rightarrow> (props \<Rightarrow> int) \<Rightarrow> props list option \<Rightarrow> props list option \<Rightarrow> props list option \<Rightarrow> 'e node list" where
  "Dashboard fmt elapsed jobs_data executions_data running_data =
     (let jobs = rows_or_empty jobs_data; executions = rows_or_empty executions_data;
          running = rows_or_empty running_data in
      [Elem ''div'' []
        (Elem ''h1'' [] [Text ''Dashboard'']
         # running_banner fmt elapsed running
         @ [Elem ''div'' []
              [StatCard ''Total Jobs'' (length jobs) ''bg-sky-50 text-sky-600'',
               StatCard ''Active'' (count_status ''active'' jobs) ''bg-green-50 text-green-600'',
               StatCard ''Paused'' (count_status ''paused'' jobs) ''bg-yellow-50 text-yellow-600'',
               StatCard ''Recent Failures'' (count_status ''failure'' executions) ''bg-red-50 text-red-600''],
            Elem ''div'' []
              [Elem ''div'' []
                [Elem ''div'' [] [Elem ''h2'' [] [Text ''Recent Jobs''],
                   Elem ''Link'' [Attr ''to'' ''/jobs''] [Text ''View all'']],
                 Elem ''div'' []
                   (map recent_job (take 6 jobs)
                    @ show_if (jobs = [])
                        [Elem ''div'' [] [Elem ''p'' [] [Text ''No jobs yet.''],
                           Elem ''Link'' [Attr ''to'' ''/jobs/new''] [Text ''Create first job'']]])],
               Elem ''div'' []
                [Elem ''div'' [] [Elem ''h2'' [] [Text ''Recent Executions'']],
                 Elem ''div'' []
                   (map (recent_execution fmt) (take 8 executions)
                    @ show_if (executions = []) [Elem ''p'' [] [Text ''No executions yet.'']])]]])])"

section \<open>Facts\<close>

lemma links_running [simp]:
  "links (map (running_link fmt el) rs) = map (\<lambda>e. job_link (js_text (field e ''job_id''))) rs"
  by (induction rs) (simp_all add: running_link_def ElapsedTimer_def Let_def ui_eval)

lemma links_recent [simp]:
  "links (map recent_job js) = map (job_link \<circ> job_id) js"
  "links (map (recent_execution fmt) es) = []"
  by (induction js) (simp_all add: recent_job_def ui_eval,
      induction es, simp_all add: recent_execution_def ui_eval)

lemma links_StatCard [simp]: "links (StatCard l v c # ns) = links ns"
  by (simp add: StatCard_def ui_eval)

lemma links_Dashboard:
  "links (Dashboard fmt el (Some jobs) es (Some running)) =
     map (\<lambda>e. job_link (js_text (field e ''job_id''))) running @ [''/jobs'']
     @ map (job_link \<circ> job_id) (take 6 jobs) @ (if jobs = [] then [''/jobs/new''] else [])"
  by (simp add: Dashboard_def Let_def rows_or_empty_def running_banner_def ui_eval)

lemma count_status_disjoint:
  "s \<noteq> t \<Longrightarrow> count_status s rows + count_status t rows \<le> length rows"
  by (induction rows) (auto simp: count_status_def)

section \<open>Properties\<close>

text \<open>The elapsed timer.  For an execution started \<open>ms\<close> milliseconds ago it shows minutes and
  seconds that add up to the whole seconds elapsed, the seconds below 60, and leaves the minutes out
  when there are none.\<close>

theorem elapsed_timer:
  assumes "start \<le> now"
  shows "\<exists>m s. s < 60 \<and> 60 * m + s = nat (now - start) div 1000 \<and>
    texts [ElapsedTimer (elapsed_tick start now)] =
      [if m = 0 then [] else nat_string m @ ''m '', nat_string s, ''s'']"
proof -
  define e where "e = nat (now - start) div 1000"
  have e: "elapsed_tick start now = int e"
    using assms by (simp add: elapsed_tick_def e_def zdiv_int)
  have r: "int e smod 60 = int (e mod 60)"
    by (simp add: smod_mod_positive zmod_int)
  have d: "int e div 60 = int (e div 60)"
    by (simp add: zdiv_int)
  have "texts [ElapsedTimer (int e)] =
      [if e div 60 = 0 then [] else nat_string (e div 60) @ ''m '', nat_string (e mod 60), ''s'']"
    unfolding ElapsedTimer_def Let_def r d by (cases "e div 60 = 0") (simp_all add: int_string_def)
  moreover have "e mod 60 < 60 \<and> 60 * (e div 60) + e mod 60 = e" by simp
  ultimately show ?thesis unfolding e e_def [symmetric] by blast
qed

theorem elapsed_timer_witness:
  "\<exists>m s. s < 60 \<and> 60 * m + s = nat (125500 - 500) div 1000 \<and>
     texts [ElapsedTimer (elapsed_tick 500 125500)] =
       [if m = 0 then [] else nat_string m @ ''m '', nat_string s, ''s'']"
  by (rule elapsed_timer) simp

end
