(* ===== verification/Executions.thy ===== *)
theory Executions
  imports JobsApi JobPages Dashboard
begin

text \<open>
  The execution handlers of the Go API, \<open>handler/executions.go\<close>, and the pages that ask for
  executions.  A query whose rows cannot be produced (a negative limit, say) ends the row loop at once:
  the handlers do not look at \<open>rows.Err()\<close>.
\<close>

section \<open>Rows\<close>

fun opt_int :: "int option \<Rightarrow> jsval" where
  "opt_int None = JNull"
| "opt_int (Some n) = JNum n"

definition job_name_of :: "db \<Rightarrow> execution \<Rightarrow> string" where
  "job_name_of d e = (case any_job (ex_job e) d of None \<Rightarrow> [] | Some j \<Rightarrow> jb_name j)"

definition execution_json :: "db \<Rightarrow> execution \<Rightarrow> props" where
  "execution_json d e =
     [(''id'', JStr (ex_id e)), (''job_id'', JStr (ex_job e)), (''job_name'', JStr (job_name_of d e)),
      (''status'', JStr (ex_status e)), (''triggered_by'', JStr (ex_trigger e)),
      (''started_at'', JStr (ex_started e)), (''completed_at'', opt_string (ex_completed e)),
      (''duration_ms'', opt_int (ex_duration e)), (''response_status'', opt_int (ex_response e)),
      (''response_body'', opt_string (ex_body e)), (''error_message'', opt_string (ex_error e))]"

definition page_of :: "int \<Rightarrow> int \<Rightarrow> 'a list \<Rightarrow> 'a list" where
  "page_of limit offset rows =
     (if limit < 0 \<or> offset < 0 then [] else take (nat limit) (drop (nat offset) rows))"

definition rows_reply :: "db \<Rightarrow> execution list \<Rightarrow> reply" where
  "rows_reply d es = (200, JArr (map (\<lambda>e. JObj (execution_json d e)) es))"

section \<open>Handlers\<close>

text \<open>The arguments are the texts of the query parameters, empty when absent.\<close>

definition ListExecutions :: "string \<Rightarrow> string \<Rightarrow> string \<Rightarrow> string \<Rightarrow> db \<Rightarrow> reply" where
  "ListExecutions uid job limit_text offset_text d =
     (let limit = (if go_atoi limit_text = 0 then 50 else go_atoi limit_text);
          rows = rev (filter (\<lambda>e. job = [] \<or> ex_job e = job) (user_execs uid d))
      in rows_reply d (page_of limit (go_atoi offset_text) rows))"

definition ListRunningExecutions :: "string \<Rightarrow> db \<Rightarrow> reply" where
  "ListRunningExecutions uid d = rows_reply d (filter (\<lambda>e. ex_status e = ''running'') (user_execs uid d))"

definition GetExecution :: "string \<Rightarrow> string \<Rightarrow> db \<Rightarrow> reply" where
  "GetExecution uid i d =
     (case find (\<lambda>e. ex_id e = i) (user_execs uid d) of
        None \<Rightarrow> writeError 404 ''Execution not found''
      | Some e \<Rightarrow> (200, JObj (execution_json d e)))"

section \<open>The query of a request\<close>

text \<open>\<open>r.URL.Query().Get\<close> on the parameters the client sends.\<close>

definition query_get :: "request \<Rightarrow> string \<Rightarrow> string" where
  "query_get r k = (case map_of (rq_params r) k of None \<Rightarrow> [] | Some v \<Rightarrow> js_text v)"

definition serve_executions :: "string \<Rightarrow> db \<Rightarrow> request \<Rightarrow> reply" where
  "serve_executions uid d r =
     ListExecutions uid (query_get r ''job_id'') (query_get r ''limit'') (query_get r ''offset'') d"

lemma js_text_nat: "js_text (JNum (int n)) = nat_string n"
  by (simp add: int_string_def)

lemma page_rows: "page_of (int m) (int k) rows = take m (drop k rows)"
  by (simp add: page_of_def)

lemma go_atoi_empty [simp]: "go_atoi [] = 0"
  by (simp add: go_atoi_def)

lemma go_atoi_small: "n < 2 ^ 63 \<Longrightarrow> go_atoi (nat_string n) = int n"
  by (simp add: go_atoi_nat_string)

lemma page_first: "page_of (int m) 0 rows = take m rows"
  using page_rows [of m 0 rows] by simp

lemma ListExecutions_page:
  assumes "0 < n" and "n < 2 ^ 63"
  shows "k < 2 ^ 63 \<Longrightarrow> ListExecutions uid job (nat_string n) (nat_string k) d =
      rows_reply d (take n (drop k (rev (filter (\<lambda>e. job = [] \<or> ex_job e = job) (user_execs uid d)))))"
    and "ListExecutions uid job (nat_string n) [] d =
      rows_reply d (take n (rev (filter (\<lambda>e. job = [] \<or> ex_job e = job) (user_execs uid d))))"
  using assms by (simp_all only: ListExecutions_def Let_def go_atoi_small page_rows page_first go_atoi_empty
      of_nat_eq_0_iff split: if_split) simp_all

lemma serve_getExecutions:
  assumes "0 < n" and "n < 2 ^ 63"
  shows "serve_executions uid d (call_request (getExecutions (Some i) (Some n))) =
      rows_reply d (take n (rev (filter (\<lambda>e. i = [] \<or> ex_job e = i) (user_execs uid d))))"
    and "serve_executions uid d (call_request (getExecutions None (Some n))) =
      rows_reply d (take n (rev (user_execs uid d)))"
proof -
  have q: "query_get (call_request (getExecutions x (Some n))) ''limit'' = nat_string n"
    "query_get (call_request (getExecutions x (Some n))) ''offset'' = []" for x
    using js_text_nat [of n]
    by (auto simp: query_get_def getExecutions_def data_of_def client_def Let_def split: option.split)
  have j: "query_get (call_request (getExecutions (Some i) (Some n))) ''job_id'' = i"
    "query_get (call_request (getExecutions None (Some n))) ''job_id'' = []"
    by (simp_all add: query_get_def getExecutions_def data_of_def client_def Let_def)
  show "serve_executions uid d (call_request (getExecutions (Some i) (Some n))) =
      rows_reply d (take n (rev (filter (\<lambda>e. i = [] \<or> ex_job e = i) (user_execs uid d))))"
    by (simp only: serve_executions_def q j ListExecutions_page [OF assms])
  show "serve_executions uid d (call_request (getExecutions None (Some n))) =
      rows_reply d (take n (rev (user_execs uid d)))"
    using ListExecutions_page(2) [OF assms, of uid "[]" d] by (simp add: serve_executions_def q j)
qed

text \<open>The executions of one of the user's jobs are those of the job.\<close>

lemma filter_user_execs:
  assumes "owned_job uid i d = Some j"
  shows "filter (\<lambda>e. ex_job e = i) (user_execs uid d) = job_execs d j"
proof -
  have j: "j \<in> set (db_jobs d)" "jb_id j = i" "jb_user j = Some uid"
    using find_SomeD [of _ "db_jobs d" j] assms by (auto simp: owned_job_def)
  then have "filter (\<lambda>e. ex_job e = i \<and> list_ex (\<lambda>j. jb_id j = ex_job e \<and> jb_user j = Some uid) (db_jobs d)) es =
      filter (\<lambda>e. ex_job e = i) es" for es
    by (intro filter_cong) (auto simp: list_ex_iff)
  then show ?thesis by (simp add: user_execs_def job_execs_def j(2) conj_commute)
qed

lemma GetExecution_by_id:
  assumes "e \<in> set (db_execs d)" and "distinct (map ex_id (db_execs d))"
  shows "GetExecution uid (ex_id e) d =
    (if \<exists>k \<in> set (db_jobs d). jb_id k = ex_job e \<and> jb_user k = Some uid
     then (200, JObj (execution_json d e)) else writeError 404 ''Execution not found'')"
proof -
  let ?own = "\<exists>k \<in> set (db_jobs d). jb_id k = ex_job e \<and> jb_user k = Some uid"
  have mine: "e \<in> set (user_execs uid d) \<longleftrightarrow> ?own" using assms(1) by (auto simp: user_execs_def list_ex_iff)
  have same: "f = e" if "f \<in> set (user_execs uid d)" "ex_id f = ex_id e" for f
    using that assms by (auto simp: user_execs_def dest: inj_onD [OF distinct_map [THEN iffD1, THEN conjunct2]])
  show ?thesis
  proof (cases "find (\<lambda>f. ex_id f = ex_id e) (user_execs uid d)")
    case None
    then have "e \<notin> set (user_execs uid d)" by (auto simp: find_None_iff)
    then have no: "\<not> ?own" using mine by blast
    show ?thesis unfolding if_not_P [OF no] using None by (simp add: GetExecution_def)
  next
    case (Some f)
    have "f = e" "e \<in> set (user_execs uid d)" using same find_SomeD [OF Some] by auto
    then have yes: ?own using mine by blast
    show ?thesis unfolding if_P [OF yes] using Some \<open>f = e\<close> by (simp add: GetExecution_def)
  qed
qed

section \<open>Properties\<close>

text \<open>C32: The execution lists of the pages are what the server keeps.  The job page gets the newest fifty
  executions of its job, the dashboard the newest ten of all the user's jobs, both newest first; the
  banner gets exactly the running ones, oldest first.  With ids that are unique, an execution asked for by
  its id is answered with its own columns and its job's name if it is one of a job of the user, and is not
  found otherwise, also if it is somebody else's.\<close>

theorem execution_lists:
  assumes "owned_job uid i d = Some j" and "i \<noteq> []" and "distinct (map ex_id (db_execs d))"
  shows "serve_executions uid d (call_request (getExecutions (Some i) None)) =
      rows_reply d (take 50 (rev (job_execs d j))) \<and>
    serve_executions uid d (call_request (getExecutions None (Some 10))) =
      rows_reply d (take 10 (rev (user_execs uid d))) \<and>
    ListRunningExecutions uid d = rows_reply d (filter (\<lambda>e. ex_status e = ''running'') (user_execs uid d)) \<and>
    (\<forall>e \<in> set (db_execs d). GetExecution uid (ex_id e) d =
      (if \<exists>k \<in> set (db_jobs d). jb_id k = ex_job e \<and> jb_user k = Some uid
       then (200, JObj (execution_json d e)) else writeError 404 ''Execution not found'')) \<and>
    (x \<notin> ex_id ` set (db_execs d) \<longrightarrow> GetExecution uid x d = writeError 404 ''Execution not found'')"
proof -
  have "call_request (getExecutions (Some i) None) = call_request (getExecutions (Some i) (Some 50))"
    by (simp add: getExecutions_def)
  then have "serve_executions uid d (call_request (getExecutions (Some i) None)) =
      rows_reply d (take 50 (rev (job_execs d j)))"
    using serve_getExecutions(1) [of 50 uid d i] assms(2) by (simp add: filter_user_execs [OF assms(1)])
  moreover have "serve_executions uid d (call_request (getExecutions None (Some 10))) =
      rows_reply d (take 10 (rev (user_execs uid d)))"
    by (rule serve_getExecutions(2)) simp_all
  moreover have "GetExecution uid (ex_id e) d =
      (if \<exists>k \<in> set (db_jobs d). jb_id k = ex_job e \<and> jb_user k = Some uid
       then (200, JObj (execution_json d e)) else writeError 404 ''Execution not found'')" if "e \<in> set (db_execs d)" for e
    using that assms(3) by (rule GetExecution_by_id)
  moreover have "GetExecution uid x d = writeError 404 ''Execution not found''" if "x \<notin> ex_id ` set (db_execs d)"
  proof -
    have "find (\<lambda>e. ex_id e = x) (user_execs uid d) = None" using that by (auto simp: find_None_iff user_execs_def)
    then show ?thesis by (simp add: GetExecution_def)
  qed
  ultimately show ?thesis by (simp add: ListRunningExecutions_def)
qed

theorem execution_lists_witness:
  "\<exists>es. serve_executions ''1'' sample_db (call_request (getExecutions (Some ''7'') None)) = rows_reply sample_db es \<and>
     map ex_id es = [''b'', ''a''] \<and>
     GetExecution ''1'' (ex_id (db_execs sample_db ! 0)) sample_db = (200, JObj (execution_json sample_db (db_execs sample_db ! 0)))"
proof -
  have own: "owned_job ''1'' ''7'' sample_db = Some (hd (db_jobs sample_db))"
    by (simp add: owned_job_def sample_db_def)
  have "map ex_id (take 50 (rev (job_execs sample_db (hd (db_jobs sample_db))))) = [''b'', ''a'']"
    by (simp add: job_execs_def sample_db_def)
  moreover have i: "''7'' \<noteq> []" and ids: "distinct (map ex_id (db_execs sample_db))" by (simp_all add: sample_db_def)
  note all = execution_lists [OF own i ids]
  have "serve_executions ''1'' sample_db (call_request (getExecutions (Some ''7'') None)) =
      rows_reply sample_db (take 50 (rev (job_execs sample_db (hd (db_jobs sample_db)))))"
    using all by (rule conjunct1)
  moreover have "db_execs sample_db ! 0 \<in> set (db_execs sample_db)"
    and "\<exists>k \<in> set (db_jobs sample_db). jb_id k = ex_job (db_execs sample_db ! 0) \<and> jb_user k = Some ''1''"
    by (simp_all add: sample_db_def)
  then have "GetExecution ''1'' (ex_id (db_execs sample_db ! 0)) sample_db =
      (200, JObj (execution_json sample_db (db_execs sample_db ! 0)))"
    using all by auto
  ultimately show ?thesis by (intro exI conjI)
qed

text \<open>Pages of executions cover the list.  Asking page after page, each with the same limit and the
  offset of the executions already seen, gives every execution once, in the order of the list.\<close>

theorem pages_cover:
  assumes "0 < n" and "m * n < 2 ^ 63" and "n < 2 ^ 63"
  shows "\<exists>rows. map (\<lambda>k. ListExecutions uid job (nat_string n) (nat_string (k * n)) d) [0..<m] = map (rows_reply d) rows \<and>
    concat rows = take (m * n) (rev (filter (\<lambda>e. job = [] \<or> ex_job e = job) (user_execs uid d)))"
proof -
  let ?all = "rev (filter (\<lambda>e. job = [] \<or> ex_job e = job) (user_execs uid d))"
  have one: "ListExecutions uid job (nat_string n) (nat_string (k * n)) d = rows_reply d (take n (drop (k * n) ?all))"
    if "k < m" for k
  proof -
    have "k * n < 2 ^ 63" using that assms by (meson less_trans mult_less_mono1)
    then show ?thesis by (rule ListExecutions_page(1) [OF assms(1,3)])
  qed
  have "concat (map (\<lambda>k. take n (drop (k * n) xs)) [0..<m]) = take (m * n) xs" for xs :: "execution list"
    by (induction m) (simp_all add: add.commute flip: take_add)
  moreover have "map (\<lambda>k. ListExecutions uid job (nat_string n) (nat_string (k * n)) d) [0..<m] =
      map (rows_reply d) (map (\<lambda>k. take n (drop (k * n) ?all)) [0..<m])"
    using one by simp
  ultimately show ?thesis by blast
qed

theorem pages_cover_witness:
  "\<exists>rows. map (\<lambda>k. ListExecutions ''1'' [] (nat_string 1) (nat_string (k * 1)) sample_db) [0..<2] =
      map (rows_reply sample_db) rows \<and> map ex_id (concat rows) = [''b'', ''a'']"
proof -
  have "map ex_id (take (2 * 1) (rev (filter (\<lambda>e. [] = [] \<or> ex_job e = []) (user_execs ''1'' sample_db)))) = [''b'', ''a'']"
    by (simp add: user_execs_def sample_db_def)
  with pages_cover [of 1 2 "''1''" "[]" sample_db] show ?thesis by force
qed

end
