(* ===== verification/ReportCsv.thy ===== *)
theory ReportCsv
  imports Executions Json
begin

text \<open>
  The CSV export of the report, \<open>ReportCSV\<close> and \<open>csvEsc\<close> of \<open>handler/report.go\<close>, read back by a
  reader of RFC 4180 files.
\<close>

section \<open>CSV export\<close>

text \<open>A row of the export query, its columns as text.\<close>

record csv_row =
  cv_id :: string
  cv_job :: string
  cv_status :: string
  cv_trigger :: string
  cv_started :: string
  cv_completed :: string
  cv_duration :: string
  cv_response :: string
  cv_error :: string

definition csvEsc :: "string \<Rightarrow> string" where
  "csvEsc s =
     (if s = [] then []
      else if list_ex (\<lambda>c. c = CHR '','' \<or> c = dquote \<or> c = CHR 0x0A \<or> c = CHR 0x0D) s
      then dquote # s @ [dquote]
      else s)"

definition csv_header :: string where
  "csv_header =
     ''execution_id,job_name,status,triggered_by,started_at,completed_at,duration_ms,response_status,error_message''
     @ [CHR 0x0A]"

definition csv_line :: "csv_row \<Rightarrow> string" where
  "csv_line r =
     join_with '',''
       [csvEsc (cv_id r), csvEsc (cv_job r), cv_status r, cv_trigger r, cv_started r,
        csvEsc (cv_completed r), csvEsc (cv_duration r), csvEsc (cv_response r), csvEsc (cv_error r)]
     @ [CHR 0x0A]"

definition csv_file :: "csv_row list \<Rightarrow> string" where
  "csv_file rows = csv_header @ concat (map csv_line rows)"

text \<open>The query. The formats of the two kinds of time and the reading of the period against the clock
  are arguments: \<open>rfc\<close> is \<open>Format(time.RFC3339)\<close>, \<open>cast\<close> the
  database's text of a timestamp, and \<open>recent n e\<close> says whether the execution started within
  the last \<open>n\<close> days.\<close>

definition csv_days :: "string \<Rightarrow> int" where
  "csv_days q = (if go_atoi q \<le> 0 then 30 else go_atoi q)"

definition or_empty :: "string option \<Rightarrow> string" where
  "or_empty t = (case t of None \<Rightarrow> [] | Some s \<Rightarrow> s)"

definition csv_row_of :: "(string \<Rightarrow> string) \<Rightarrow> (string \<Rightarrow> string) \<Rightarrow> db \<Rightarrow> execution \<Rightarrow> csv_row" where
  "csv_row_of rfc cast d e =
     \<lparr>cv_id = ex_id e, cv_job = job_name_of d e, cv_status = ex_status e, cv_trigger = ex_trigger e,
      cv_started = rfc (ex_started e), cv_completed = or_empty (map_option cast (ex_completed e)),
      cv_duration = or_empty (map_option int_string (ex_duration e)),
      cv_response = or_empty (map_option int_string (ex_response e)), cv_error = or_empty (ex_error e)\<rparr>"

definition csv_rows ::
    "(int \<Rightarrow> execution \<Rightarrow> bool) \<Rightarrow> (string \<Rightarrow> string) \<Rightarrow> (string \<Rightarrow> string) \<Rightarrow> string \<Rightarrow> string \<Rightarrow> string \<Rightarrow> db
     \<Rightarrow> csv_row list" where
  "csv_rows recent rfc cast uid days job d =
     map (csv_row_of rfc cast d)
       (rev (filter (\<lambda>e. recent (csv_days days) e \<and> (job = [] \<or> ex_job e = job)) (user_execs uid d)))"

definition ReportCSV ::
    "(int \<Rightarrow> execution \<Rightarrow> bool) \<Rightarrow> (string \<Rightarrow> string) \<Rightarrow> (string \<Rightarrow> string) \<Rightarrow> string \<Rightarrow> string \<Rightarrow> string \<Rightarrow> db
     \<Rightarrow> string" where
  "ReportCSV recent rfc cast uid days job d = csv_file (csv_rows recent rfc cast uid days job d)"

section \<open>Reading CSV\<close>

text \<open>
  A reader of RFC 4180 records with a given number of fields: in a quoted field two quotes stand
  for one, and a quoted field must be closed.
\<close>

fun read_quoted :: "string \<Rightarrow> (string \<times> string) option" where
  "read_quoted [] = None"
| "read_quoted (c # cs) =
     (if c = dquote then
        (case cs of
           q # ds \<Rightarrow> if q = dquote then map_option (\<lambda>(f, r). (dquote # f, r)) (read_quoted ds) else Some ([], cs)
         | [] \<Rightarrow> Some ([], []))
      else map_option (\<lambda>(f, r). (c # f, r)) (read_quoted cs))"

definition plain_char :: "char \<Rightarrow> bool" where
  "plain_char c \<longleftrightarrow> c \<noteq> CHR '','' \<and> c \<noteq> CHR 0x0A \<and> c \<noteq> CHR 0x0D"

definition read_field :: "string \<Rightarrow> (string \<times> string) option" where
  "read_field s =
     (case s of
        c # cs \<Rightarrow> if c = dquote then read_quoted cs else Some (takeWhile plain_char s, dropWhile plain_char s)
      | [] \<Rightarrow> Some ([], []))"

fun read_record :: "nat \<Rightarrow> string \<Rightarrow> (string list \<times> string) option" where
  "read_record 0 s = Some ([], s)"
| "read_record (Suc n) s =
     (case read_field s of
        None \<Rightarrow> None
      | Some (f, r) \<Rightarrow>
          if n = 0 then (case r of c # r' \<Rightarrow> if c = CHR 0x0A then Some ([f], r') else None | [] \<Rightarrow> None)
          else (case r of
              c # r' \<Rightarrow> if c = CHR '','' then map_option (\<lambda>(fs, q). (f # fs, q)) (read_record n r') else None
            | [] \<Rightarrow> None))"


text \<open>The records of a file, one after the other.\<close>

fun read_records :: "nat \<Rightarrow> string \<Rightarrow> (string list list \<times> string) option" where
  "read_records 0 s = Some ([], s)"
| "read_records (Suc n) s =
     (case read_record 9 s of
        None \<Rightarrow> None
      | Some (r, s') \<Rightarrow> map_option (\<lambda>(rs, q). (r # rs, q)) (read_records n s'))"

text \<open>The texts a row is made of.\<close>

definition csv_fields :: "csv_row \<Rightarrow> string list" where
  "csv_fields r =
     [cv_id r, cv_job r, cv_status r, cv_trigger r, cv_started r, cv_completed r, cv_duration r, cv_response r,
      cv_error r]"

definition csv_columns :: "string list" where
  "csv_columns =
     [''execution_id'', ''job_name'', ''status'', ''triggered_by'', ''started_at'', ''completed_at'',
      ''duration_ms'', ''response_status'', ''error_message'']"

section \<open>Reading what is written\<close>

definition no_quote :: "string \<Rightarrow> bool" where
  "no_quote s \<longleftrightarrow> dquote \<notin> set s"

lemma read_quoted_plain: "no_quote s \<Longrightarrow> (case r of c # _ \<Rightarrow> c \<noteq> dquote | [] \<Rightarrow> True) \<Longrightarrow>
    read_quoted (s @ dquote # r) = Some (s, r)"
  by (induction s) (auto simp: no_quote_def split: list.splits)

lemma read_field_csvEsc:
  assumes "no_quote s" and "c = CHR '','' \<or> c = CHR 0x0A"
  shows "read_field (csvEsc s @ c # r) = Some (s, c # r)"
proof (cases "s = []")
  case True
  with assms(2) show ?thesis by (auto simp: csvEsc_def read_field_def plain_char_def)
next
  case False
  then obtain d ds where s: "s = d # ds" by (cases s) simp_all
  show ?thesis
  proof (cases "list_ex (\<lambda>c. c = CHR '','' \<or> c = dquote \<or> c = CHR 0x0A \<or> c = CHR 0x0D) s")
    case True
    have "c \<noteq> dquote" using assms(2) by auto
    then show ?thesis
      using True False read_quoted_plain [OF assms(1), of "c # r"] by (simp add: csvEsc_def read_field_def)
  next
    case plain: False
    then have all: "\<forall>x \<in> set s. plain_char x" and "d \<noteq> dquote"
      by (auto simp: plain_char_def list_ex_iff s)
    moreover have "\<not> plain_char c" using assms(2) by (auto simp: plain_char_def)
    ultimately have "takeWhile plain_char (s @ c # r) = s" "dropWhile plain_char (s @ c # r) = c # r"
      by (simp_all add: takeWhile_append dropWhile_append)
    with plain False \<open>d \<noteq> dquote\<close> show ?thesis
      by (simp add: csvEsc_def read_field_def s)
  qed
qed

text \<open>A field that is written without \<open>csvEsc\<close> has to be plain.\<close>

definition plain_field :: "string \<Rightarrow> bool" where
  "plain_field s \<longleftrightarrow> no_quote s \<and> list_all plain_char s"

lemma csvEsc_plain: "plain_field s \<Longrightarrow> csvEsc s = s"
  by (auto simp: plain_field_def csvEsc_def no_quote_def list_all_iff list_ex_iff plain_char_def)

lemmas read_field_writes = read_field_csvEsc [where c = "CHR '',''"] read_field_csvEsc [where c = "CHR 0x0A"]

definition csv_ok :: "csv_row \<Rightarrow> bool" where
  "csv_ok r \<longleftrightarrow>
     list_all no_quote (csv_fields r) \<and> plain_field (cv_status r) \<and> plain_field (cv_trigger r) \<and> plain_field (cv_started r)"

lemma csv_line_escaped:
  assumes "csv_ok r"
  shows "csv_line r = join_with '','' (map csvEsc (csv_fields r)) @ [CHR 0x0A]"
  using assms by (simp add: csv_ok_def csv_line_def csv_fields_def csvEsc_plain)

lemma read_record_writes:
  assumes "list_all no_quote fs" and "fs \<noteq> []"
  shows "read_record (length fs) (join_with '','' (map csvEsc fs) @ CHR 0x0A # r) = Some (fs, r)"
  using assms
proof (induction fs)
  case (Cons f fs)
  show ?case
  proof (cases fs)
    case Nil
    with Cons.prems show ?thesis by (simp add: read_field_writes join_with_def)
  next
    case (Cons g gs)
    then have join: "join_with '','' (map csvEsc (f # fs)) @ CHR 0x0A # r =
        csvEsc f @ CHR '','' # join_with '','' (map csvEsc fs) @ CHR 0x0A # r"
      by (simp add: join_with_def)
    have "no_quote f" using Cons.prems by simp
    note read = read_field_writes(1) [OF this, simplified]
    show ?thesis
      unfolding join using Cons.IH Cons.prems \<open>fs = g # gs\<close> by (simp add: read)
  qed
qed simp

lemma read_record_line: "csv_ok r \<Longrightarrow> read_record 9 (csv_line r @ s) = Some (csv_fields r, s)"
  using read_record_writes [of "csv_fields r" s]
  by (simp add: csv_line_escaped csv_ok_def) (simp add: csv_fields_def numeral_eq_Suc)

lemma csv_header_columns: "csv_header = join_with '','' (map csvEsc csv_columns) @ [CHR 0x0A]"
  by code_simp

lemma read_header: "read_record 9 (csv_header @ s) = Some (csv_columns, s)"
proof -
  have "list_all no_quote csv_columns" by code_simp
  moreover have "length csv_columns = 9" by (simp add: csv_columns_def)
  moreover from this have "csv_columns \<noteq> []" by auto
  ultimately have "read_record 9 (join_with '','' (map csvEsc csv_columns) @ CHR 0x0A # s) = Some (csv_columns, s)"
    using read_record_writes [of csv_columns s] by metis
  then show ?thesis
    by (simp only: csv_header_columns append_assoc append.simps)
qed

lemma read_lines:
  "list_all csv_ok rows \<Longrightarrow>
   read_records (length rows) (concat (map csv_line rows)) = Some (map csv_fields rows, [])"
proof (induction rows)
  case (Cons r rows)
  have "csv_ok r" and "list_all csv_ok rows" using Cons.prems by simp_all
  then show ?case
    using Cons.IH by (simp only: list.map concat.simps length_Cons read_records.simps read_record_line
      option.case prod.case option.map)
qed simp

text \<open>What a quoted field gives back is shorter than its text by the closing quote and by one for
  every quote in it.\<close>

lemma read_quoted_length:
  "read_quoted t = Some (f, r) \<Longrightarrow> length t = length f + count_list f dquote + 1 + length r"
proof (induction t arbitrary: f r rule: read_quoted.induct)
  case (2 c cs)
  show ?case
  proof (cases "c = dquote")
    case quote: True
    show ?thesis
    proof (cases cs)
      case Nil
      with quote 2(3) show ?thesis by simp
    next
      case (Cons q ds)
      show ?thesis
      proof (cases "q = dquote")
        case True
        with quote Cons 2(3) obtain f' where "read_quoted ds = Some (f', r)" "f = dquote # f'" by auto
        with 2(1) [OF quote Cons True] Cons show ?thesis by simp
      next
        case False
        with quote Cons 2(3) show ?thesis by simp
      qed
    qed
  next
    case False
    with 2(3) obtain f' where f: "read_quoted cs = Some (f', r)" "f = c # f'" by auto
    show ?thesis using 2(2) [OF False f(1)] False by (simp add: f(2))
  qed
qed simp

text \<open>What the database and the two formats have to hold for the rows to be readable.\<close>

definition csv_texts :: "db \<Rightarrow> bool" where
  "csv_texts d \<longleftrightarrow>
     list_all (\<lambda>j. no_quote (jb_name j)) (db_jobs d) \<and>
     list_all (\<lambda>e. no_quote (ex_id e) \<and> plain_field (ex_status e) \<and> plain_field (ex_trigger e) \<and>
       no_quote (or_empty (ex_error e))) (db_execs d)"

lemma no_quote_int [simp]: "no_quote (int_string n)"
proof -
  have "dquote \<notin> set (nat_string k)" for k
    using nat_string_digit_val [of dquote k] by (auto simp: digit_val_def)
  then show ?thesis by (simp add: no_quote_def int_string_def)
qed

lemma no_quote_or_empty: "(\<And>s. t = Some s \<Longrightarrow> no_quote s) \<Longrightarrow> no_quote (or_empty t)"
  by (cases t) (simp_all add: or_empty_def no_quote_def)

lemma no_quote_job_name:
  assumes "csv_texts d"
  shows "no_quote (job_name_of d e)"
proof (cases "any_job (ex_job e) d")
  case None
  then show ?thesis by (simp add: job_name_of_def no_quote_def)
next
  case (Some j)
  then have "j \<in> set (db_jobs d)" by (auto simp: any_job_def find_Some_iff)
  with assms Some show ?thesis by (simp add: csv_texts_def job_name_of_def list_all_iff)
qed

lemma csv_row_ok:
  assumes "csv_texts d" and "e \<in> set (db_execs d)" and "\<And>t. plain_field (rfc t)" and "\<And>t. no_quote (cast t)"
  shows "csv_ok (csv_row_of rfc cast d e)"
proof -
  have "no_quote (ex_id e)" "plain_field (ex_status e)" "plain_field (ex_trigger e)" "no_quote (or_empty (ex_error e))"
    using assms(1,2) by (auto simp: csv_texts_def list_all_iff)
  moreover have "no_quote (or_empty (map_option cast (ex_completed e)))"
    by (rule no_quote_or_empty) (auto simp: assms(4))
  moreover have "no_quote (or_empty (map_option int_string t))" for t
    by (rule no_quote_or_empty) auto
  ultimately show ?thesis
    using assms(3) no_quote_job_name [OF assms(1)]
    by (simp add: csv_ok_def csv_fields_def csv_row_of_def plain_field_def)
qed

lemma csv_rows_ok:
  assumes "csv_texts d" and "\<And>t. plain_field (rfc t)" and "\<And>t. no_quote (cast t)"
  shows "list_all csv_ok (csv_rows recent rfc cast uid days job d)"
  using csv_row_ok [OF assms(1) _ assms(2,3)] by (auto simp: csv_rows_def user_execs_def list_all_iff)

lemma read_file:
  "list_all csv_ok rows \<Longrightarrow>
   read_records (Suc (length rows)) (csv_file rows) = Some (csv_columns # map csv_fields rows, [])"
  by (simp only: csv_file_def read_records.simps read_header read_lines option.case prod.case option.map)

section \<open>Properties\<close>

text \<open>C35: The export can be read back.  If no job name, error message or id in the database holds a
  double quote, and the words in the status and trigger columns and the two formats of times are plain,
  a reader of CSV files finds in the file the column names and then, newest first, for exactly the executions
  that belong to a job of the user, started within the period (thirty days unless a positive number is given)
  and are of the chosen job, if one is chosen, their nine columns, whatever commas and line breaks they hold.\<close>

theorem csv_round_trip:
  assumes "csv_texts d" and "\<And>t. plain_field (rfc t)" and "\<And>t. no_quote (cast t)"
  shows "let period = (if 0 < go_atoi days then go_atoi days else 30);
      es = filter (\<lambda>e. (\<exists>j \<in> set (db_jobs d). jb_id j = ex_job e \<and> jb_user j = Some uid) \<and> recent period e \<and>
        (job = [] \<or> ex_job e = job)) (db_execs d)
    in read_records (Suc (length es)) (ReportCSV recent rfc cast uid days job d) =
      Some ([''execution_id'', ''job_name'', ''status'', ''triggered_by'', ''started_at'', ''completed_at'',
          ''duration_ms'', ''response_status'', ''error_message''] #
        map (\<lambda>e. [ex_id e, job_name_of d e, ex_status e, ex_trigger e, rfc (ex_started e),
          (case ex_completed e of None \<Rightarrow> [] | Some t \<Rightarrow> cast t), (case ex_duration e of None \<Rightarrow> [] | Some n \<Rightarrow> int_string n),
          (case ex_response e of None \<Rightarrow> [] | Some n \<Rightarrow> int_string n), (case ex_error e of None \<Rightarrow> [] | Some t \<Rightarrow> t)]) (rev es), [])"
proof -
  let ?es = "filter (\<lambda>e. (\<exists>j \<in> set (db_jobs d). jb_id j = ex_job e \<and> jb_user j = Some uid) \<and>
      recent (if 0 < go_atoi days then go_atoi days else 30) e \<and> (job = [] \<or> ex_job e = job)) (db_execs d)"
  let ?rows = "csv_rows recent rfc cast uid days job d"
  have "filter (\<lambda>e. recent (csv_days days) e \<and> (job = [] \<or> ex_job e = job)) (user_execs uid d) = ?es"
    unfolding user_execs_def filter_filter
    by (intro filter_cong) (auto simp: list_ex_iff csv_days_def)
  then have rows: "?rows = map (csv_row_of rfc cast d) (rev ?es)" by (simp only: csv_rows_def)
  have fields: "map csv_fields ?rows = map (\<lambda>e. [ex_id e, job_name_of d e, ex_status e, ex_trigger e, rfc (ex_started e),
      (case ex_completed e of None \<Rightarrow> [] | Some t \<Rightarrow> cast t), (case ex_duration e of None \<Rightarrow> [] | Some n \<Rightarrow> int_string n),
      (case ex_response e of None \<Rightarrow> [] | Some n \<Rightarrow> int_string n), (case ex_error e of None \<Rightarrow> [] | Some t \<Rightarrow> t)]) (rev ?es)"
    unfolding rows map_map
    by (intro map_cong refl) (simp add: csv_fields_def csv_row_of_def or_empty_def split: option.split)
  have "length ?rows = length ?es" by (simp only: rows length_map length_rev)
  moreover have "list_all csv_ok ?rows" by (rule csv_rows_ok [OF assms(1)]) (rule assms(2), rule assms(3))
  note read_file [OF this]
  ultimately show ?thesis
    unfolding Let_def fields [symmetric] ReportCSV_def csv_columns_def by argo
qed

theorem csv_round_trip_witness:
  "read_records 3 (ReportCSV (\<lambda>n e. n \<le> 30) (\<lambda>t. ''t'') (\<lambda>t. ''u'') ''1'' [] ''7'' sample_db) =
     Some ([csv_columns,
       [''b'', ''n'', ''failure'', ''manual'', ''t'', ''u'', ''40'', [], ''refused''],
       [''a'', ''n'', ''success'', ''schedule'', ''t'', ''u'', ''120'', ''200'', []]], [])"
proof -
  have texts: "csv_texts sample_db" by code_simp
  have "plain_field ''t''" "no_quote ''u''" by code_simp+
  note all = csv_round_trip [OF texts this, where recent = "\<lambda>n e. n \<le> 30" and uid = "''1''" and days = "[]" and job = "''7''", unfolded Let_def]
  have n: "int_string 40 = ''40''" "int_string 120 = ''120''" "int_string 200 = ''200''" by code_simp+
  show ?thesis
    using all by (simp add: sample_db_def csv_columns_def job_name_of_def any_job_def n numeral_3_eq_3)
qed

text \<open>A double quote is lost.  The export does not double the quotes of a text, so no reader of
  CSV files gets a text with a double quote back from the field written for it.\<close>

theorem csv_quotes_lost:
  assumes "dquote \<in> set s"
  shows "read_field (csvEsc s @ r) \<noteq> Some (s, r)"
proof
  assume read: "read_field (csvEsc s @ r) = Some (s, r)"
  have "list_ex (\<lambda>c. c = CHR '','' \<or> c = dquote \<or> c = CHR 0x0A \<or> c = CHR 0x0D) s" "s \<noteq> []"
    using assms by (auto simp: list_ex_iff)
  then have "read_quoted (s @ dquote # r) = Some (s, r)"
    using read by (simp add: csvEsc_def read_field_def)
  from read_quoted_length [OF this] have "count_list s dquote = 0" by simp
  with assms show False by (simp add: count_list_0_iff)
qed

theorem csv_quotes_lost_witness:
  "let s = [CHR ''a'', dquote, CHR ''b''] in read_field (csvEsc s @ '','') \<noteq> Some (s, '','')"
  using csv_quotes_lost [of "[CHR ''a'', dquote, CHR ''b'']" "'',''"] by simp

end
