(* ===== verification/Doubles.thy ===== *)
theory Doubles
  imports Prelude "HOL-Library.Log_Nat"
begin

text \<open>
  The arithmetic of JavaScript's numbers on rationals: the exact result of an operation rounded to the
  nearest double, ties to the even significand (53 bits, smallest unit \<open>2 powi -1074\<close>).  Results too large for
  a double do not occur in the expressions it is used for.  Rounding is monotone, leaves doubles alone,
  and below 1024 is off by no more than \<open>1 / 2 ^ 44\<close>.
\<close>

section \<open>Rounding\<close>

definition round_even :: "rat \<Rightarrow> int" where
  "round_even y =
     (let f = \<lfloor>y\<rfloor>; d = y - of_int f in
      if d < 1 / 2 then f else if 1 / 2 < d then f + 1 else if even f then f else f + 1)"

text \<open>The exponent of a positive rational: the power of two at or below it.\<close>

definition exponent :: "rat \<Rightarrow> int" where
  "exponent x =
     (case quotient_of x of (p, q) \<Rightarrow>
        let k = bitlen p - bitlen q in if 2 powi k \<le> x then k else k - 1)"

definition unit_exp :: "rat \<Rightarrow> int" where
  "unit_exp x = max (exponent \<bar>x\<bar> - 52) (- 1074)"

definition fl :: "rat \<Rightarrow> rat" where
  "fl x =
     (if x = 0 then 0
      else if 0 < x then of_int (round_even (x / 2 powi unit_exp x)) * 2 powi unit_exp x
      else - (of_int (round_even (- x / 2 powi unit_exp x)) * 2 powi unit_exp x))"

definition dadd :: "rat \<Rightarrow> rat \<Rightarrow> rat" where "dadd x y = fl (x + y)"
definition dsub :: "rat \<Rightarrow> rat \<Rightarrow> rat" where "dsub x y = fl (x - y)"
definition dmul :: "rat \<Rightarrow> rat \<Rightarrow> rat" where "dmul x y = fl (x * y)"
definition ddiv :: "rat \<Rightarrow> rat \<Rightarrow> rat" where "ddiv x y = fl (x / y)"

section \<open>Facts\<close>

lemma round_even_floor: "\<lfloor>y\<rfloor> \<le> round_even y \<and> round_even y \<le> \<lfloor>y\<rfloor> + 1"
  by (simp add: round_even_def Let_def)

lemma round_even_int [simp]: "round_even (of_int n) = n"
  by (simp add: round_even_def)

lemma round_even_near: "\<bar>of_int (round_even y) - y\<bar> \<le> 1 / 2"
proof -
  have "of_int \<lfloor>y\<rfloor> \<le> y" "y < of_int \<lfloor>y\<rfloor> + 1" by linarith+
  then show ?thesis unfolding round_even_def Let_def abs_if
    by (simp split: if_splits) linarith
qed

lemma round_even_mono:
  assumes "y \<le> z"
  shows "round_even y \<le> round_even z"
proof (cases "\<lfloor>y\<rfloor> = \<lfloor>z\<rfloor>")
  case True
  then show ?thesis using assms by (auto simp: round_even_def Let_def)
next
  case False
  then have "\<lfloor>y\<rfloor> + 1 \<le> \<lfloor>z\<rfloor>" using floor_mono [OF assms] by linarith
  then show ?thesis using round_even_floor [of y] round_even_floor [of z] by linarith
qed

lemma powi_mono: "j \<le> k \<Longrightarrow> (2 :: rat) powi j \<le> 2 powi k"
  by (rule power_int_increasing) simp_all

lemma powi_of_int: "0 \<le> k \<Longrightarrow> of_int (2 ^ nat k) = (2 :: rat) powi k"
  by (simp add: power_int_def)

lemma powi_of_int_mult: "j \<le> k \<Longrightarrow> of_int (2 ^ nat (k - j)) * (2 :: rat) powi j = 2 powi k"
  by (simp add: powi_of_int del: of_int_power flip: power_int_add)

lemma bitlen_powi:
  assumes "0 < n"
  shows "2 powi (bitlen n - 1) \<le> (of_int n :: rat)" and "(of_int n :: rat) < 2 powi bitlen n"
proof -
  have b: "2 ^ nat (bitlen n - 1) \<le> n" "n < 2 ^ nat (bitlen n)" "1 \<le> bitlen n"
    using bitlen_bounds [OF assms] bitlen_eq_zero_iff [of n] bitlen_nonneg [of n] assms by auto
  then have "(of_int (2 ^ nat (bitlen n - 1)) :: rat) \<le> of_int n" "(of_int n :: rat) < of_int (2 ^ nat (bitlen n))"
    by (simp_all only: of_int_le_iff of_int_less_iff)
  then show "2 powi (bitlen n - 1) \<le> (of_int n :: rat)" "(of_int n :: rat) < 2 powi bitlen n"
    using b(3) by (simp_all add: power_int_def)
qed

lemma exponent_bounds:
  assumes "0 < x"
  shows "2 powi exponent x \<le> x" and "x < 2 powi (exponent x + 1)"
proof -
  obtain p q where pq: "quotient_of x = (p, q)" by (cases "quotient_of x")
  have x: "x = of_int p / of_int q" using quotient_of_div [OF pq] .
  have q: "0 < q" using quotient_of_denom_pos [OF pq] .
  then have p: "0 < p" using assms x by (simp add: zero_less_divide_iff)
  let ?k = "bitlen p - bitlen q"
  note pb = bitlen_powi [OF p] and qb = bitlen_powi [OF q]
  have "x < 2 powi bitlen p / of_int q" using pb(2) q by (simp add: x divide_strict_right_mono)
  also have "\<dots> \<le> 2 powi bitlen p / 2 powi (bitlen q - 1)"
    using qb(1) q by (intro divide_left_mono) simp_all
  also have "\<dots> = 2 powi (?k + 1)" by (simp flip: power_int_diff) (simp add: algebra_simps)
  finally have up: "x < 2 powi (?k + 1)" .
  have "2 powi (?k - 1) = 2 powi (bitlen p - 1) / (2 powi bitlen q :: rat)"
    by (simp flip: power_int_diff) (simp add: algebra_simps)
  also have "\<dots> \<le> of_int p / 2 powi bitlen q" using pb(1) by (intro divide_right_mono) simp_all
  also have "\<dots> \<le> x" using qb(2) q p unfolding x by (intro divide_left_mono) simp_all
  finally have low: "2 powi (?k - 1) \<le> x" .
  show "2 powi exponent x \<le> x" "x < 2 powi (exponent x + 1)"
    using up low by (simp_all add: exponent_def pq Let_def)
qed

lemma exponent_mono: "0 < x \<Longrightarrow> x \<le> y \<Longrightarrow> exponent x \<le> exponent y"
proof (rule ccontr)
  assume a: "0 < x" "x \<le> y" "\<not> exponent x \<le> exponent y"
  then have "2 powi (exponent y + 1) \<le> (2 powi exponent x :: rat)" by (intro powi_mono) simp
  then show False using exponent_bounds(1) [OF a(1)] exponent_bounds(2) [of y] a(1,2) by linarith
qed

lemma exponent_below: "0 < x \<Longrightarrow> x < 2 powi (k + 1) \<Longrightarrow> exponent x \<le> k"
proof (rule ccontr)
  assume a: "0 < x" "x < 2 powi (k + 1)" "\<not> exponent x \<le> k"
  then have "2 powi (k + 1) \<le> (2 powi exponent x :: rat)" by (intro powi_mono) simp
  then show False using exponent_bounds(1) [OF a(1)] a(2) by linarith
qed

lemma fl_zero [simp]: "fl 0 = 0"
  by (simp add: fl_def)

lemma fl_pos: "0 < x \<Longrightarrow> fl x = of_int (round_even (x / 2 powi unit_exp x)) * 2 powi unit_exp x"
  by (simp add: fl_def)

text \<open>A multiple of the unit is left alone.\<close>

lemma fl_multiple:
  assumes "0 < x" and "x = of_int m * 2 powi unit_exp x"
  shows "fl x = x"
proof -
  have "x / 2 powi unit_exp x = of_int m" using assms(2) by (simp add: field_simps)
  then show ?thesis using assms by (simp add: fl_pos)
qed

lemma fl_nat:
  assumes "n < 2 ^ 53"
  shows "fl (of_nat n) = of_nat n"
proof (cases "n = 0")
  case False
  then have pos: "0 < (of_nat n :: rat)" by simp
  have "(of_nat n :: rat) < of_nat (2 ^ 53)" using assms by (simp only: of_nat_less_iff)
  then have "(of_nat n :: rat) < 2 powi (52 + 1)" by (simp add: power_int_def)
  then have e: "exponent (of_nat n) \<le> 52" by (rule exponent_below [OF pos])
  then have u: "unit_exp (of_nat n) \<le> 0" by (simp add: unit_exp_def)
  have "(of_nat n :: rat) = of_int (int n * 2 ^ nat (- unit_exp (of_nat n))) * 2 powi unit_exp (of_nat n)"
    using powi_of_int_mult [OF u] by (simp add: mult.assoc del: of_int_power)
  then show ?thesis by (rule fl_multiple [OF pos])
qed simp

lemma fl_numeral: "(numeral k :: nat) < 2 ^ 53 \<Longrightarrow> fl (numeral k) = numeral k"
  using fl_nat [of "numeral k"] by simp

lemma fl_one [simp]: "fl 1 = 1"
  using fl_nat [of 1] by simp

lemma fl_nonneg:
  assumes "0 \<le> x"
  shows "0 \<le> fl x"
proof (cases "x = 0")
  case False
  then have "0 < x" using assms by simp
  then have "round_even (of_int 0) \<le> round_even (x / 2 powi unit_exp x)" by (intro round_even_mono) simp
  then have "0 \<le> round_even (x / 2 powi unit_exp x)" unfolding round_even_int .
  then show ?thesis unfolding fl_pos [OF \<open>0 < x\<close>] by simp
qed simp

text \<open>Over a larger unit: the smaller number stays below the power of two where the unit grows.\<close>

lemma fl_mono_pos:
  assumes "0 < x" and "x \<le> y"
  shows "fl x \<le> fl y"
proof -
  have y: "0 < y" using assms by simp
  have e: "exponent x \<le> exponent y" by (rule exponent_mono [OF assms])
  show ?thesis
  proof (cases "unit_exp x = unit_exp y")
    case True
    have "x / 2 powi unit_exp y \<le> y / 2 powi unit_exp y" using assms(2) by (intro divide_right_mono) simp_all
    from round_even_mono [OF this] show ?thesis using assms(1) y by (simp add: fl_pos True)
  next
    case False
    let ?u = "unit_exp x" and ?v = "unit_exp y"
    have v: "?v = exponent y - 52" "?u < ?v" "exponent x < exponent y" "?u \<le> exponent y"
      using False e assms(1) y by (auto simp: unit_exp_def max_def split: if_splits)
    have "x < 2 powi (exponent x + 1)" by (rule exponent_bounds(2) [OF assms(1)])
    also have "\<dots> \<le> 2 powi exponent y" using v(3) by (intro powi_mono) simp
    finally have "x / 2 powi ?u \<le> 2 powi exponent y / 2 powi ?u" by (intro divide_right_mono) simp_all
    also have "\<dots> = of_int (2 ^ nat (exponent y - ?u))"
      using v(4) by (simp flip: power_int_diff) (simp add: power_int_def)
    finally have "round_even (x / 2 powi ?u) \<le> 2 ^ nat (exponent y - ?u)"
      using round_even_mono round_even_int by metis
    then have "(of_int (round_even (x / 2 powi ?u)) :: rat) \<le> of_int (2 ^ nat (exponent y - ?u))"
      by (simp only: of_int_le_iff)
    then have "fl x \<le> of_int (2 ^ nat (exponent y - ?u)) * 2 powi ?u"
      unfolding fl_pos [OF assms(1)] by (intro mult_right_mono) simp_all
    also have "\<dots> = 2 powi exponent y" by (rule powi_of_int_mult [OF v(4)])
    finally have below: "fl x \<le> 2 powi exponent y" .
    have "of_int (2 ^ 52) * 2 powi ?v = (2 powi exponent y :: rat)"
      unfolding v(1) by (simp add: power_int_diff)
    moreover have "of_int (2 ^ 52) \<le> y / 2 powi ?v"
      using exponent_bounds(1) [OF y] calculation by (simp add: pos_le_divide_eq)
    then have "2 ^ 52 \<le> round_even (y / 2 powi ?v)" using round_even_mono round_even_int by metis
    then have "(of_int (2 ^ 52) :: rat) \<le> of_int (round_even (y / 2 powi ?v))" by (simp only: of_int_le_iff)
    then have "of_int (2 ^ 52) * 2 powi ?v \<le> fl y" unfolding fl_pos [OF y] by (intro mult_right_mono) simp_all
    ultimately show ?thesis using below by simp
  qed
qed

lemma fl_mono: "0 \<le> x \<Longrightarrow> x \<le> y \<Longrightarrow> fl x \<le> fl y"
  using fl_mono_pos [of x y] fl_nonneg [of y] by (cases "x = 0") simp_all

lemma fl_le_nat: "0 \<le> x \<Longrightarrow> x \<le> of_nat n \<Longrightarrow> n < 2 ^ 53 \<Longrightarrow> fl x \<le> of_nat n"
  using fl_mono [of x "of_nat n"] fl_nat [of n] by simp

lemma fl_ge_nat: "of_nat n \<le> x \<Longrightarrow> n < 2 ^ 53 \<Longrightarrow> of_nat n \<le> fl x"
  using fl_mono [of "of_nat n" x] fl_nat [of n] by simp

lemma fl_near:
  assumes "0 \<le> x" and "x < 1024"
  shows "\<bar>fl x - x\<bar> \<le> 1 / 2 ^ 44"
proof (cases "x = 0")
  case False
  then have pos: "0 < x" using assms(1) by simp
  have "x < 2 powi (9 + 1)" using assms(2) by (simp add: power_int_def)
  from exponent_below [OF pos this] have u: "unit_exp x \<le> - 43" using pos by (simp add: unit_exp_def)
  let ?u = "2 powi unit_exp x :: rat"
  have "fl x - x = (of_int (round_even (x / ?u)) - x / ?u) * ?u" using pos by (simp add: fl_pos field_simps)
  then have "\<bar>fl x - x\<bar> = \<bar>of_int (round_even (x / ?u)) - x / ?u\<bar> * ?u" by (simp add: abs_mult)
  also have "\<dots> \<le> 1 / 2 * ?u" using round_even_near by (intro mult_right_mono) simp_all
  also have "\<dots> \<le> 1 / 2 * 2 powi (- 43)" using powi_mono [OF u] by simp
  finally show ?thesis by (simp add: power_int_def power_divide)
qed simp

end
