(* ===== verification/Report.thy ===== *)
theory Report
  imports Widgets Doubles
begin

text \<open>
  \<open>Report.jsx\<close>: the bar chart, the donut, the statistics cards, the per-job table and the
  export.  The numbers of the report API are typed here: counts are naturals, rates and
  durations rationals (every double is one).  The bar chart computes as the source does, in doubles
  (\<open>Doubles\<close>); the donut and the durations are the exact values of their expressions.
\<close>

section \<open>The data of the report API\<close>

record point =
  pt_date :: string
  pt_total :: nat
  pt_success :: nat
  pt_failure :: nat

record summary =
  sm_total :: nat
  sm_success :: nat
  sm_failure :: nat
  sm_running :: nat
  sm_active_jobs :: nat
  sm_rate :: rat
  sm_avg_ms :: rat

record job_stat =
  js_id :: string
  js_name :: string
  js_status :: string
  js_cron :: string
  js_total :: nat
  js_success :: nat
  js_failure :: nat
  js_rate :: rat
  js_avg_ms :: rat
  js_last_run :: jsval

section \<open>BarChart\<close>

definition W :: rat where "W = 700"
definition H :: rat where "H = 140"
definition PAD_B :: rat where "PAD_B = 28"
definition PAD_T :: rat where "PAD_T = 8"
definition BAR_GAP :: rat where "BAR_GAP = 2"

definition maxTotal :: "point list \<Rightarrow> nat" where
  "maxTotal data = fold max (map pt_total data) 1"

definition barW :: "point list \<Rightarrow> rat" where
  "barW data = ddiv (dsub W (dmul BAR_GAP (dsub (of_nat (length data)) 1))) (of_nat (length data))"

definition chartH :: rat where
  "chartH = dsub (dsub H PAD_B) PAD_T"

definition labelStep :: "point list \<Rightarrow> nat" where
  "labelStep data = nat \<lceil>of_nat (length data) / (10 :: rat)\<rceil>"

definition bar_x :: "point list \<Rightarrow> nat \<Rightarrow> rat" where
  "bar_x data i = dmul (of_nat i) (dadd (barW data) BAR_GAP)"

definition bar_height :: "point list \<Rightarrow> nat \<Rightarrow> rat" where
  "bar_height data n = dmul (ddiv (of_nat n) (of_nat (maxTotal data))) chartH"

text \<open>\<open>PAD_T + chartH - h\<close>\<close>

definition bar_y :: "rat \<Rightarrow> rat" where
  "bar_y h = dsub (dadd PAD_T chartH) h"

definition rect :: "rat \<Rightarrow> rat \<Rightarrow> rat \<Rightarrow> rat \<Rightarrow> string \<Rightarrow> 'e node" where
  "rect x y width height fill =
     Elem ''rect'' [NumAttr ''x'' x, NumAttr ''y'' y, NumAttr ''width'' width, NumAttr ''height'' height,
       Attr ''fill'' fill, Attr ''rx'' ''1''] []"

definition chart_bar :: "point list \<Rightarrow> nat \<Rightarrow> point \<Rightarrow> 'e node" where
  "chart_bar data i d =
     (let x = bar_x data i;
          totalH = bar_height data (pt_total d);
          successH = bar_height data (pt_success d);
          failH = bar_height data (pt_failure d)
      in Elem ''g'' []
        (show_if (failH > 0) [rect x (bar_y failH) (barW data) failH ''#f87171'']
         @ show_if (successH > 0) [rect x (bar_y totalH) (barW data) successH ''#34d399'']
         @ show_if (i mod labelStep data = 0)
             [Elem ''text'' [NumAttr ''x'' (dadd x (ddiv (barW data) 2)), NumAttr ''y'' (dsub H 6),
                Attr ''textAnchor'' ''middle'', Attr ''fontSize'' ''9'', Attr ''fill'' ''#94a3b8'']
               [Text (drop 5 (pt_date d))]]))"

definition BarChart :: "point list \<Rightarrow> 'e node list" where
  "BarChart data =
     (if data = [] then []
      else [Elem ''svg'' [Attr ''viewBox'' ''0 0 700 140'', NumAttr ''height'' H]
             (map (\<lambda>(i, d). chart_bar data i d) (enumerate 0 data))])"

section \<open>DonutChart\<close>

text \<open>\<open>Math.PI\<close>, the double.\<close>

definition MATH_PI :: rat where
  "MATH_PI = 884279719003555 / 281474976710656"

definition donut_R :: rat where "donut_R = 52"

definition circ :: rat where
  "circ = 2 * MATH_PI * donut_R"

definition donut_arc :: "rat \<Rightarrow> rat" where
  "donut_arc rate = rate / 100 * circ"

definition donut_color :: "rat \<Rightarrow> string" where
  "donut_color rate = (if rate \<ge> 90 then ''#34d399'' else if rate \<ge> 70 then ''#fbbf24'' else ''#f87171'')"

text \<open>\<open>strokeDasharray\<close> is the pair of the dash and the gap.\<close>

definition DonutChart :: "rat \<Rightarrow> 'e node list" where
  "DonutChart rate =
     [Elem ''svg'' [Attr ''viewBox'' ''0 0 128 128'']
       [Elem ''circle'' [Attr ''cx'' ''64'', Attr ''cy'' ''64'', NumAttr ''r'' donut_R, Attr ''fill'' ''none'',
          Attr ''stroke'' ''#e2e8f0'', NumAttr ''strokeWidth'' 16] [],
        Elem ''circle'' [Attr ''cx'' ''64'', Attr ''cy'' ''64'', NumAttr ''r'' donut_R, Attr ''fill'' ''none'',
          Attr ''stroke'' (donut_color rate), NumAttr ''strokeWidth'' 16,
          NumAttr ''dash'' (donut_arc rate), NumAttr ''gap'' (circ - donut_arc rate),
          Attr ''strokeLinecap'' ''round'', Attr ''transform'' ''rotate(-90 64 64)''] [],
        Elem ''text'' [Attr ''x'' ''64'', Attr ''y'' ''60'', Attr ''textAnchor'' ''middle'', Attr ''fontSize'' ''18'',
          Attr ''fill'' ''#1e293b''] [Text (to_fixed 0 rate), Text ''%''],
        Elem ''text'' [Attr ''x'' ''64'', Attr ''y'' ''76'', Attr ''textAnchor'' ''middle'', Attr ''fontSize'' ''9'',
          Attr ''fill'' ''#94a3b8''] [Text ''success'']]]"

section \<open>StatCard\<close>

definition colors :: "string \<rightharpoonup> string" where
  "colors = map_of
    [(''sky'', ''bg-sky-50 text-sky-600''), (''green'', ''bg-green-50 text-green-600''),
     (''red'', ''bg-red-50 text-red-600''), (''amber'', ''bg-amber-50 text-amber-600'')]"

definition StatCard :: "string \<Rightarrow> string \<Rightarrow> string option \<Rightarrow> string \<Rightarrow> 'e node" where
  "StatCard label value sub color =
     Elem ''div'' []
      [Elem ''div'' [Attr ''className''
         (''w-10 h-10 rounded-lg flex items-center justify-center shrink-0 ''
          @ (case colors color of Some c \<Rightarrow> c | None \<Rightarrow> ''undefined''))] [],
       Elem ''div'' []
        ([Elem ''p'' [] [Text value], Elem ''p'' [] [Text label]]
         @ (case sub of None \<Rightarrow> [] | Some t \<Rightarrow> show_if (t \<noteq> []) [Elem ''p'' [] [Text t]]))]"

section \<open>The page\<close>

record report_state =
  rp_days :: nat
  rp_job :: string
  rp_downloading :: bool

datatype report_event = PickDays | PickJob | Download

definition report_init :: report_state where
  "report_init = \<lparr>rp_days = 30, rp_job = [], rp_downloading = False\<rparr>"

definition day_options :: "nat list" where
  "day_options = [7, 14, 30, 90]"

text \<open>The period select only offers numerals, so \<open>Number\<close> is the value of a numeral.\<close>

fun Report_change :: "report_event \<Rightarrow> string \<Rightarrow> report_state \<Rightarrow> report_state" where
  "Report_change PickDays v s = (case digits_val 0 v of Some n \<Rightarrow> s\<lparr>rp_days := n\<rparr> | None \<Rightarrow> s)"
| "Report_change PickJob v s = s\<lparr>rp_job := v\<rparr>"
| "Report_change Download v s = s"

text \<open>\<open>handleDownload\<close> up to its \<open>await\<close>, and the \<open>finally\<close>
  block.\<close>

definition handleDownload :: "report_state \<Rightarrow> report_state \<times> request" where
  "handleDownload s = (s\<lparr>rp_downloading := True\<rparr>, downloadCsv_request (Some (rp_job s)) (Some (rp_days s)))"

definition downloaded :: "report_state \<Rightarrow> report_state" where
  "downloaded s = s\<lparr>rp_downloading := False\<rparr>"

definition Report_queries :: "report_state \<Rightarrow> (query_key \<times> call) list" where
  "Report_queries s =
     [([''report-summary''], getReportSummary),
      ([''report-timeline'', nat_string (rp_days s)], getReportTimeline (Some (rp_days s))),
      ([''report-jobs''], getReportJobs)]"

definition duration_text :: "rat \<Rightarrow> string" where
  "duration_text ms =
     (if ms \<ge> 1000 then to_fixed 1 (ms / 1000) @ ''s'' else int_string (math_round ms) @ ''ms'')"

definition rate_of :: "summary option \<Rightarrow> rat" where
  "rate_of sm = (case sm of None \<Rightarrow> 0 | Some d \<Rightarrow> sm_rate d)"

definition avgDisplay :: "summary option \<Rightarrow> string" where
  "avgDisplay sm = duration_text (case sm of None \<Rightarrow> 0 | Some d \<Rightarrow> sm_avg_ms d)"

definition count_or :: "string \<Rightarrow> (summary \<Rightarrow> nat) \<Rightarrow> summary option \<Rightarrow> string" where
  "count_or dflt f sm = (case sm of None \<Rightarrow> dflt | Some d \<Rightarrow> nat_string (f d))"

definition rate_class :: "string \<Rightarrow> string \<Rightarrow> string \<Rightarrow> rat \<Rightarrow> string" where
  "rate_class good fair bad r = (if r \<ge> 90 then good else if r \<ge> 70 then fair else bad)"

definition job_stat_row :: "dates \<Rightarrow> job_stat \<Rightarrow> 'e node" where
  "job_stat_row fmt j =
     (let r = js_rate j;
          bar = rate_class ''bg-green-400'' ''bg-amber-400'' ''bg-red-400'' r;
          text = rate_class ''text-green-700'' ''text-amber-700'' ''text-red-700'' r;
          dur = duration_text (js_avg_ms j)
      in Elem ''tr'' []
        [Elem ''td'' [] [Elem ''p'' [] [Text (js_name j)],
           Elem ''p'' [Attr ''className'' (''text-xs capitalize ''
             @ (if js_status j = ''active'' then ''text-green-600'' else ''text-gray-400''))] [Text (js_status j)]],
         Elem ''td'' [] [Text (js_cron j)],
         Elem ''td'' [] [Elem ''span'' [] [Text (nat_string (js_total j))],
           Elem ''span'' [] [Text ''('', Text (nat_string (js_success j)), Text (check_mark @ '' ''),
             Text (nat_string (js_failure j)), Text (cross_mark @ '')'')]],
         Elem ''td'' []
           (if js_total j > 0 then
              [Elem ''div'' []
                [Elem ''div'' [] [Elem ''div'' [Attr ''className'' (''h-full '' @ bar @ '' rounded-full''), NumAttr ''width%'' r] []],
                 Elem ''span'' [Attr ''className'' (''text-xs font-medium '' @ text @ '' w-10 text-right'')]
                   [Text (to_fixed 1 r), Text ''%'']]]
            else [Elem ''span'' [] [Text ''no runs'']]),
         Elem ''td'' [] [if js_total j > 0 then Text dur else Elem ''span'' [] [Text em_dash]],
         Elem ''td'' []
           [if truthy (js_last_run j) then Text (ago fmt (js_last_run j)) else Elem ''span'' [] [Text ''never'']]])"

definition day_option :: "nat \<Rightarrow> 'e node" where
  "day_option n = Elem ''option'' [Attr ''option-value'' (nat_string n)] [Text (''Last '' @ nat_string n @ '' days'')]"

definition job_option :: "job_stat \<Rightarrow> 'e node" where
  "job_option j = Elem ''option'' [Attr ''option-value'' (js_id j)] [Text (js_name j)]"

definition legend_line :: "string \<Rightarrow> string \<Rightarrow> 'e node" where
  "legend_line label value = Elem ''div'' [] [Elem ''span'' [] [Text label], Elem ''span'' [] [Text value]]"

definition report_header :: "report_state \<Rightarrow> job_stat list \<Rightarrow> report_event node" where
  "report_header s stats =
     Elem ''div'' []
      [Elem ''div'' [] [Elem ''h1'' [] [Text ''Reports''],
         Elem ''p'' [] [Text ''Execution history and job performance'']],
       Elem ''div'' []
        [Elem ''select'' [Attr ''value'' (nat_string (rp_days s)), On ''change'' PickDays] (map day_option day_options),
         Elem ''select'' [Attr ''value'' (rp_job s), On ''change'' PickJob]
           (Elem ''option'' [Attr ''option-value'' []] [Text ''All jobs''] # map job_option stats),
         Elem ''button'' [On ''click'' Download, Flag ''disabled'' (rp_downloading s)]
           [Text (if rp_downloading s then ''Exporting'' @ ellipsis else ''Export CSV'')]]]"

definition Report ::
    "dates \<Rightarrow> report_state \<Rightarrow> summary option \<Rightarrow> point list option \<Rightarrow> job_stat list option \<Rightarrow> report_event node list" where
  "Report fmt s sm timeline data =
     (let stats = (case data of None \<Rightarrow> [] | Some js \<Rightarrow> js); rate = rate_of sm in
      [Elem ''div'' []
        [report_header s stats,
         Elem ''div'' []
          [StatCard ''Total Executions'' (count_or em_dash sm_total sm) None ''sky'',
           StatCard ''Successful'' (count_or em_dash sm_success sm) (Some (to_fixed 1 rate @ ''% success rate'')) ''green'',
           StatCard ''Failed'' (count_or em_dash sm_failure sm) None ''red'',
           StatCard ''Avg Duration'' (if sm = None then em_dash else avgDisplay sm)
             (Some (count_or ''0'' sm_active_jobs sm @ '' active jobs'')) ''amber''],
         Elem ''div'' []
          [Elem ''div'' []
            (Elem ''div'' [] [Elem ''h2'' [] [Text ''Execution Timeline''],
               Elem ''div'' [] [Elem ''span'' [] [Text ''Success''], Elem ''span'' [] [Text ''Failure'']]]
             # (case timeline of
                  Some (d # ds) \<Rightarrow> BarChart (d # ds)
                | _ \<Rightarrow> [Elem ''div'' [] [Text ''No data yet'']])),
           Elem ''div'' []
            (Elem ''h2'' [] [Text ''Overall Success Rate'']
             # DonutChart rate
             @ [Elem ''div'' []
                  [legend_line ''Success'' (count_or ''0'' sm_success sm),
                   legend_line ''Failure'' (count_or ''0'' sm_failure sm),
                   legend_line ''Running'' (count_or ''0'' sm_running sm)]])],
         Elem ''div'' []
          [Elem ''div'' [] [Elem ''h2'' [] [Text ''Per-Job Performance'']],
           (if stats = [] then Elem ''div'' [] [Text ''No jobs yet'']
            else Elem ''table'' []
              [Elem ''thead'' [] [Elem ''tr'' []
                 (map (\<lambda>t. Elem ''th'' [] [Text t])
                   [''Job'', ''Schedule'', ''Executions'', ''Success Rate'', ''Avg Duration'', ''Last Run''])],
               Elem ''tbody'' [] (map (job_stat_row fmt) stats)])]]])"

section \<open>Facts about the chart\<close>

lemma fold_max_ge: "a \<le> fold max xs a" "x \<in> set xs \<Longrightarrow> x \<le> fold max xs (a :: nat)"
proof (induction xs arbitrary: a)
  case (Cons y xs)
  { case 1 show ?case using Cons.IH(1) [of "max y a"] by simp }
  { case 2 then show ?case
      using Cons.IH(1) [of "max y a"] Cons.IH(2) [of "max y a"] by (cases "x = y") auto }
qed simp_all

lemma maxTotal_pos: "0 < maxTotal data"
  using fold_max_ge(1) [of 1 "map pt_total data"] by (simp add: maxTotal_def)

lemma maxTotal_ge: "d \<in> set data \<Longrightarrow> pt_total d \<le> maxTotal data"
  unfolding maxTotal_def by (rule fold_max_ge(2)) simp

lemma chart_consts: "chartH = 104" "dadd PAD_T 104 = 112"
  by (simp_all add: chartH_def H_def PAD_B_def PAD_T_def dsub_def dadd_def fl_numeral)

lemma bar_y_112: "bar_y h = fl (112 - h)"
  by (simp add: bar_y_def chart_consts dsub_def)

lemma bar_height_mono: "m \<le> n \<Longrightarrow> bar_height data m \<le> bar_height data n"
  unfolding bar_height_def dmul_def ddiv_def chart_consts
  by (intro fl_mono mult_right_mono mult_nonneg_nonneg fl_nonneg divide_right_mono) simp_all

lemma bar_height_bounds:
  shows "0 \<le> bar_height data n" and "n \<le> maxTotal data \<Longrightarrow> bar_height data n \<le> 104"
proof -
  have nonneg: "0 \<le> fl (of_nat n / of_nat (maxTotal data))" by (intro fl_nonneg) simp
  then show "0 \<le> bar_height data n"
    unfolding bar_height_def dmul_def ddiv_def chart_consts by (intro fl_nonneg) simp
  assume "n \<le> maxTotal data"
  then have "(of_nat n / of_nat (maxTotal data) :: rat) \<le> of_nat 1" using maxTotal_pos [of data] by simp
  then have "fl (of_nat n / of_nat (maxTotal data)) \<le> of_nat 1" by (intro fl_le_nat) simp_all
  then have "fl (fl (of_nat n / of_nat (maxTotal data)) * 104) \<le> of_nat 104"
    using nonneg by (intro fl_le_nat) simp_all
  then show "bar_height data n \<le> 104" by (simp add: bar_height_def dmul_def ddiv_def chart_consts)
qed

lemma bar_y_bounds:
  assumes "0 \<le> h" and "h \<le> 104"
  shows "8 \<le> bar_y h" "bar_y h \<le> 112" "bar_y h + h \<le> 112 + 1 / 2 ^ 44" "112 \<le> bar_y h + h + 1 / 2 ^ 44"
proof -
  have "of_nat 8 \<le> fl (112 - h)" by (rule fl_ge_nat) (use assms in simp_all)
  then show "8 \<le> bar_y h" by (simp add: bar_y_112)
  have "fl (112 - h) \<le> of_nat 112" by (rule fl_le_nat) (use assms in simp_all)
  then show "bar_y h \<le> 112" by (simp add: bar_y_112)
  have "\<bar>bar_y h - (112 - h)\<bar> \<le> 1 / 2 ^ 44" unfolding bar_y_112 by (rule fl_near) (use assms in simp_all)
  then show "bar_y h + h \<le> 112 + 1 / 2 ^ 44" "112 \<le> bar_y h + h + 1 / 2 ^ 44"
    unfolding abs_le_iff by linarith+
qed

text \<open>The width of a bar: the quotient of two whole numbers, rounded once.\<close>

definition exactW :: "nat \<Rightarrow> rat" where
  "exactW n = (702 - 2 * of_nat n) / of_nat n"

lemma barW_rounded:
  assumes "0 < length data" and "length data \<le> 234"
  shows "barW data = fl (exactW (length data))"
proof -
  obtain k where k: "length data = Suc k" using assms(1) by (cases "length data") auto
  then have small: "k \<le> 233" using assms(2) by simp
  have 1: "dsub (of_nat (Suc k)) 1 = of_nat k" using fl_nat [of k] small by (simp add: dsub_def)
  have 2: "dmul 2 (of_nat k) = 2 * of_nat k" using fl_nat [of "2 * k"] small by (simp add: dmul_def)
  have "(of_nat (700 - 2 * k) :: rat) = 700 - 2 * of_nat k" using small by (simp add: of_nat_diff)
  then have 3: "dsub 700 (2 * of_nat k) = 700 - 2 * of_nat k"
    using fl_nat [of "700 - 2 * k"] small by (simp add: dsub_def)
  show ?thesis unfolding barW_def W_def BAR_GAP_def k 1 2 3 ddiv_def exactW_def by simp
qed

lemma bar_x_bounds:
  assumes "i < length data" and "length data \<le> 234"
  shows "0 \<le> bar_x data i" "1 \<le> barW data" "bar_x data i + barW data \<le> 700 + 1 / 10 ^ 9"
proof -
  let ?n = "length data" and ?d = "1 / 2 ^ 44 :: rat"
  let ?q = "exactW ?n"
  have "(of_nat ?n :: rat) \<le> of_nat 234" using assms(2) by (simp only: of_nat_le_iff)
  moreover have "0 < ?n" using assms(1) by (cases data) simp_all
  ultimately have n: "0 < ?n" "(of_nat ?n :: rat) \<le> 234" "(0 :: rat) < of_nat ?n" by simp_all
  have q: "of_nat 1 \<le> ?q" "of_nat ?n * (?q + 2) = 702"
    using n by (simp_all add: exactW_def field_simps)
  have n1: "1 \<le> (of_nat ?n :: rat)" using n(3) by (cases ?n) simp_all
  have "?q + 2 \<le> of_nat ?n * (?q + 2)" using mult_right_mono [OF n1, of "?q + 2"] q(1) by simp
  then have qle: "?q \<le> 700" using q(2) by simp
  have B: "barW data = fl ?q" by (rule barW_rounded [OF n(1) assms(2)])
  then show "1 \<le> barW data" using fl_ge_nat [OF q(1)] by simp
  have "\<bar>fl ?q - ?q\<bar> \<le> ?d" by (rule fl_near) (use q(1) qle in simp_all)
  then have e1: "barW data \<le> ?q + ?d" unfolding B abs_le_iff by linarith
  have "fl ?q \<le> of_nat 700" by (rule fl_le_nat) (use q(1) qle in simp_all)
  then have b700: "barW data \<le> 700" by (simp add: B)
  let ?s = "dadd (barW data) BAR_GAP"
  have "\<bar>fl (barW data + 2) - (barW data + 2)\<bar> \<le> ?d"
    by (rule fl_near) (use \<open>1 \<le> barW data\<close> b700 in simp_all)
  then have "?s \<le> barW data + 2 + ?d" unfolding dadd_def BAR_GAP_def abs_le_iff by linarith
  then have s: "?s \<le> ?q + 2 + 2 * ?d" using e1 by linarith
  have s0: "0 \<le> ?s" unfolding dadd_def BAR_GAP_def using \<open>1 \<le> barW data\<close> by (intro fl_nonneg) simp
  then show "0 \<le> bar_x data i" unfolding bar_x_def dmul_def by (intro fl_nonneg) simp
  have "(of_nat (Suc i) :: rat) \<le> of_nat ?n" using assms(1) by (simp only: of_nat_le_iff Suc_le_eq)
  then have i: "(of_nat i :: rat) + 1 \<le> of_nat ?n" "(of_nat i :: rat) \<le> 234" "(0 :: rat) \<le> of_nat i"
    using n(2) by simp_all
  have "(of_nat i + 1) * (?q + 2) \<le> of_nat ?n * (?q + 2)" by (rule mult_right_mono [OF i(1)]) (use q(1) in simp)
  then have span: "of_nat i * (?q + 2) + ?q \<le> 700" using q(2) by (simp add: algebra_simps)
  have "of_nat i * ?s \<le> of_nat i * (?q + 2 + 2 * ?d)" by (rule mult_left_mono [OF s i(3)])
  also have "\<dots> = of_nat i * (?q + 2) + of_nat i * (2 * ?d)" by (simp add: algebra_simps)
  also have "of_nat i * (2 * ?d) \<le> 234 * (2 * ?d)" by (rule mult_right_mono [OF i(2)]) simp
  finally have upper: "of_nat i * ?s \<le> of_nat i * (?q + 2) + 468 * ?d" by linarith
  have "468 * ?d \<le> 1" by simp
  then have "of_nat i * ?s < 1024" using upper span q(1) by linarith
  moreover have "0 \<le> of_nat i * ?s" using i(3) s0 by simp
  ultimately have "\<bar>fl (of_nat i * ?s) - of_nat i * ?s\<bar> \<le> ?d" by (intro fl_near)
  then have "bar_x data i \<le> of_nat i * ?s + ?d" unfolding bar_x_def dmul_def abs_le_iff by linarith
  then have "bar_x data i + barW data \<le> 700 + 470 * ?d" using upper span e1 by linarith
  also have "470 * ?d \<le> 1 / 10 ^ 9" by simp
  finally show "bar_x data i + barW data \<le> 700 + 1 / 10 ^ 9" by simp
qed

text \<open>The boxes of the rectangles a view draws: left, top, width, height.\<close>

fun attr_num :: "string \<Rightarrow> 'e attr list \<Rightarrow> rat" where
  "attr_num k [] = 0"
| "attr_num k (NumAttr k' q # as) = (if k' = k then q else attr_num k as)"
| "attr_num k (_ # as) = attr_num k as"

fun node_boxes :: "'e node \<Rightarrow> (rat \<times> rat \<times> rat \<times> rat) list" where
  "node_boxes (Text _) = []"
| "node_boxes (Elem tag as kids) =
     (if tag = ''rect'' then [(attr_num ''x'' as, attr_num ''y'' as, attr_num ''width'' as, attr_num ''height'' as)]
      else []) @ concat (map node_boxes kids)"

text \<open>The labels under the bars.\<close>

fun node_labels :: "'e node \<Rightarrow> string list" where
  "node_labels (Text _) = []"
| "node_labels (Elem tag as kids) =
     (if tag = ''text'' then concat (map node_texts kids) else []) @ concat (map node_labels kids)"

lemma boxes_bar:
  "node_boxes (chart_bar data i d) =
     (if 0 < bar_height data (pt_failure d)
      then [(bar_x data i, bar_y (bar_height data (pt_failure d)), barW data, bar_height data (pt_failure d))]
      else []) @
     (if 0 < bar_height data (pt_success d)
      then [(bar_x data i, bar_y (bar_height data (pt_total d)), barW data, bar_height data (pt_success d))]
      else [])"
  by (simp add: chart_bar_def rect_def Let_def show_if_def)

lemma labels_bar:
  "node_labels (chart_bar data i d) = (if i mod labelStep data = 0 then [drop 5 (pt_date d)] else [])"
  by (simp add: chart_bar_def rect_def Let_def show_if_def)

section \<open>Properties\<close>

text \<open>The bar chart draws inside its picture, up to the rounding.  For up to 234 days whose successes and
  failures do not exceed the total, every rectangle is at least one unit wide, starts within the 700 units of
  the view box and below the top padding, is no higher than the plot, and ends at most a billionth of a unit
  to the right of the picture or below the plot.\<close>

definition in_picture :: "rat \<times> rat \<times> rat \<times> rat \<Rightarrow> bool" where
  "in_picture = (\<lambda>(x, y, w, h). 0 \<le> x \<and> x + w \<le> 700 + 1 / 10 ^ 9 \<and> 8 \<le> y \<and> y + h \<le> 112 + 1 / 10 ^ 9 \<and>
     1 \<le> w \<and> 0 < h \<and> h \<le> 104)"

lemma bars_inside:
  assumes "\<forall>d \<in> set data. pt_success d + pt_failure d \<le> pt_total d" and "length data \<le> 234"
  shows "list_all in_picture (concat (map node_boxes (BarChart data :: 'e node list)))"
proof (cases "data = []")
  case False
  have one: "\<forall>b \<in> set (node_boxes (chart_bar data i d :: 'e node)). in_picture b"
    if i: "i < length data" and d: "d = data ! i" for i d
  proof -
    have mem: "d \<in> set data" using i d by simp
    then have sums: "pt_success d \<le> pt_total d" "pt_failure d \<le> pt_total d" "pt_total d \<le> maxTotal data"
      using assms(1) maxTotal_ge by force+
    note fail = bar_height_bounds [where n = "pt_failure d" and data = data] and
      total = bar_height_bounds [where n = "pt_total d" and data = data]
    have "bar_height data (pt_success d) \<le> bar_height data (pt_total d)" by (rule bar_height_mono [OF sums(1)])
    then show ?thesis
      using bar_x_bounds [OF i assms(2)] bar_y_bounds [of "bar_height data (pt_failure d)"]
        bar_y_bounds [of "bar_height data (pt_total d)"] fail total sums
      by (auto simp: boxes_bar in_picture_def)
  qed
  have "concat (map node_boxes (BarChart data :: 'e node list)) =
      concat (map (\<lambda>(i, d). node_boxes (chart_bar data i d :: 'e node)) (enumerate 0 data))"
    using False by (simp add: BarChart_def comp_def case_prod_beta')
  then show ?thesis
    using one by (auto simp: list_all_iff in_set_enumerate_eq)
qed (simp add: BarChart_def)

text \<open>The two parts of a bar share their place and width, and the success rectangle starts above the failure
  rectangle or with it.\<close>

theorem bars_stacked:
  assumes "pt_success d + pt_failure d \<le> pt_total d" and "pt_total d \<le> maxTotal data"
    and "node_boxes (chart_bar data i d) = [(x, y, w, h), (x', y', w', h')]"
  shows "x' = x \<and> w' = w \<and> y' \<le> y"
proof -
  have *: "y = bar_y (bar_height data (pt_failure d))" "y' = bar_y (bar_height data (pt_total d))" "x' = x" "w' = w"
    using assms(3) by (auto simp: boxes_bar split: if_splits)
  have "bar_height data (pt_failure d) \<le> bar_height data (pt_total d)"
    using assms(1) by (intro bar_height_mono) simp
  then have "y' \<le> y" unfolding * bar_y_112 using bar_height_bounds(2) [OF assms(2)] by (intro fl_mono) simp_all
  then show ?thesis using * by simp
qed

text \<open>The labels of the bar chart are the month and day of every n-th bar from the first on, and
  whatever the number of days there are at most ten of them.\<close>

theorem chart_labels:
  "concat (map node_labels (BarChart data :: 'e node list)) =
     map (\<lambda>i. drop 5 (pt_date (data ! i))) (filter (\<lambda>i. i mod labelStep data = 0) [0..<length data]) \<and>
   length (concat (map node_labels (BarChart data :: 'e node list))) \<le> 10"
proof -
  let ?is = "filter (\<lambda>i. i mod labelStep data = 0) [0..<length data]"
  have eq: "concat (map node_labels (BarChart data :: 'e node list)) = map (\<lambda>i. drop 5 (pt_date (data ! i))) ?is"
    using map_enumerate [of "\<lambda>i d. node_labels (chart_bar data i d :: 'e node)" data]
    by (simp add: BarChart_def comp_def case_prod_beta' labels_bar concat_map_if)
  have "set ?is \<subseteq> (\<lambda>k. k * labelStep data) ` {..<10}"
  proof
    fix i assume i: "i \<in> set ?is"
    have "(of_nat (length data) / 10 :: rat) \<le> of_nat (labelStep data)"
      unfolding labelStep_def by (rule of_nat_ceiling)
    then have "(of_nat (length data) :: rat) \<le> of_nat (10 * labelStep data)" by simp
    then have "length data \<le> 10 * labelStep data" by (simp only: of_nat_le_iff)
    with i have "i div labelStep data < 10" by (intro less_mult_imp_div_less) simp
    moreover have "i = i div labelStep data * labelStep data" using i by auto
    ultimately show "i \<in> (\<lambda>k. k * labelStep data) ` {..<10}" by blast
  qed
  then have "card (set ?is) \<le> card ((\<lambda>k. k * labelStep data) ` {..<10})"
    by (intro card_mono) simp_all
  also have "\<dots> \<le> 10" using card_image_le [of "{..<10}" "\<lambda>k. k * labelStep data"] by simp
  finally have "length ?is \<le> 10" using distinct_card [of ?is] by simp
  with eq show ?thesis by simp
qed

text \<open>The durations shown on the report page.  Below a second a duration is shown in whole
  milliseconds, at most half a millisecond off; from a second on in seconds with one decimal, at most
  fifty milliseconds off.\<close>

theorem duration_display:
  assumes "0 \<le> ms"
  shows "if ms < 1000
    then \<exists>n. duration_text ms = nat_string n @ ''ms'' \<and> \<bar>of_nat n - ms\<bar> \<le> 1 / 2
    else \<exists>q r. r < 10 \<and> duration_text ms = nat_string q @ ''.'' @ nat_string r @ ''s'' \<and>
      \<bar>of_nat (1000 * q + 100 * r) - ms\<bar> \<le> 50"
proof (cases "ms < 1000")
  case True
  let ?n = "nat \<lfloor>ms + 1 / 2\<rfloor>"
  have "0 \<le> \<lfloor>ms + 1 / 2\<rfloor>" using assms by simp
  then have "duration_text ms = nat_string ?n @ ''ms''"
    using True by (simp add: duration_text_def math_round_def int_string_def)
  moreover have "\<bar>of_nat ?n - ms\<bar> \<le> 1 / 2"
    using assms by (rule nearest_nat)
  ultimately show ?thesis using True by auto
next
  case False
  define N where "N = nat \<lfloor>ms / 100 + 1 / 2\<rfloor>"
  have "duration_text ms = nat_string (N div 10) @ ''.'' @ nat_string (N mod 10) @ ''s''"
    using False by (simp add: duration_text_def to_fixed_def N_def [symmetric] place_point_1 flip: One_nat_def)
  moreover have "\<bar>of_nat N - ms / 100\<bar> \<le> 1 / 2"
    using nearest_nat [of "ms / 100"] assms unfolding N_def by simp
  then have "\<bar>of_nat (1000 * (N div 10) + 100 * (N mod 10)) - ms\<bar> \<le> 50"
  proof -
    have "1000 * (N div 10) + 100 * (N mod 10) = 100 * N"
      using div_mult_mod_eq [of N 10] by linarith
    then have "(of_nat (1000 * (N div 10) + 100 * (N mod 10)) :: rat) = 100 * of_nat N"
      by (metis of_nat_mult of_nat_numeral)
    then show ?thesis
      using \<open>\<bar>of_nat N - ms / 100\<bar> \<le> 1 / 2\<close> unfolding abs_le_iff by linarith
  qed
  moreover have "N mod 10 < 10" by simp
  ultimately show ?thesis using False by metis
qed

theorem duration_display_witness:
  "\<exists>q r. r < 10 \<and> duration_text 1250 = nat_string q @ ''.'' @ nat_string r @ ''s'' \<and>
     \<bar>of_nat (1000 * q + 100 * r) - 1250\<bar> \<le> (50 :: rat)"
  using duration_display [of 1250] by simp

end
