(* ===== verification/ReportApi.thy ===== *)
theory ReportApi
  imports JobsApi Report
begin

text \<open>
  The report handlers of the Go API, \<open>handler/report.go\<close>, and their fit with the report page.  The
  numbers are typed as on the page (see \<open>Report\<close>): the fields of a reply are those of the JSON object
  with the same meaning.  Dates come from the clock: \<open>recent e\<close> says whether an execution started within
  the period, \<open>date_back k\<close> is the date \<open>k\<close> days ago.
\<close>

section \<open>Summary\<close>

definition with_status :: "string \<Rightarrow> execution list \<Rightarrow> nat" where
  "with_status s es = length (filter (\<lambda>e. ex_status e = s) es)"

definition avg_duration :: "execution list \<Rightarrow> rat" where
  "avg_duration es =
     (let ds = List.map_filter ex_duration es in
      if ds = [] then 0 else of_int (sum_list ds) / of_nat (length ds))"

definition success_rate :: "nat \<Rightarrow> nat \<Rightarrow> rat" where
  "success_rate success failure =
     (let completed = success + failure in
      if completed > 0 then of_nat success / of_nat completed * 100 else 0)"

text \<open>The reply also counts all jobs and the paused ones, which the page does not read.\<close>

record report_summary = summary +
  sm_total_jobs :: nat
  sm_paused_jobs :: nat

definition ReportSummary :: "string \<Rightarrow> db \<Rightarrow> report_summary" where
  "ReportSummary uid d =
     (let es = user_execs uid d; jobs = filter (\<lambda>j. jb_user j = Some uid) (db_jobs d) in
      \<lparr>sm_total = length es, sm_success = with_status ''success'' es, sm_failure = with_status ''failure'' es,
       sm_running = with_status ''running'' es,
       sm_active_jobs = length (filter (\<lambda>j. jb_status j = ''active'') jobs),
       sm_rate = success_rate (with_status ''success'' es) (with_status ''failure'' es),
       sm_avg_ms = avg_duration es, sm_total_jobs = length jobs,
       sm_paused_jobs = length (filter (\<lambda>j. jb_status j = ''paused'') jobs)\<rparr>)"

section \<open>Timeline\<close>

definition timeline_days :: "string \<Rightarrow> nat" where
  "timeline_days q = (let days = go_atoi q in if days \<le> 0 \<or> days > 90 then 30 else nat days)"

text \<open>\<open>DATE(started_at)\<close> is the date of the text of a time.\<close>

definition ex_day :: "execution \<Rightarrow> string" where
  "ex_day e = take 10 (ex_started e)"

text \<open>The rows of the query: one for every day with executions.\<close>

definition day_point :: "execution list \<Rightarrow> string \<Rightarrow> point" where
  "day_point es day =
     (let on_day = filter (\<lambda>e. ex_day e = day) es in
      \<lparr>pt_date = day, pt_total = length on_day, pt_success = with_status ''success'' on_day,
       pt_failure = with_status ''failure'' on_day\<rparr>)"

definition timeline_rows :: "(execution \<Rightarrow> bool) \<Rightarrow> string \<Rightarrow> db \<Rightarrow> point list" where
  "timeline_rows recent uid d =
     (let es = filter recent (user_execs uid d) in map (day_point es) (remdups (map ex_day es)))"

definition byDate :: "point list \<Rightarrow> string \<rightharpoonup> point" where
  "byDate rows = map_of (rev (map (\<lambda>p. (pt_date p, p)) rows))"

definition ReportTimeline ::
    "(execution \<Rightarrow> bool) \<Rightarrow> (nat \<Rightarrow> string) \<Rightarrow> string \<Rightarrow> string \<Rightarrow> db \<Rightarrow> point list" where
  "ReportTimeline recent date_back uid query_days d =
     (let days = timeline_days query_days; rows = byDate (timeline_rows recent uid d) in
      map (\<lambda>i. let date = date_back (days - 1 - i) in
             case rows date of
               Some p \<Rightarrow> p
             | None \<Rightarrow> \<lparr>pt_date = date, pt_total = 0, pt_success = 0, pt_failure = 0\<rparr>) [0..<days])"

section \<open>Per-job statistics\<close>

definition ReportJobs :: "string \<Rightarrow> db \<Rightarrow> job_stat list" where
  "ReportJobs uid d =
     map (\<lambda>j. let es = job_execs d j in
       \<lparr>js_id = jb_id j, js_name = jb_name j, js_status = jb_status j, js_cron = jb_cron j,
        js_total = length es, js_success = with_status ''success'' es, js_failure = with_status ''failure'' es,
        js_rate = success_rate (with_status ''success'' es) (with_status ''failure'' es),
        js_avg_ms = avg_duration es, js_last_run = opt_string (jb_last_run j)\<rparr>)
       (rev (filter (\<lambda>j. jb_user j = Some uid) (db_jobs d)))"

section \<open>Counting\<close>

lemma with_status_le: "with_status s es \<le> length es"
  by (simp add: with_status_def)

lemma with_status_disjoint:
  assumes "s \<noteq> t"
  shows "with_status s es + with_status t es \<le> length es"
  using assms by (induction es) (auto simp: with_status_def)

lemma with_status_three:
  assumes "distinct [s, t, u]"
  shows "with_status s es + with_status t es + with_status u es \<le> length es"
  using assms by (induction es) (auto simp: with_status_def)

lemma with_status_filter: "with_status s (filter P es) = length (filter P (filter (\<lambda>e. ex_status e = s) es))"
  by (simp add: with_status_def conj_commute)

lemma success_rate_range: "0 \<le> success_rate m n" "success_rate m n \<le> 100"
  by (simp_all add: success_rate_def Let_def field_simps)

lemma donut_arc_range:
  assumes "0 \<le> r" "r \<le> 100"
  shows "0 \<le> donut_arc r" "donut_arc r \<le> circ"
proof -
  have c: "0 \<le> circ" by (simp add: circ_def MATH_PI_def donut_R_def)
  then show "0 \<le> donut_arc r" using assms by (simp add: donut_arc_def)
  have "r / 100 * circ \<le> 1 * circ" using c assms by (intro mult_right_mono) simp_all
  then show "donut_arc r \<le> circ" by (simp add: donut_arc_def)
qed

text \<open>An element that satisfies one of several exclusive conditions is counted once.\<close>

lemma sum_exclusive:
  assumes "distinct ks"
  shows "sum_list (map (\<lambda>k. length (filter (\<lambda>e. g e = k) es)) ks) = length (filter (\<lambda>e. g e \<in> set ks) es)"
  using assms
proof (induction ks)
  case (Cons k ks)
  have "length (filter (\<lambda>e. g e = k) es) + length (filter (\<lambda>e. g e \<in> set ks) es) =
      length (filter (\<lambda>e. g e \<in> set (k # ks)) es)"
    using Cons.prems by (induction es) auto
  then show ?case using Cons by simp
qed simp

lemma list_ex_ids: "list_ex (\<lambda>j. f j = x \<and> P j) js \<longleftrightarrow> x \<in> set (map f (filter P js))"
  by (induction js) auto

lemma distinct_map_filter_id: "distinct (map f js) \<Longrightarrow> distinct (map f (filter P js))"
  by (induction js) auto

lemma job_counts:
  assumes "distinct (map jb_id (db_jobs d))"
  shows "sum_list (map (\<lambda>j. length (filter P (job_execs d j))) (rev (filter (\<lambda>j. jb_user j = Some uid) (db_jobs d)))) =
    length (filter P (user_execs uid d))"
proof -
  let ?js = "filter (\<lambda>j. jb_user j = Some uid) (db_jobs d)"
  have "sum_list (map (\<lambda>j. length (filter P (job_execs d j))) (rev ?js)) =
      sum_list (map (\<lambda>k. length (filter (\<lambda>e. ex_job e = k) (filter P (db_execs d)))) (map jb_id ?js))"
    by (simp add: rev_map [symmetric] sum_list_rev job_execs_def comp_def conj_commute del: rev_map)
  also have "\<dots> = length (filter (\<lambda>e. ex_job e \<in> set (map jb_id ?js)) (filter P (db_execs d)))"
    using assms by (intro sum_exclusive distinct_map_filter_id)
  also have "\<dots> = length (filter P (user_execs uid d))"
    by (simp add: user_execs_def list_ex_ids [of jb_id] conj_commute)
  finally show ?thesis .
qed

section \<open>The days of the timeline\<close>

lemma timeline_days_nat_string: "0 < n \<Longrightarrow> n \<le> 90 \<Longrightarrow> timeline_days (nat_string n) = n"
  by (simp add: timeline_days_def go_atoi_nat_string)

lemma pt_date_day_point [simp]: "pt_date (day_point es k) = k"
  by (simp add: day_point_def Let_def)

lemma map_of_day_points:
  "map_of (map (\<lambda>x. (x, day_point es x)) ds) k = (if k \<in> set ds then Some (day_point es k) else None)"
  by (induction ds) auto

lemma byDate_rows:
  "byDate (map (day_point es) ds) k = (if k \<in> set ds then Some (day_point es k) else None)"
  using map_of_day_points [of es "rev ds" k] by (simp add: byDate_def rev_map comp_def)

lemma ReportTimeline_points:
  "ReportTimeline recent date_back uid q d =
     map (\<lambda>i. day_point (filter recent (user_execs uid d)) (date_back (timeline_days q - 1 - i)))
       [0..<timeline_days q]"
proof -
  have "day_point es k = \<lparr>pt_date = k, pt_total = 0, pt_success = 0, pt_failure = 0\<rparr>"
    if "k \<notin> ex_day ` set es" for es k
  proof -
    have "filter (\<lambda>e. ex_day e = k) es = []" using that by (auto simp: filter_empty_conv)
    then show ?thesis by (simp add: day_point_def with_status_def)
  qed
  then show ?thesis
    by (simp add: ReportTimeline_def timeline_rows_def byDate_rows Let_def)
qed

lemma day_point_fits: "pt_success (day_point es k) + pt_failure (day_point es k) \<le> pt_total (day_point es k)"
  by (simp add: day_point_def Let_def with_status_disjoint)

section \<open>Properties\<close>

text \<open>C33: The timeline the server sends is what the chart can draw. For every period the page offers,
  sent as the page sends it, the reply has one point per day from the oldest to the present day, with the
  numbers of the recent executions of the user's jobs that started on it, of the successes and of the
  failures among them, and every recent execution of one of the days is counted once. Every rectangle the
  chart computes from it, in doubles, starts inside its picture of 700 by 140 and below the top padding, is
  at least one unit wide and no higher than the plot, and ends, but for a billionth of a unit of rounding,
  within the 700 units and above the labels.\<close>

theorem timeline_feeds_chart:
  assumes "n \<in> set day_options" and "inj_on date_back {..<n}"
  shows "let data = ReportTimeline recent date_back uid (nat_string n) d in
    map (\<lambda>p. (pt_date p, pt_total p, pt_success p, pt_failure p)) data =
      map (\<lambda>k. let on_day = filter (\<lambda>e. recent e \<and> ex_day e = date_back k \<and>
            (\<exists>j \<in> set (db_jobs d). jb_id j = ex_job e \<and> jb_user j = Some uid)) (db_execs d)
          in (date_back k, length on_day, length (filter (\<lambda>e. ex_status e = ''success'') on_day),
            length (filter (\<lambda>e. ex_status e = ''failure'') on_day))) (rev [0..<n]) \<and>
    list_all (\<lambda>(x, y, w, h). 0 \<le> x \<and> x + w \<le> 700 + 1 / 10 ^ 9 \<and> 8 \<le> y \<and> y + h \<le> 112 + 1 / 10 ^ 9 \<and>
        1 \<le> w \<and> 0 < h \<and> h \<le> 104)
      (concat (map node_boxes (BarChart data :: 'e node list))) \<and>
    sum_list (map pt_total data) =
      length (filter (\<lambda>e. recent e \<and> ex_day e \<in> date_back ` {..<n}) (user_execs uid d))"
proof -
  let ?data = "ReportTimeline recent date_back uid (nat_string n) d"
  have n: "0 < n" "n \<le> 90" using assms(1) by (auto simp: day_options_def)
  have rev: "map (\<lambda>i. n - 1 - i) [0..<n] = rev [0..<n]"
    by (intro nth_equalityI) (simp_all add: rev_nth)
  have "?data = map (\<lambda>k. day_point (filter recent (user_execs uid d)) (date_back k)) (map (\<lambda>i. n - 1 - i) [0..<n])"
    by (simp add: ReportTimeline_points timeline_days_nat_string n comp_def)
  then have data: "?data = map (\<lambda>k. day_point (filter recent (user_execs uid d)) (date_back k)) (rev [0..<n])"
    by (simp only: rev)
  have fits: "list_all (\<lambda>p. pt_success p + pt_failure p \<le> pt_total p) ?data"
    by (simp add: data list_all_iff day_point_fits)
  have own: "filter (\<lambda>e. ex_day e = k) (filter recent (user_execs uid d)) =
      filter (\<lambda>e. recent e \<and> ex_day e = k \<and> (\<exists>j \<in> set (db_jobs d). jb_id j = ex_job e \<and> jb_user j = Some uid)) (db_execs d)" for k
    by (auto simp: user_execs_def list_ex_iff intro: filter_cong)
  have points: "map (\<lambda>p. (pt_date p, pt_total p, pt_success p, pt_failure p)) ?data =
      map (\<lambda>k. let on_day = filter (\<lambda>e. recent e \<and> ex_day e = date_back k \<and>
            (\<exists>j \<in> set (db_jobs d). jb_id j = ex_job e \<and> jb_user j = Some uid)) (db_execs d)
          in (date_back k, length on_day, length (filter (\<lambda>e. ex_status e = ''success'') on_day),
            length (filter (\<lambda>e. ex_status e = ''failure'') on_day))) (rev [0..<n])"
    by (simp add: data comp_def day_point_def Let_def with_status_def own del: filter_filter)
  have boxes: "list_all in_picture (concat (map node_boxes (BarChart ?data :: 'e node list)))"
    using fits n by (intro bars_inside) (simp_all add: list_all_iff data)
  have "distinct (map date_back (rev [0..<n]))"
    using assms(2) by (simp add: distinct_map lessThan_atLeast0)
  from sum_exclusive [OF this, of ex_day "filter recent (user_execs uid d)"]
  have "sum_list (map pt_total ?data) =
      length (filter (\<lambda>e. recent e \<and> ex_day e \<in> date_back ` {..<n}) (user_execs uid d))"
    by (simp add: data comp_def day_point_def Let_def lessThan_atLeast0 conj_commute)
  with points boxes [unfolded in_picture_def] show ?thesis by (simp add: Let_def)
qed

theorem timeline_feeds_chart_witness:
  "let day = (\<lambda>k. ''2024-05-0'' @ nat_string (9 - k));
       data = ReportTimeline (\<lambda>e. True) day ''1'' (nat_string 7) sample_db
   in map pt_date data = map day [6, 5, 4, 3, 2, 1, 0] \<and> sum_list (map pt_total data) = 2"
proof -
  let ?day = "\<lambda>k. ''2024-05-0'' @ nat_string (9 - k)"
  let ?data = "ReportTimeline (\<lambda>e. True) ?day ''1'' (nat_string 7) sample_db"
  have inj: "inj_on ?day {..<7}"
  proof (rule inj_onI)
    fix m n :: nat
    assume "m \<in> {..<7}" "n \<in> {..<7}" "?day m = ?day n"
    then show "m = n" using nat_string_inj [of "9 - m" "9 - n"] by simp
  qed
  have opt: "(7 :: nat) \<in> set day_options" by (simp add: day_options_def)
  have "''2024-05-03'' \<in> ?day ` {..<7}"
    by (rule image_eqI [of _ _ 6]) (code_simp, simp)
  then have count: "length (filter (\<lambda>e. True \<and> ex_day e \<in> ?day ` {..<7}) (user_execs ''1'' sample_db)) = 2"
    by (simp add: user_execs_def sample_db_def ex_day_def)
  have "rev [0..<7] = [6, 5, 4, 3, 2, 1, 0 :: nat]" by (simp add: upt_rec)
  with timeline_feeds_chart [where ?'e = unit, OF opt inj, of "\<lambda>e. True" "''1''" sample_db]
  have "map (\<lambda>p. (pt_date p, pt_total p, pt_success p, pt_failure p)) ?data =
      map (\<lambda>k. let on_day = filter (\<lambda>e. True \<and> ex_day e = ?day k \<and>
            (\<exists>j \<in> set (db_jobs sample_db). jb_id j = ex_job e \<and> jb_user j = Some ''1'')) (db_execs sample_db)
          in (?day k, length on_day, length (filter (\<lambda>e. ex_status e = ''success'') on_day),
            length (filter (\<lambda>e. ex_status e = ''failure'') on_day))) [6, 5, 4, 3, 2, 1, 0]"
    and "sum_list (map pt_total ?data) = length (filter (\<lambda>e. True \<and> ex_day e \<in> ?day ` {..<7}) (user_execs ''1'' sample_db))"
    unfolding Let_def by presburger+
  from arg_cong [OF this(1), of "map fst"] this(2) count show ?thesis
    unfolding Let_def by (simp add: comp_def)
qed

text \<open>C34: The figures of the report agree.  Every success rate lies between 0 and 100 per cent, so the
  dash and the gap of the ring are not negative and add up to its circumference, the outcomes never
  exceed the executions, and with job ids that are unique the counts of the per-job table sum up to
  those of the summary.\<close>

theorem report_figures_agree:
  assumes "distinct (map jb_id (db_jobs d))"
  shows "let s = ReportSummary uid d; rows = ReportJobs uid d in
    list_all (\<lambda>r. 0 \<le> r \<and> r \<le> 100 \<and> 0 \<le> donut_arc r \<and> 0 \<le> circ - donut_arc r) (sm_rate s # map js_rate rows) \<and>
    sm_success s + sm_failure s + sm_running s \<le> sm_total s \<and>
    sum_list (map js_total rows) = sm_total s \<and>
    sum_list (map js_success rows) = sm_success s \<and>
    sum_list (map js_failure rows) = sm_failure s \<and>
    length rows = sm_total_jobs s"
proof -
  have count: "sum_list (map (\<lambda>j. with_status x (job_execs d j)) (rev (filter (\<lambda>j. jb_user j = Some uid) (db_jobs d)))) =
      with_status x (user_execs uid d)" for x
    using job_counts [OF assms, of "\<lambda>e. ex_status e = x"] by (simp add: with_status_def)
  have total: "sum_list (map (\<lambda>j. length (job_execs d j)) (rev (filter (\<lambda>j. jb_user j = Some uid) (db_jobs d)))) =
      length (user_execs uid d)"
    using job_counts [OF assms, of "\<lambda>e. True"] by simp
  have rates: "list_all (\<lambda>r. 0 \<le> r \<and> r \<le> 100 \<and> 0 \<le> donut_arc r \<and> 0 \<le> circ - donut_arc r)
      (sm_rate (ReportSummary uid d) # map js_rate (ReportJobs uid d))"
    by (auto simp: ReportSummary_def ReportJobs_def Let_def list_all_iff success_rate_range donut_arc_range)
  show ?thesis
    unfolding Let_def
  proof (intro conjI rates)
    show "sm_success (ReportSummary uid d) + sm_failure (ReportSummary uid d) + sm_running (ReportSummary uid d)
        \<le> sm_total (ReportSummary uid d)"
      by (simp add: ReportSummary_def Let_def with_status_three)
  qed (simp_all add: ReportSummary_def ReportJobs_def Let_def comp_def count total)
qed

theorem report_figures_agree_witness:
  "sum_list (map js_total (ReportJobs ''1'' sample_db)) = 2 \<and> sm_total (ReportSummary ''1'' sample_db) = 2 \<and>
   sm_rate (ReportSummary ''1'' sample_db) = 50"
proof -
  have "distinct (map jb_id (db_jobs sample_db))" by (simp add: sample_db_def)
  from report_figures_agree [OF this, of "''1''"]
  have "sum_list (map js_total (ReportJobs ''1'' sample_db)) = sm_total (ReportSummary ''1'' sample_db)"
    unfolding Let_def by blast
  moreover have "sm_total (ReportSummary ''1'' sample_db) = 2" "sm_rate (ReportSummary ''1'' sample_db) = 50"
    by (simp_all add: ReportSummary_def sample_db_def user_execs_def with_status_def success_rate_def)
  ultimately show ?thesis by simp
qed

end
