(* ===== verification/UsersApi.thy ===== *)
theory UsersApi
  imports JobsApi
begin

text \<open>
  The account handlers of the Go API: \<open>handler/auth.go\<close>, the user half of \<open>handler/admin.go\<close> and
  the seeding of \<open>main.go\<close>.  bcrypt and the JWT library are parameters: \<open>hash\<close> is
  \<open>GenerateFromPassword\<close> at the time of the call (\<open>None\<close> for its error), \<open>same h p\<close> is a nil
  result of \<open>CompareHashAndPassword\<close>, \<open>sign\<close> is \<open>signToken\<close>.  Logging is left out.
\<close>

section \<open>What is documented of bcrypt\<close>

text \<open>A hash compares equal to the password it was made from; passwords of up to 72 bytes have
  hashes.\<close>

definition bcrypt_contract :: "(string \<Rightarrow> string option) \<Rightarrow> (string \<Rightarrow> string \<Rightarrow> bool) \<Rightarrow> bool" where
  "bcrypt_contract hash same \<longleftrightarrow>
     (\<forall>p h. hash p = Some h \<longrightarrow> same h p) \<and> (\<forall>p. length p \<le> 72 \<longrightarrow> hash p \<noteq> None)"

section \<open>auth.go\<close>

definition session_json :: "(claims \<Rightarrow> string) \<Rightarrow> string \<Rightarrow> string \<Rightarrow> string \<Rightarrow> jsval" where
  "session_json sign i email role =
     JObj [(''token'', JStr (sign \<lparr>cl_user = i, cl_email = email, cl_role = role\<rparr>)),
           (''user'', JObj [(''email'', JStr email), (''id'', JStr i), (''role'', JStr role)])]"

definition normal_email :: "string \<Rightarrow> string" where
  "normal_email e = to_lower (trim e)"

definition Register ::
    "(string \<Rightarrow> string option) \<Rightarrow> (claims \<Rightarrow> string) \<Rightarrow> string \<Rightarrow> string \<Rightarrow> jsval option \<Rightarrow> db \<Rightarrow> db \<times> reply" where
  "Register hash sign fresh now body d =
     (case (decode_str ''email'' body, decode_str ''password'' body) of
        (Some e, Some pw) \<Rightarrow>
          let email = normal_email e in
          if email = [] \<or> pw = [] then (d, writeError 400 ''Email and password required'')
          else if length pw < 6 then (d, writeError 400 ''Password must be at least 6 characters'')
          else (case hash pw of
            None \<Rightarrow> (d, writeError 500 ''Internal server error'')
          | Some h \<Rightarrow>
              if \<not> varchar 255 email \<or> \<not> varchar 255 h then (d, writeError 500 ''Internal server error'')
              else if list_ex (\<lambda>u. us_email u = email) (db_users d)
              then (d, writeError 409 ''Email already registered'')
              else (d\<lparr>db_users := db_users d @
                       [\<lparr>us_id = fresh, us_email = email, us_hash = h, us_role = ''user'', us_created = now\<rparr>]\<rparr>,
                    (201, session_json sign fresh email ''user'')))
      | _ \<Rightarrow> (d, writeError 400 ''Invalid request body''))"

definition Login :: "(string \<Rightarrow> string \<Rightarrow> bool) \<Rightarrow> (claims \<Rightarrow> string) \<Rightarrow> jsval option \<Rightarrow> db \<Rightarrow> reply" where
  "Login same sign body d =
     (case (decode_str ''email'' body, decode_str ''password'' body) of
        (Some e, Some pw) \<Rightarrow>
          let email = normal_email e in
          if email = [] \<or> pw = [] then writeError 400 ''Email and password required''
          else (case find (\<lambda>u. us_email u = email) (db_users d) of
            None \<Rightarrow> writeError 401 ''Invalid credentials''
          | Some u \<Rightarrow>
              if same (us_hash u) pw then (200, session_json sign (us_id u) (us_email u) (us_role u))
              else writeError 401 ''Invalid credentials'')
      | _ \<Rightarrow> writeError 400 ''Invalid request body'')"

definition update_user :: "string \<Rightarrow> (user_row \<Rightarrow> user_row) \<Rightarrow> db \<Rightarrow> db" where
  "update_user i f d = d\<lparr>db_users := map (\<lambda>u. if us_id u = i then f u else u) (db_users d)\<rparr>"

definition find_user :: "string \<Rightarrow> db \<Rightarrow> user_row option" where
  "find_user i d = find (\<lambda>u. us_id u = i) (db_users d)"

definition ChangePassword ::
    "(string \<Rightarrow> string option) \<Rightarrow> (string \<Rightarrow> string \<Rightarrow> bool) \<Rightarrow> string \<Rightarrow> jsval option \<Rightarrow> db \<Rightarrow> db \<times> reply" where
  "ChangePassword hash same uid body d =
     (case (decode_str ''current_password'' body, decode_str ''new_password'' body) of
        (Some cur, Some new) \<Rightarrow>
          if cur = [] \<or> new = [] then (d, writeError 400 ''current_password and new_password required'')
          else if length new < 6 then (d, writeError 400 ''New password must be at least 6 characters'')
          else (case find_user uid d of
            None \<Rightarrow> (d, writeError 404 ''User not found'')
          | Some u \<Rightarrow>
              if \<not> same (us_hash u) cur then (d, writeError 401 ''Current password is incorrect'')
              else (case hash new of
                None \<Rightarrow> (d, writeError 500 ''Internal server error'')
              | Some h \<Rightarrow>
                  if varchar 255 h
                  then (update_user uid (\<lambda>v. v\<lparr>us_hash := h\<rparr>) d, message 200 ''Password updated'')
                  else (d, writeError 500 ''Internal server error'')))
      | _ \<Rightarrow> (d, writeError 400 ''Invalid request body''))"

section \<open>The user half of admin.go\<close>

text \<open>The \<open>User\<close> struct: a job count of zero is left out.\<close>

definition user_json :: "user_row \<Rightarrow> nat \<Rightarrow> props" where
  "user_json u n =
     [(''id'', JStr (us_id u)), (''email'', JStr (us_email u)), (''role'', JStr (us_role u)),
      (''created_at'', JStr (us_created u))]
     @ (if n = 0 then [] else [(''job_count'', JNum (int n))])"

definition AdminListUsers :: "db \<Rightarrow> reply" where
  "AdminListUsers d =
     (200, JArr (map (\<lambda>u. JObj (user_json u (length (filter (\<lambda>j. jb_user j = Some (us_id u)) (db_jobs d)))))
       (db_users d)))"

text \<open>The error of \<open>GenerateFromPassword\<close> is dropped here; its hash is then empty.\<close>

definition hash_or_empty :: "(string \<Rightarrow> string option) \<Rightarrow> string \<Rightarrow> string" where
  "hash_or_empty hash pw = (case hash pw of None \<Rightarrow> [] | Some h \<Rightarrow> h)"

definition AdminCreateUser ::
    "(string \<Rightarrow> string option) \<Rightarrow> string \<Rightarrow> string \<Rightarrow> jsval option \<Rightarrow> db \<Rightarrow> db \<times> reply" where
  "AdminCreateUser hash fresh now body d =
     (case (decode_str ''email'' body, decode_str ''password'' body, decode_str ''role'' body) of
        (Some email, Some pw, Some r) \<Rightarrow>
          if email = [] \<or> pw = [] then (d, writeError 400 ''Email and password required'')
          else
            let role = (if r = [] then ''user'' else r); h = hash_or_empty hash pw in
            if role \<noteq> ''user'' \<and> role \<noteq> ''admin'' then (d, writeError 400 ''Invalid role'')
            else if \<not> varchar 255 email \<or> \<not> varchar 255 h \<or> list_ex (\<lambda>u. us_email u = email) (db_users d)
            then (d, writeError 409 ''Email already registered'')
            else
              let u = \<lparr>us_id = fresh, us_email = email, us_hash = h, us_role = role, us_created = now\<rparr>
              in (d\<lparr>db_users := db_users d @ [u]\<rparr>, (201, JObj (user_json u 0)))
      | _ \<Rightarrow> (d, writeError 400 ''Email and password required''))"

definition other_admins :: "string \<Rightarrow> db \<Rightarrow> nat" where
  "other_admins i d = length (filter (\<lambda>u. us_role u = ''admin'' \<and> us_id u \<noteq> i) (db_users d))"

text \<open>The id is what the database reads in the text of the path, \<open>None\<close> when that is no
  UUID: then every statement fails, and the count of the other administrators, whose error is dropped, stays
  zero.\<close>

definition AdminUpdateUser ::
    "(string \<Rightarrow> string option) \<Rightarrow> string option \<Rightarrow> jsval option \<Rightarrow> db \<Rightarrow> db \<times> reply" where
  "AdminUpdateUser hash id_read body d =
     (case (decode_ptr ''role'' body, decode_ptr ''password'' body) of
        (Some role, Some pw) \<Rightarrow>
          if role = Some ''user'' \<and> (case id_read of None \<Rightarrow> True | Some i \<Rightarrow> other_admins i d = 0)
          then (d, writeError 400 ''Cannot demote the only admin'')
          else
            let new_hash = (case pw of None \<Rightarrow> None | Some p \<Rightarrow> if p = [] then None else Some (hash_or_empty hash p));
                f = (\<lambda>u. u\<lparr>us_role := (case role of None \<Rightarrow> us_role u | Some r \<Rightarrow> r),
                           us_hash := (case new_hash of None \<Rightarrow> us_hash u | Some h \<Rightarrow> h)\<rparr>)
            in
            if role = None \<and> new_hash = None then (d, writeError 400 ''Nothing to update'')
            else (case id_read of
              None \<Rightarrow> (d, writeError 404 ''User not found'')
            | Some i \<Rightarrow>
                (case find_user i d of
                   None \<Rightarrow> (d, writeError 404 ''User not found'')
                 | Some u \<Rightarrow>
                     if varchar 20 (us_role (f u)) \<and> varchar 255 (us_hash (f u))
                     then (update_user i f d, (200, JObj (user_json (f u) 0)))
                     else (d, writeError 404 ''User not found'')))
      | _ \<Rightarrow> (d, writeError 400 ''Invalid request body''))"

text \<open>Deleting a user deletes the user's jobs and their executions.\<close>

definition remove_user :: "string \<Rightarrow> db \<Rightarrow> db" where
  "remove_user i d =
     (let gone = jb_id ` set (filter (\<lambda>j. jb_user j = Some i) (db_jobs d)) in
      d\<lparr>db_users := filter (\<lambda>u. us_id u \<noteq> i) (db_users d),
        db_jobs := filter (\<lambda>j. jb_user j \<noteq> Some i) (db_jobs d),
        db_execs := filter (\<lambda>e. ex_job e \<notin> gone) (db_execs d)\<rparr>)"

text \<open>The own account is recognized by the text of the id, the statement casts that text:
  \<open>uuid\<close> is the database's reading of it, as the canonical text again.\<close>

definition AdminDeleteUser :: "(string \<Rightarrow> string) \<Rightarrow> string \<Rightarrow> string \<Rightarrow> db \<Rightarrow> db \<times> reply" where
  "AdminDeleteUser uuid uid i d =
     (if i = uid then (d, writeError 400 ''Cannot delete your own account'')
      else case find_user (uuid i) d of
        None \<Rightarrow> (d, writeError 404 ''User not found'')
      | Some u \<Rightarrow> (remove_user (uuid i) d, (204, JUndef)))"

section \<open>main.go: the seeded administrator\<close>

text \<open>\<open>None\<close> is a failed start: the hash or the insertion failed.\<close>

definition seedAdmin :: "(string \<Rightarrow> string option) \<Rightarrow> string \<Rightarrow> string \<Rightarrow> string \<Rightarrow> string \<Rightarrow> db \<Rightarrow> db option" where
  "seedAdmin hash fresh now email pass d =
     (if list_ex (\<lambda>u. us_email u = email) (db_users d)
      then Some (d\<lparr>db_users := map (\<lambda>u. if us_email u = email then u\<lparr>us_role := ''admin''\<rparr> else u) (db_users d)\<rparr>)
      else (case hash pass of
        None \<Rightarrow> None
      | Some h \<Rightarrow>
          if varchar 255 email \<and> varchar 255 h
          then Some (d\<lparr>db_users := db_users d @
                  [\<lparr>us_id = fresh, us_email = email, us_hash = h, us_role = ''admin'', us_created = now\<rparr>]\<rparr>)
          else None))"

end
