(* ===== verification/Isolation.thy ===== *)
theory Isolation
  imports ReportCsv ReportApi UsersApi
begin

text \<open>
  What keeps the users of the API apart.  The handlers behind \<open>RequireAuth\<close> work for the user of the
  token; here they are one function \<open>serve\<close>, and a user's view is the part of the database that belongs
  to that user: the account, the jobs and their executions.  The account of another user, other users'
  jobs and their executions neither show in a reply nor change.
\<close>

section \<open>References between the tables\<close>

definition db_ok :: "db \<Rightarrow> bool" where
  "db_ok d \<longleftrightarrow>
     distinct (map jb_id (db_jobs d)) \<and> list_all (\<lambda>e. ex_job e \<in> jb_id ` set (db_jobs d)) (db_execs d)"

definition view :: "string \<Rightarrow> db \<Rightarrow> db" where
  "view uid d =
     \<lparr>db_users = filter (\<lambda>u. us_id u = uid) (db_users d),
      db_jobs = filter (\<lambda>j. jb_user j = Some uid) (db_jobs d),
      db_execs = user_execs uid d\<rparr>"

section \<open>The requests of a user\<close>

text \<open>Each request carries what the outside world supplies with it: the body, the current time, the id
  the database would draw.\<close>

datatype user_request =
    DoListJobs
  | DoGetJob string
  | DoCreateJob string string string "jsval option"
  | DoUpdateJob string string "jsval option"
  | DoDeleteJob string
  | DoPauseJob string string
  | DoResumeJob string string
  | DoTriggerJob string
  | DoListExecutions string string string
  | DoListRunning
  | DoGetExecution string
  | DoChangePassword "jsval option"
  | DoReportSummary
  | DoReportTimeline "execution \<Rightarrow> bool" "nat \<Rightarrow> string" string
  | DoReportJobs
  | DoReportCSV "int \<Rightarrow> execution \<Rightarrow> bool" "string \<Rightarrow> string" "string \<Rightarrow> string" string string

datatype answer =
    Reply reply
  | Started reply "job list"
  | Summary report_summary
  | Timeline "point list"
  | JobStats "job_stat list"
  | Csv string

fun serve ::
    "(string \<Rightarrow> string option) \<Rightarrow> (string \<Rightarrow> string \<Rightarrow> bool) \<Rightarrow> string \<Rightarrow> user_request \<Rightarrow> db \<Rightarrow> db \<times> answer" where
  "serve hash same uid DoListJobs d = (d, Reply (ListJobs uid d))"
| "serve hash same uid (DoGetJob i) d = (d, Reply (GetJob uid i d))"
| "serve hash same uid (DoCreateJob fresh now dberr body) d = apsnd Reply (CreateJob fresh now dberr uid body d)"
| "serve hash same uid (DoUpdateJob now i body) d = apsnd Reply (UpdateJob now uid i body d)"
| "serve hash same uid (DoDeleteJob i) d = apsnd Reply (DeleteJob uid i d)"
| "serve hash same uid (DoPauseJob now i) d = apsnd Reply (PauseJob now uid i d)"
| "serve hash same uid (DoResumeJob now i) d = apsnd Reply (ResumeJob now uid i d)"
| "serve hash same uid (DoTriggerJob i) d = apsnd (\<lambda>(r, js). Started r js) (TriggerJob uid i d)"
| "serve hash same uid (DoListExecutions job limit offset) d = (d, Reply (ListExecutions uid job limit offset d))"
| "serve hash same uid DoListRunning d = (d, Reply (ListRunningExecutions uid d))"
| "serve hash same uid (DoGetExecution i) d = (d, Reply (GetExecution uid i d))"
| "serve hash same uid (DoChangePassword body) d = apsnd Reply (ChangePassword hash same uid body d)"
| "serve hash same uid DoReportSummary d = (d, Summary (ReportSummary uid d))"
| "serve hash same uid (DoReportTimeline recent date_back days) d =
     (d, Timeline (ReportTimeline recent date_back uid days d))"
| "serve hash same uid DoReportJobs d = (d, JobStats (ReportJobs uid d))"
| "serve hash same uid (DoReportCSV recent rfc cast days job) d =
     (d, Csv (ReportCSV recent rfc cast uid days job d))"

section \<open>Looking through a view\<close>

lemma find_filter: "find P (filter Q xs) = find (\<lambda>x. Q x \<and> P x) xs"
  by (induction xs) auto

lemma find_cong_set: "(\<And>x. x \<in> set xs \<Longrightarrow> P x \<longleftrightarrow> Q x) \<Longrightarrow> find P xs = find Q xs"
  by (induction xs) auto

lemma view_sel [simp]:
  "db_users (view uid d) = filter (\<lambda>u. us_id u = uid) (db_users d)"
  "db_jobs (view uid d) = filter (\<lambda>j. jb_user j = Some uid) (db_jobs d)"
  "db_execs (view uid d) = user_execs uid d"
  by (simp_all add: view_def)

lemma user_execs_view [simp]: "user_execs uid (view uid d) = user_execs uid d"
  by (auto simp: user_execs_def list_ex_iff intro: filter_cong)

lemma owned_view [simp]: "owned_job uid i (view uid d) = owned_job uid i d"
  by (simp add: owned_job_def find_filter) (metis (mono_tags, lifting))

lemma find_user_view [simp]: "find_user uid (view uid d) = find_user uid d"
  by (simp add: find_user_def find_filter)

lemma user_jobs_in_view:
  "filter (\<lambda>j. jb_user j = Some uid \<and> jb_user j = Some uid) js = filter (\<lambda>j. jb_user j = Some uid) js"
  by simp

lemma job_execs_view:
  assumes "j \<in> set (db_jobs d)" and "jb_user j = Some uid"
  shows "job_execs (view uid d) j = job_execs d j"
proof -
  have "list_ex (\<lambda>k. jb_id k = ex_job e \<and> jb_user k = Some uid) (db_jobs d)" if "ex_job e = jb_id j" for e
    using assms that by (auto simp: list_ex_iff)
  then show ?thesis
    by (auto simp: job_execs_def user_execs_def intro!: filter_cong)
qed

lemma job_json_view: "j \<in> set (db_jobs d) \<Longrightarrow> jb_user j = Some uid \<Longrightarrow> job_json (view uid d) j = job_json d j"
  by (simp add: job_json_def job_execs_view)

lemma job_json_execs: "job_execs d j = job_execs d' j' \<Longrightarrow> j = j' \<Longrightarrow> job_json d j = job_json d' j'"
  by (simp add: job_json_def)

lemma any_job_own:
  assumes "db_ok d" and "e \<in> set (user_execs uid d)"
  shows "any_job (ex_job e) (view uid d) = any_job (ex_job e) d"
proof -
  from assms(2) obtain j where j: "j \<in> set (db_jobs d)" "jb_id j = ex_job e" "jb_user j = Some uid"
    by (auto simp: user_execs_def list_ex_iff)
  have "inj_on jb_id (set (db_jobs d))" using assms(1) by (simp add: db_ok_def distinct_map)
  then have "k \<in> set (db_jobs d) \<Longrightarrow> jb_id k = ex_job e \<Longrightarrow> jb_user k = Some uid" for k
    using j by (metis inj_onD)
  then show ?thesis
    by (auto simp: any_job_def find_filter intro: find_cong_set)
qed

lemma rows_reply_view:
  assumes "db_ok d" and "set es \<subseteq> set (user_execs uid d)"
  shows "rows_reply (view uid d) es = rows_reply d es"
proof -
  have "execution_json (view uid d) e = execution_json d e" if "e \<in> set es" for e
    using that assms any_job_own [OF assms(1), of e uid]
    by (auto simp: execution_json_def job_name_of_def)
  then show ?thesis by (simp add: rows_reply_def)
qed

section \<open>Statements and views\<close>

lemma owned_None: "owned_job uid i d = None \<longleftrightarrow> (\<forall>j \<in> set (db_jobs d). jb_id j = i \<longrightarrow> jb_user j \<noteq> Some uid)"
  by (auto simp: owned_job_def find_None_iff)

lemma owned_Some:
  assumes "owned_job uid i d = Some j"
  shows "j \<in> set (db_jobs d)" "jb_id j = i" "jb_user j = Some uid"
  using find_SomeD [of _ "db_jobs d" j] assms by (auto simp: owned_job_def)

lemma owned_once:
  assumes "db_ok d" and "owned_job v i d = Some j" and "v \<noteq> uid"
  shows "owned_job uid i d = None"
proof (rule ccontr)
  assume "owned_job uid i d \<noteq> None"
  then obtain k where k: "owned_job uid i d = Some k" by auto
  have "inj_on jb_id (set (db_jobs d))" using assms(1) by (simp add: db_ok_def distinct_map)
  then have "k = j" using owned_Some [OF assms(2)] owned_Some [OF k] by (metis inj_onD)
  then show False using owned_Some(3) [OF assms(2)] owned_Some(3) [OF k] assms(3) by simp
qed

text \<open>Which executions are a user's depends on the owners of the jobs alone.\<close>

definition owners :: "job list \<Rightarrow> (string \<times> string option) list" where
  "owners js = map (\<lambda>j. (jb_id j, jb_user j)) js"

lemma user_execs_owners: "user_execs uid d = filter (\<lambda>e. (ex_job e, Some uid) \<in> set (owners (db_jobs d))) (db_execs d)"
proof -
  have "list_ex (\<lambda>j. jb_id j = i \<and> jb_user j = Some uid) js \<longleftrightarrow> (i, Some uid) \<in> set (owners js)" for i js
    by (induction js) (auto simp: owners_def)
  then show ?thesis by (simp add: user_execs_def)
qed

lemma not_own_exec: "owned_job uid i d = None \<Longrightarrow> e \<in> set (user_execs uid d) \<Longrightarrow> ex_job e \<noteq> i"
  by (auto simp: owned_None user_execs_def list_ex_iff)

definition keeps_owner :: "(job \<Rightarrow> job) \<Rightarrow> bool" where
  "keeps_owner f \<longleftrightarrow> (\<forall>j. jb_id (f j) = jb_id j \<and> jb_user (f j) = jb_user j)"

lemma keeps_owner_simps [simp]:
  "keeps_owner (set_job now b)" "keeps_owner (\<lambda>k. k\<lparr>jb_status := st, jb_updated := now\<rparr>)"
  by (simp_all add: keeps_owner_def set_job_def)

lemma owners_update: "keeps_owner f \<Longrightarrow> owners (map (\<lambda>j. if jb_id j = i then f j else j) js) = owners js"
  by (induction js) (auto simp: owners_def keeps_owner_def)

lemma user_execs_update: "keeps_owner f \<Longrightarrow> user_execs uid (update_job i f d) = user_execs uid d"
  by (simp add: user_execs_owners update_job_def owners_update)

lemma user_execs_remove:
  "user_execs uid (remove_job i d) = filter (\<lambda>e. ex_job e \<noteq> i) (user_execs uid d)"
  by (auto simp: user_execs_owners remove_job_def owners_def intro!: filter_cong)

lemma filter_map_keep: "(\<And>x. P (f x) = P x) \<Longrightarrow> filter P (map f xs) = map f (filter P xs)"
  by (induction xs) simp_all

lemma user_execs_cancel:
  "user_execs uid (cancel_running i d) =
     map (\<lambda>e. if ex_job e = i \<and> ex_status e = ''running'' then e\<lparr>ex_cancel := True\<rparr> else e) (user_execs uid d)"
  unfolding user_execs_owners cancel_running_def by (simp, rule filter_map_keep) simp

lemma user_execs_add:
  assumes "db_ok d" and "jb_id j \<notin> jb_id ` set (db_jobs d)"
  shows "user_execs uid (d\<lparr>db_jobs := db_jobs d @ [j]\<rparr>) = user_execs uid d"
proof -
  have "ex_job e \<noteq> jb_id j" if "e \<in> set (db_execs d)" for e
    using assms that by (metis (no_types, lifting) db_ok_def list_all_iff)
  then show ?thesis by (auto simp: user_execs_owners owners_def intro!: filter_cong)
qed

text \<open>A statement on one's own rows acts on one's view as on the database.\<close>

lemma view_own:
  shows "keeps_owner f \<Longrightarrow> view uid (update_job i f d) = update_job i f (view uid d)"
    and "view uid (remove_job i d) = remove_job i (view uid d)"
    and "view uid (cancel_running i d) = cancel_running i (view uid d)"
    and "(\<And>u. us_id (g u) = us_id u) \<Longrightarrow> view uid (update_user uid g d) = update_user uid g (view uid d)"
    and "db_ok d \<Longrightarrow> jb_id j \<notin> jb_id ` set (db_jobs d) \<Longrightarrow> jb_user j = Some uid \<Longrightarrow>
      view uid (d\<lparr>db_jobs := db_jobs d @ [j]\<rparr>) = (view uid d)\<lparr>db_jobs := db_jobs (view uid d) @ [j]\<rparr>"
proof -
  show "view uid (update_job i f d) = update_job i f (view uid d)" if "keeps_owner f"
    using that user_execs_update [OF that, of uid i d]
    by (auto simp: view_def update_job_def keeps_owner_def filter_map comp_def intro!: map_cong filter_cong)
  show "view uid (remove_job i d) = remove_job i (view uid d)"
    using user_execs_remove [of uid i d] by (simp add: view_def remove_job_def conj_commute)
  show "view uid (cancel_running i d) = cancel_running i (view uid d)"
    using user_execs_cancel [of uid i d] by (simp add: view_def cancel_running_def)
  show "view uid (update_user uid g d) = update_user uid g (view uid d)" if "\<And>u. us_id (g u) = us_id u"
    using that
    by (auto simp: view_def update_user_def user_execs_def filter_map comp_def intro!: map_cong filter_cong)
  show "view uid (d\<lparr>db_jobs := db_jobs d @ [j]\<rparr>) = (view uid d)\<lparr>db_jobs := db_jobs (view uid d) @ [j]\<rparr>"
    if "db_ok d" "jb_id j \<notin> jb_id ` set (db_jobs d)" "jb_user j = Some uid"
    using user_execs_add [OF that(1,2), of uid] that(3) by (simp add: view_def)
qed

text \<open>A statement on the rows of another user leaves one's view alone.\<close>

lemma view_other:
  shows "owned_job uid i d = None \<Longrightarrow> keeps_owner f \<Longrightarrow> view uid (update_job i f d) = view uid d"
    and "owned_job uid i d = None \<Longrightarrow> view uid (remove_job i d) = view uid d"
    and "owned_job uid i d = None \<Longrightarrow> view uid (cancel_running i d) = view uid d"
    and "(\<And>u. us_id (g u) = us_id u) \<Longrightarrow> v \<noteq> uid \<Longrightarrow> view uid (update_user v g d) = view uid d"
    and "jb_user j \<noteq> Some uid \<Longrightarrow> view uid (d\<lparr>db_jobs := db_jobs d @ [j]\<rparr>) = view uid d"
proof -
  have none: "filter (\<lambda>e. ex_job e \<noteq> i) (user_execs uid d) = user_execs uid d"
    "map (\<lambda>e. if ex_job e = i \<and> P e then h e else e) (user_execs uid d) = user_execs uid d"
    if "owned_job uid i d = None" for P h
    using not_own_exec [OF that] by (auto simp: filter_id_conv intro: map_idI)
  have jobs: "map (\<lambda>j. if jb_id j = i then f j else j) (filter (\<lambda>j. jb_user j = Some uid) (db_jobs d)) =
      filter (\<lambda>j. jb_user j = Some uid) (db_jobs d)" if "owned_job uid i d = None"
    by (rule map_idI) (use that in \<open>auto simp: owned_None\<close>)
  show "view uid (update_job i f d) = view uid d" if "owned_job uid i d = None" "keeps_owner f"
    unfolding view_own(1) [OF that(2)] using jobs [OF that(1)] by (simp add: update_job_def)
  show "view uid (remove_job i d) = view uid d" if "owned_job uid i d = None"
  proof -
    have "filter (\<lambda>j. jb_user j = Some uid \<and> jb_id j \<noteq> i) (db_jobs d) = filter (\<lambda>j. jb_user j = Some uid) (db_jobs d)"
      using that by (intro filter_cong) (auto simp: owned_None)
    then show ?thesis unfolding view_own(2) using none(1) [OF that] by (simp add: remove_job_def)
  qed
  show "view uid (cancel_running i d) = view uid d" if "owned_job uid i d = None"
    unfolding view_own(3) using none(2) [OF that] by (simp add: cancel_running_def)
  show "view uid (update_user v g d) = view uid d" if "\<And>u. us_id (g u) = us_id u" "v \<noteq> uid"
  proof -
    have "filter (\<lambda>u. us_id u = uid) (map (\<lambda>u. if us_id u = v then g u else u) us) = filter (\<lambda>u. us_id u = uid) us" for us
      using that by (induction us) auto
    then show ?thesis by (simp add: view_def update_user_def user_execs_def)
  qed
  show "view uid (d\<lparr>db_jobs := db_jobs d @ [j]\<rparr>) = view uid d" if "jb_user j \<noteq> Some uid"
    using that by (simp add: view_def user_execs_def)
qed

text \<open>The references stay sound.\<close>

lemma db_ok_statements:
  assumes "db_ok d"
  shows "keeps_owner f \<Longrightarrow> db_ok (update_job i f d)"
    and "db_ok (remove_job i d)"
    and "db_ok (cancel_running i d)"
    and "db_ok (update_user v g d)"
    and "jb_id j \<notin> jb_id ` set (db_jobs d) \<Longrightarrow> db_ok (d\<lparr>db_jobs := db_jobs d @ [j]\<rparr>)"
proof -
  show "db_ok (update_job i f d)" if "keeps_owner f"
  proof -
    have "map jb_id (map (\<lambda>j. if jb_id j = i then f j else j) js) = map jb_id js" for js
      using that by (induction js) (auto simp: keeps_owner_def)
    then have ids: "map jb_id (db_jobs (update_job i f d)) = map jb_id (db_jobs d)" by (simp add: update_job_def)
    moreover have "jb_id ` set (db_jobs (update_job i f d)) = jb_id ` set (db_jobs d)"
      using ids by (metis list.set_map)
    moreover have "db_execs (update_job i f d) = db_execs d" by (simp add: update_job_def)
    ultimately show ?thesis using assms by (simp only: db_ok_def)
  qed
  show "db_ok (remove_job i d)"
    using assms by (auto simp: db_ok_def remove_job_def list_all_iff distinct_map intro: inj_on_subset)
  show "db_ok (cancel_running i d)"
    using assms by (auto simp: db_ok_def cancel_running_def list_all_iff)
  show "db_ok (update_user v g d)"
    using assms by (simp add: db_ok_def update_user_def)
  show "db_ok (d\<lparr>db_jobs := db_jobs d @ [j]\<rparr>)" if "jb_id j \<notin> jb_id ` set (db_jobs d)"
    using assms that by (auto simp: db_ok_def list_all_iff)
qed

section \<open>One request\<close>

fun fresh_ok :: "user_request \<Rightarrow> db \<Rightarrow> bool" where
  "fresh_ok (DoCreateJob fresh now dberr body) d \<longleftrightarrow> fresh \<notin> jb_id ` set (db_jobs d)"
| "fresh_ok _ d \<longleftrightarrow> True"

lemmas job_handlers = CreateJob_def UpdateJob_def DeleteJob_def PauseJob_def ResumeJob_def setJobStatus_def
  TriggerJob_def ChangePassword_def Let_def

lemma new_job_sel [simp]: "jb_id (new_job i u now b) = i" "jb_user (new_job i u now b) = Some u"
  by (simp_all add: new_job_def)

lemma hash_update_keeps [simp]: "us_id (u\<lparr>us_hash := h\<rparr>) = us_id u"
  by simp

lemma serve_ok:
  assumes "db_ok d" and "fresh_ok r d"
  shows "db_ok (fst (serve hash same uid r d))"
  using assms
  by (cases r)
    (auto simp: job_handlers intro!: db_ok_statements split: option.split prod.split)

lemma serve_other:
  assumes "db_ok d" and "v \<noteq> uid"
  shows "view uid (fst (serve hash same v r d)) = view uid d"
  using owned_once [OF assms(1) _ assms(2)] owned_Some(2) [of v _ d] assms
  by (cases r)
    (auto simp: job_handlers intro!: view_other split: option.split prod.split)

lemma HasRunning_status: "HasRunning i d \<longleftrightarrow> ''running'' \<in> ex_status ` set (filter (\<lambda>e. ex_job e = i) (db_execs d))"
  by (induction "db_execs d") (auto simp: HasRunning_def list_ex_iff image_iff Bex_def)

lemma HasRunning_view:
  assumes "owned_job uid i d = Some j"
  shows "HasRunning i (view uid d) = HasRunning i d"
  using filter_user_execs [OF assms] owned_Some(2) [OF assms] by (simp add: HasRunning_status job_execs_def)

lemma job_json_after:
  "j \<in> set (db_jobs d) \<Longrightarrow> jb_user j = Some uid \<Longrightarrow> view uid d = d' \<Longrightarrow> job_json d j = job_json d' j"
  by (auto simp: job_json_view)

lemma updated_member:
  assumes "owned_job uid i d = Some j" and "keeps_owner f"
  shows "f j \<in> set (db_jobs (update_job i f d))" "jb_user (f j) = Some uid"
  using owned_Some [OF assms(1)] assms(2) by (auto simp: update_job_def keeps_owner_def)

lemma job_json_updated:
  assumes "owned_job uid i d = Some j" and "keeps_owner f"
  shows "job_json (update_job i f (view uid d)) (f j) = job_json (update_job i f d) (f j)"
  using job_json_view [OF updated_member [OF assms]] by (simp add: view_own(1) [OF assms(2)])

lemma setJobStatus_view:
  "setJobStatus st req now uid i (view uid d) = apfst (view uid) (setJobStatus st req now uid i d)"
  using job_json_updated [of uid i d _ "\<lambda>k. k\<lparr>jb_status := st, jb_updated := now\<rparr>"]
  by (simp add: setJobStatus_def Let_def view_own split: option.split)

lemma UpdateJob_view: "UpdateJob now uid i body (view uid d) = apfst (view uid) (UpdateJob now uid i body d)"
  by (simp add: UpdateJob_def Let_def view_own job_json_updated split: option.split)

lemma CreateJob_view:
  assumes "db_ok d" and "fresh \<notin> jb_id ` set (db_jobs d)"
  shows "CreateJob fresh now dberr uid body (view uid d) = apfst (view uid) (CreateJob fresh now dberr uid body d)"
proof -
  have users: "uid \<in> us_id ` set (filter (\<lambda>u. us_id u = uid) (db_users d)) \<longleftrightarrow> uid \<in> us_id ` set (db_users d)"
    by auto
  have add: "view uid (d\<lparr>db_jobs := db_jobs d @ [new_job fresh uid now b]\<rparr>) =
      (view uid d)\<lparr>db_jobs := db_jobs (view uid d) @ [new_job fresh uid now b]\<rparr>" for b
    using assms by (intro view_own(5)) simp_all
  have "job_json ((view uid d)\<lparr>db_jobs := db_jobs (view uid d) @ [new_job fresh uid now b]\<rparr>) (new_job fresh uid now b) =
      job_json (d\<lparr>db_jobs := db_jobs d @ [new_job fresh uid now b]\<rparr>) (new_job fresh uid now b)" for b
    by (rule job_json_after [symmetric, OF _ _ add]) simp_all
  then show ?thesis
    using add users by (simp add: CreateJob_def Let_def split: option.split)
qed

lemma TriggerJob_view: "TriggerJob uid i (view uid d) = apfst (view uid) (TriggerJob uid i d)"
  by (auto simp: TriggerJob_def view_own HasRunning_view owned_Some(2) split: option.split)

lemma DeleteJob_view: "DeleteJob uid i (view uid d) = apfst (view uid) (DeleteJob uid i d)"
  by (simp add: DeleteJob_def view_own split: option.split)

lemma ChangePassword_view:
  "ChangePassword hash same uid body (view uid d) = apfst (view uid) (ChangePassword hash same uid body d)"
  by (simp add: ChangePassword_def Let_def view_own split: option.split)

lemma reads_view:
  assumes "db_ok d"
  shows "ListJobs uid (view uid d) = ListJobs uid d"
    and "GetJob uid i (view uid d) = GetJob uid i d"
    and "ListExecutions uid job l off (view uid d) = ListExecutions uid job l off d"
    and "ListRunningExecutions uid (view uid d) = ListRunningExecutions uid d"
    and "GetExecution uid x (view uid d) = GetExecution uid x d"
    and "ReportSummary uid (view uid d) = ReportSummary uid d"
    and "ReportTimeline recent date_back uid q (view uid d) = ReportTimeline recent date_back uid q d"
    and "ReportJobs uid (view uid d) = ReportJobs uid d"
    and "ReportCSV period rfc cast uid q job (view uid d) = ReportCSV period rfc cast uid q job d"
proof -
  show "ListJobs uid (view uid d) = ListJobs uid d"
    by (simp add: ListJobs_def job_json_view cong: map_cong)
  show "GetJob uid i (view uid d) = GetJob uid i d"
    by (auto simp: GetJob_def job_json_view owned_Some split: option.split)
  have page: "set (page_of l' o' (rev (filter P (user_execs uid d)))) \<subseteq> set (user_execs uid d)" for l' o' P
    by (auto simp: page_of_def dest!: in_set_takeD in_set_dropD)
  show "ListExecutions uid job l off (view uid d) = ListExecutions uid job l off d"
    by (simp add: ListExecutions_def Let_def rows_reply_view [OF assms page])
  show "ListRunningExecutions uid (view uid d) = ListRunningExecutions uid d"
    by (simp add: ListRunningExecutions_def rows_reply_view [OF assms])
  show "GetExecution uid x (view uid d) = GetExecution uid x d"
  proof (cases "find (\<lambda>e. ex_id e = x) (user_execs uid d)")
    case (Some e)
    then have "rows_reply (view uid d) [e] = rows_reply d [e]"
      using find_SomeD [OF Some] by (intro rows_reply_view [OF assms]) simp
    then show ?thesis using Some by (simp add: GetExecution_def rows_reply_def)
  qed (simp add: GetExecution_def)
  show "ReportSummary uid (view uid d) = ReportSummary uid d"
    by (simp add: ReportSummary_def)
  show "ReportTimeline recent date_back uid q (view uid d) = ReportTimeline recent date_back uid q d"
    by (simp add: ReportTimeline_def timeline_rows_def)
  show "ReportJobs uid (view uid d) = ReportJobs uid d"
    by (auto simp: ReportJobs_def job_execs_view cong: map_cong)
  have "csv_row_of rfc cast (view uid d) e = csv_row_of rfc cast d e" if "e \<in> set (user_execs uid d)" for e
    using any_job_own [OF assms that] by (simp add: csv_row_of_def job_name_of_def)
  then show "ReportCSV period rfc cast uid q job (view uid d) = ReportCSV period rfc cast uid q job d"
    by (auto simp: ReportCSV_def csv_rows_def intro!: arg_cong [where f = csv_file] map_cong)
qed

lemma serve_own:
  assumes "db_ok d" and "fresh_ok r d"
  shows "serve hash same uid r (view uid d) = apfst (view uid) (serve hash same uid r d)"
  using assms
  by (cases r)
    (simp_all add: reads_view CreateJob_view UpdateJob_view DeleteJob_view PauseJob_def ResumeJob_def
      setJobStatus_view TriggerJob_view ChangePassword_view apfst_def apsnd_def map_prod_def split: prod.split)

section \<open>Runs\<close>

fun serve_all :: "(string \<Rightarrow> string option) \<Rightarrow> (string \<Rightarrow> string \<Rightarrow> bool) \<Rightarrow> (string \<times> user_request) list \<Rightarrow> db
    \<Rightarrow> db \<times> (string \<times> answer) list" where
  "serve_all hash same [] d = (d, [])"
| "serve_all hash same ((uid, r) # rs) d =
     (let (d', a) = serve hash same uid r d; (d'', as) = serve_all hash same rs d' in (d'', (uid, a) # as))"

fun all_fresh :: "(string \<Rightarrow> string option) \<Rightarrow> (string \<Rightarrow> string \<Rightarrow> bool) \<Rightarrow> (string \<times> user_request) list \<Rightarrow> db
    \<Rightarrow> bool" where
  "all_fresh hash same [] d \<longleftrightarrow> True"
| "all_fresh hash same ((uid, r) # rs) d \<longleftrightarrow>
     fresh_ok r d \<and> all_fresh hash same rs (fst (serve hash same uid r d))"

section \<open>Properties\<close>

text \<open>C1: The users of the API cannot see or touch each other's data.  In any interleaving of requests
  of any users, the replies one user gets and what becomes of the user's account, jobs and executions
  are those of a run in which only this user's requests are made on a database that holds only this
  user's rows.\<close>

theorem users_isolated:
  assumes "db_ok d" and "all_fresh hash same rs d"
  shows "(view uid (fst (serve_all hash same rs d)), filter (\<lambda>(v, a). v = uid) (snd (serve_all hash same rs d))) =
    serve_all hash same (filter (\<lambda>(v, r). v = uid) rs) (view uid d)"
  using assms
proof (induction rs arbitrary: d)
  case (Cons vr rs)
  obtain v r where vr: "vr = (v, r)" by (cases vr)
  let ?d' = "fst (serve hash same v r d)"
  have "db_ok ?d'" and "all_fresh hash same rs ?d'"
    using Cons.prems serve_ok [of d r hash same v] by (simp_all add: vr)
  note ih = Cons.IH [OF this]
  show ?case
  proof (cases "v = uid")
    case True
    have "serve hash same uid r (view uid d) = (view uid ?d', snd (serve hash same uid r d))"
      using serve_own [of d r hash same uid] Cons.prems True by (simp add: vr apfst_def map_prod_def prod.case_eq_if)
    then show ?thesis using ih True by (simp add: vr Let_def case_prod_beta') (metis fst_conv snd_conv)
  next
    case False
    then show ?thesis
      using ih serve_other [OF Cons.prems(1) False, of hash same r] by (simp add: vr Let_def case_prod_beta')
  qed
qed simp

theorem users_isolated_witness:
  "let rs = [(''2'', DoDeleteJob ''7''), (''1'', DoPauseJob ''u'' ''7''), (''2'', DoListJobs), (''1'', DoGetJob ''7'')];
       none = (\<lambda>p. None); never = (\<lambda>h p. False)
   in map fst (filter (\<lambda>(v, a). v = ''1'') (snd (serve_all none never rs sample_db))) = [''1'', ''1''] \<and>
      filter (\<lambda>(v, a). v = ''1'') (snd (serve_all none never rs sample_db)) =
        snd (serve_all none never [(''1'', DoPauseJob ''u'' ''7''), (''1'', DoGetJob ''7'')] (view ''1'' sample_db))"
proof -
  let ?rs = "[(''2'', DoDeleteJob ''7''), (''1'', DoPauseJob ''u'' ''7''), (''2'', DoListJobs), (''1'', DoGetJob ''7'')]"
  have ok: "db_ok sample_db" by (simp add: db_ok_def sample_db_def)
  have fresh: "all_fresh (\<lambda>p. None) (\<lambda>h p. False) ?rs sample_db" by simp
  have "filter (\<lambda>(v, a). v = ''1'') (snd (serve_all (\<lambda>p. None) (\<lambda>h p. False) ?rs sample_db)) =
      snd (serve_all (\<lambda>p. None) (\<lambda>h p. False) [(''1'', DoPauseJob ''u'' ''7''), (''1'', DoGetJob ''7'')] (view ''1'' sample_db))"
    using users_isolated [OF ok fresh, of "''1''"] by (simp add: prod_eq_iff del: serve.simps)
  moreover have "map fst (snd (serve_all (\<lambda>p. None) (\<lambda>h p. False)
      [(''1'', DoPauseJob ''u'' ''7''), (''1'', DoGetJob ''7'')] (view ''1'' sample_db))) = [''1'', ''1'']"
    by (simp add: Let_def case_prod_beta' del: serve.simps)
  ultimately show ?thesis unfolding Let_def by presburger
qed

end
