(* ===== verification/Credentials.thy ===== *)
theory Credentials
  imports Widgets
begin

text \<open>
  \<open>Login.jsx\<close> and \<open>Register.jsx\<close>: the two credential forms.  \<open>handleSubmit\<close> is an
  asynchronous function, so it is split at its \<open>await\<close>: the part up to the call, and what
  happens when the call's promise settles.  The two pages have their own copies of the code and so
  of the definitions; what they promise in common is the locale \<open>credential_form\<close>.
\<close>

record cred_state =
  form_email :: string
  form_password :: string
  form_error :: jsval
  form_loading :: bool

datatype cred_event = EmailChange | PasswordChange | SubmitForm

type_synonym outcome_of = "response + failure"

text \<open>\<open>v.k\<close>: reading a property of \<open>null\<close> or \<open>undefined\<close> throws.\<close>

definition get :: "jsval \<Rightarrow> string \<Rightarrow> jsval option" where
  "get v k = (if v = JUndef \<or> v = JNull then None else Some (oget v k))"

section \<open>Login.jsx\<close>

definition login_features :: "string list" where
  "login_features =
    [''Schedule jobs with any cron expression'', ''Real-time execution monitoring & logs'',
     ''Webhook delivery with retry tracking'']"

definition login_init :: cred_state where
  "login_init = \<lparr>form_email = [], form_password = [], form_error = JStr [], form_loading = False\<rparr>"

fun Login_change :: "cred_event \<Rightarrow> string \<Rightarrow> cred_state \<Rightarrow> cred_state" where
  "Login_change EmailChange v s = s\<lparr>form_email := v\<rparr>"
| "Login_change PasswordChange v s = s\<lparr>form_password := v\<rparr>"
| "Login_change SubmitForm v s = s"

definition Login_submit :: "cred_state \<Rightarrow> cred_state \<times> call" where
  "Login_submit s =
     (s\<lparr>form_error := JStr [], form_loading := True\<rparr>, login (form_email s) (form_password s))"

text \<open>The rest after the \<open>await\<close>: \<open>try\<close>, \<open>catch\<close> and
  \<open>finally\<close>. An exception of the \<open>try\<close> block itself has no response, so
  \<open>catch\<close> shows the default text.\<close>

fun Login_settled :: "outcome_of \<Rightarrow> cred_state \<Rightarrow> browser \<Rightarrow> cred_state \<times> browser \<times> effect list" where
  "Login_settled (Inr err) s b =
     (s\<lparr>form_error := failure_text err ''Login failed'', form_loading := False\<rparr>, b, [])"
| "Login_settled (Inl resp) s b =
     (case (get (rs_data resp) ''token'', get (rs_data resp) ''user'') of
        (Some t, Some u) \<Rightarrow>
          (s\<lparr>form_loading := False\<rparr>, setAuth t u b, [Navigate ''/dashboard'' True])
      | _ \<Rightarrow>
          (s\<lparr>form_error := failure_text NoResponse ''Login failed'', form_loading := False\<rparr>, b, []))"

definition Login :: "int \<Rightarrow> cred_state \<Rightarrow> cred_event node list" where
  "Login year s =
    [Elem ''div'' []
      [Elem ''div'' []
        [Elem ''div'' [] [Elem ''span'' [] [Text ''CronPilot''], Elem ''span'' [] [Text ''v1.0'']],
         Elem ''div'' []
          [Elem ''div'' []
            [Elem ''h2'' [] [Text ''Reliable cron scheduling'', Elem ''br'' [] [], Text ''for your infrastructure.''],
             Elem ''p'' [] [Text ''Built for engineering teams that need precise, observable job execution without managing cron daemons.'']],
           Elem ''div'' [] (map (\<lambda>t. Elem ''div'' [] [Elem ''span'' [] [Text t]]) login_features),
           Elem ''div'' []
            [Elem ''div'' [] [Text ''# example job schedule''],
             Elem ''div'' [] [Elem ''span'' [] [Text ''*/5 * * * *''], Elem ''span'' [] [Text ''POST https://api.acme.com/sync'']],
             Elem ''div'' [] [Elem ''span'' [] [Text check_mark],
               Elem ''span'' [] [Text (''last run 2m ago '' @ middle_dot @ '' 204ms '' @ middle_dot @ '' 200 OK'')]]]],
         Elem ''p'' [] [Text (copyright_sign @ '' ''), Text (int_string year), Text '' CronPilot. Internal tooling.'']],
       Elem ''div'' []
        [Elem ''div'' []
          [Elem ''div'' [] [Elem ''span'' [] [Text ''CronPilot'']],
           Elem ''h1'' [] [Text ''Sign in''],
           Elem ''p'' [] [Text ''Welcome back. Enter your credentials to continue.''],
           Elem ''form'' [On ''submit'' SubmitForm]
            (and_then (form_error s) [Elem ''div'' [] (shown (form_error s))]
             @ [Elem ''div'' [] [Elem ''label'' [] [Text ''Email''],
                  Elem ''input''
                    [Attr ''type'' ''email'', Flag ''required'' True, Attr ''autoComplete'' ''email'',
                     Attr ''value'' (form_email s), On ''change'' EmailChange,
                     Attr ''placeholder'' ''engineer@company.com''] []],
                Elem ''div'' [] [Elem ''label'' [] [Text ''Password''],
                  Elem ''input''
                    [Attr ''type'' ''password'', Flag ''required'' True, Attr ''autoComplete'' ''current-password'',
                     Attr ''value'' (form_password s), On ''change'' PasswordChange,
                     Attr ''placeholder'' (concat (replicate 8 bullet))] []],
                Elem ''button'' [Attr ''type'' ''submit'', Flag ''disabled'' (form_loading s)]
                  [Text (if form_loading s then ''Signing in'' @ ellipsis else ''Sign in'')]]),
           Elem ''p'' [] [Text ''Don't have an account?'', Text '' '',
             Elem ''Link'' [Attr ''to'' ''/register''] [Text ''Create one'']]]]]]"

section \<open>Register.jsx\<close>

definition register_highlights :: "string list" where
  "register_highlights =
    [''Sub-minute scheduling precision'', ''Secure, token-based API access'',
     ''Built for teams and shared workflows'']"

definition register_init :: cred_state where
  "register_init = \<lparr>form_email = [], form_password = [], form_error = JStr [], form_loading = False\<rparr>"

fun Register_change :: "cred_event \<Rightarrow> string \<Rightarrow> cred_state \<Rightarrow> cred_state" where
  "Register_change EmailChange v s = s\<lparr>form_email := v\<rparr>"
| "Register_change PasswordChange v s = s\<lparr>form_password := v\<rparr>"
| "Register_change SubmitForm v s = s"

definition Register_submit :: "cred_state \<Rightarrow> cred_state \<times> call" where
  "Register_submit s =
     (s\<lparr>form_error := JStr [], form_loading := True\<rparr>, register (form_email s) (form_password s))"

fun Register_settled :: "outcome_of \<Rightarrow> cred_state \<Rightarrow> browser \<Rightarrow> cred_state \<times> browser \<times> effect list" where
  "Register_settled (Inr err) s b =
     (s\<lparr>form_error := failure_text err ''Registration failed'', form_loading := False\<rparr>, b, [])"
| "Register_settled (Inl resp) s b =
     (case (get (rs_data resp) ''token'', get (rs_data resp) ''user'') of
        (Some t, Some u) \<Rightarrow>
          (s\<lparr>form_loading := False\<rparr>, setAuth t u b, [Navigate ''/dashboard'' True])
      | _ \<Rightarrow>
          (s\<lparr>form_error := failure_text NoResponse ''Registration failed'', form_loading := False\<rparr>, b, []))"

definition Register :: "int \<Rightarrow> cred_state \<Rightarrow> cred_event node list" where
  "Register year s =
    [Elem ''div'' []
      [Elem ''div'' []
        [Elem ''div'' [] [Elem ''span'' [] [Text ''CronPilot''], Elem ''span'' [] [Text ''v1.0'']],
         Elem ''div'' []
          [Elem ''div'' []
            [Elem ''h2'' [] [Text ''Your team's cron'', Elem ''br'' [] [], Text ''control plane.''],
             Elem ''p'' [] [Text (''One place to define, monitor, and audit all scheduled jobs across your services ''
               @ em_dash @ '' without touching a crontab.'')]],
           Elem ''div'' [] (map (\<lambda>t. Elem ''div'' [] [Elem ''span'' [] [Text t]]) register_highlights),
           Elem ''div'' []
            [Elem ''div'' [] [Text ''# get started in seconds''],
             Elem ''div'' [] [Elem ''span'' [] [Text ''POST''], Text '' /api/jobs''],
             Elem ''div'' []
              [Elem ''div'' [] [Elem ''span'' [] [Text ([dquote] @ ''cron_expression'' @ [dquote])], Text '': '',
                 Elem ''span'' [] [Text ([dquote] @ ''0 * * * *'' @ [dquote])]],
               Elem ''div'' [] [Elem ''span'' [] [Text ([dquote] @ ''url'' @ [dquote])], Text '': '',
                 Elem ''span'' [] [Text ([dquote] @ ''https://'' @ ellipsis @ [dquote])]]]]],
         Elem ''p'' [] [Text (copyright_sign @ '' ''), Text (int_string year), Text '' CronPilot. Internal tooling.'']],
       Elem ''div'' []
        [Elem ''div'' []
          [Elem ''div'' [] [Elem ''span'' [] [Text ''CronPilot'']],
           Elem ''h1'' [] [Text ''Create an account''],
           Elem ''p'' [] [Text ''Start scheduling jobs in under a minute.''],
           Elem ''form'' [On ''submit'' SubmitForm]
            (and_then (form_error s) [Elem ''div'' [] (shown (form_error s))]
             @ [Elem ''div'' [] [Elem ''label'' [] [Text ''Work email''],
                  Elem ''input''
                    [Attr ''type'' ''email'', Flag ''required'' True, Attr ''autoComplete'' ''email'',
                     Attr ''value'' (form_email s), On ''change'' EmailChange,
                     Attr ''placeholder'' ''engineer@company.com''] []],
                Elem ''div'' [] [Elem ''label'' [] [Text ''Password''],
                  Elem ''input''
                    [Attr ''type'' ''password'', Flag ''required'' True, NumAttr ''minLength'' 6,
                     Attr ''autoComplete'' ''new-password'', Attr ''value'' (form_password s),
                     On ''change'' PasswordChange, Attr ''placeholder'' ''At least 6 characters''] []],
                Elem ''button'' [Attr ''type'' ''submit'', Flag ''disabled'' (form_loading s)]
                  [Text (if form_loading s then ''Creating account'' @ ellipsis else ''Create account'')],
                Elem ''p'' [] [Text ''By creating an account you agree to our terms of service and acceptable use policy.'']]),
           Elem ''p'' [] [Text ''Already have an account?'', Text '' '',
             Elem ''Link'' [Attr ''to'' ''/login''] [Text ''Sign in'']]]]]]"

section \<open>What the two forms promise\<close>

text \<open>
  The life of such a form: edits at any time, a submission while the submit button is enabled (a
  form whose submit button is disabled cannot be submitted), and a call in flight that settles with
  any outcome.  The third component holds the calls in flight.
\<close>

inductive cred_run ::
    "(cred_event \<Rightarrow> string \<Rightarrow> cred_state \<Rightarrow> cred_state) \<Rightarrow> (cred_state \<Rightarrow> cred_state \<times> call) \<Rightarrow>
     (outcome_of \<Rightarrow> cred_state \<Rightarrow> browser \<Rightarrow> cred_state \<times> browser \<times> effect list) \<Rightarrow>
     cred_state \<Rightarrow> browser \<Rightarrow> cred_state \<Rightarrow> browser \<Rightarrow> call list \<Rightarrow> bool"
  for change submit settled s0 b0 where
  mounted: "cred_run change submit settled s0 b0 s0 b0 []"
| edited: "cred_run change submit settled s0 b0 s b cs \<Longrightarrow>
    cred_run change submit settled s0 b0 (change e v s) b cs"
| submitted: "cred_run change submit settled s0 b0 s b cs \<Longrightarrow> \<not> form_loading s \<Longrightarrow>
    submit s = (s', c) \<Longrightarrow> cred_run change submit settled s0 b0 s' b (c # cs)"
| answered: "cred_run change submit settled s0 b0 s b cs \<Longrightarrow> c \<in> set cs \<Longrightarrow>
    settled r s b = (s', b', es) \<Longrightarrow> cred_run change submit settled s0 b0 s' b' (remove1 c cs)"

lemma setAuth_twice: "setAuth t u (setAuth t' u' b) = setAuth t u b"
  by (simp add: setAuth_def setItem_def fun_upd_twist)

locale credential_form =
  fixes change :: "cred_event \<Rightarrow> string \<Rightarrow> cred_state \<Rightarrow> cred_state"
    and submit :: "cred_state \<Rightarrow> cred_state \<times> call"
    and settled :: "outcome_of \<Rightarrow> cred_state \<Rightarrow> browser \<Rightarrow> cred_state \<times> browser \<times> effect list"
    and api :: "string \<Rightarrow> string \<Rightarrow> call"
  assumes change_keeps: "form_loading (change e v s) = form_loading s"
      "form_error (change e v s) = form_error s"
    and submit_is: "submit s =
      (s\<lparr>form_error := JStr [], form_loading := True\<rparr>, api (form_email s) (form_password s))"
    and settled_ends: "settled r s b = (s', b', es) \<Longrightarrow> \<not> form_loading s'"
    and settled_session: "settled r s b = (s', b', es) \<Longrightarrow>
      b' = b \<and> es = [] \<and> truthy (form_error s') \<or>
      (\<exists>t u. b' = setAuth t u b \<and> es = [Navigate ''/dashboard'' True] \<and> form_error s' = form_error s)"
begin

lemma in_flight:
  assumes "cred_run change submit settled s0 b0 s b cs" and "\<not> form_loading s0"
  shows "length cs \<le> 1 \<and> (form_loading s \<longleftrightarrow> cs \<noteq> [])"
  using assms
proof (induction rule: cred_run.induct)
  case (answered s b cs c r s' b' es)
  then have "cs = [c]" by (cases cs) auto
  with answered show ?case using settled_ends by auto
qed (auto simp: change_keeps submit_is)

lemma no_stale_error:
  assumes "cred_run change submit settled s0 b0 s b cs" and "\<not> form_loading s0"
  shows "cs \<noteq> [] \<Longrightarrow> form_error s = JStr []"
  using assms
proof (induction rule: cred_run.induct)
  case (answered s b cs c r s' b' es)
  then have "cs = [c]" using in_flight [of s0 b0 s b cs] by (cases cs) auto
  with answered show ?case by simp
qed (auto simp: change_keeps submit_is)

lemma session_from_answers:
  assumes "cred_run change submit settled s0 b0 s b cs"
  shows "b = b0 \<or> (\<exists>t u. b = setAuth t u b0)"
  using assms
proof (induction rule: cred_run.induct)
  case (answered s b cs c r s' b' es)
  then show ?case
    using settled_session [OF answered.hyps(3)] by (metis setAuth_twice)
qed auto

end

interpretation login_form: credential_form Login_change Login_submit Login_settled login
proof unfold_locales
  fix r s b s' b' es
  assume "Login_settled r s b = (s', b', es)"
  then show "\<not> form_loading s'" and "b' = b \<and> es = [] \<and> truthy (form_error s') \<or>
      (\<exists>t u. b' = setAuth t u b \<and> es = [Navigate ''/dashboard'' True] \<and> form_error s' = form_error s)"
    by (cases r; fastforce simp: failure_text_truthy split: option.splits)+
next
  show "form_loading (Login_change e v s) = form_loading s" for e v s by (cases e) simp_all
  show "form_error (Login_change e v s) = form_error s" for e v s by (cases e) simp_all
qed (simp add: Login_submit_def)

interpretation register_form: credential_form Register_change Register_submit Register_settled register
proof unfold_locales
  fix r s b s' b' es
  assume "Register_settled r s b = (s', b', es)"
  then show "\<not> form_loading s'" and "b' = b \<and> es = [] \<and> truthy (form_error s') \<or>
      (\<exists>t u. b' = setAuth t u b \<and> es = [Navigate ''/dashboard'' True] \<and> form_error s' = form_error s)"
    by (cases r; fastforce simp: failure_text_truthy split: option.splits)+
next
  show "form_loading (Register_change e v s) = form_loading s" for e v s by (cases e) simp_all
  show "form_error (Register_change e v s) = form_error s" for e v s by (cases e) simp_all
qed (simp add: Register_submit_def)

section \<open>Facts\<close>

lemma Login_settled_accepted:
  assumes "rs_data resp = JObj ps" and "field ps ''token'' = t" and "field ps ''user'' = u"
  shows "Login_settled (Inl resp) s b = (s\<lparr>form_loading := False\<rparr>, setAuth t u b, [Navigate ''/dashboard'' True])"
  using assms by (simp add: get_def field_def)

lemma Register_settled_accepted:
  assumes "rs_data resp = JObj ps" and "field ps ''token'' = t" and "field ps ''user'' = u"
  shows "Register_settled (Inl resp) s b = (s\<lparr>form_loading := False\<rparr>, setAuth t u b, [Navigate ''/dashboard'' True])"
  using assms by (simp add: get_def field_def)

lemma static_lines [simp]:
  "events (map (\<lambda>t. Elem ''div'' [] [Elem ''span'' [] [Text t]]) ts) = []"
  "links (map (\<lambda>t. Elem ''div'' [] [Elem ''span'' [] [Text t]]) ts) = []"
  by (induction ts) (simp_all add: ui_eval)

lemma links_Login: "links (Login year s) = [''/register'']"
  and links_Register: "links (Register year s) = [''/login'']"
  by (simp_all add: Login_def Register_def ui_eval)

section \<open>Properties\<close>

text \<open>The login form makes one attempt at a time.  In every state it can reach, with any
  interleaving of edits, submissions and answers, at most one call is in flight, the form shows itself
  loading exactly while one is, no old error message stands beside a running attempt, and the browser
  session is the one the page found or the one an accepted answer set.\<close>

theorem login_attempts:
  assumes "cred_run Login_change Login_submit Login_settled login_init b0 s b cs"
  shows "length cs \<le> 1 \<and> (form_loading s \<longleftrightarrow> cs \<noteq> []) \<and> (cs \<noteq> [] \<longrightarrow> form_error s = JStr []) \<and>
    (b = b0 \<or> (\<exists>t u. b = setAuth t u b0))"
  using login_form.in_flight [OF assms] login_form.no_stale_error [OF assms]
    login_form.session_from_answers [OF assms] by (simp add: login_init_def)

theorem login_attempts_witness:
  "let s1 = Login_change EmailChange ''a@b.c'' login_init; (s, c) = Login_submit s1;
       b0 = \<lparr>local_storage = Map.empty, auth = init_auth Map.empty\<rparr>
   in rq_url (call_request c) = ''/api/auth/login'' \<and> length [c] \<le> 1 \<and> form_loading s \<and> form_error s = JStr []"
proof -
  let ?b0 = "\<lparr>local_storage = Map.empty, auth = init_auth Map.empty\<rparr>"
  let ?s1 = "Login_change EmailChange ''a@b.c'' login_init"
  have s1: "cred_run Login_change Login_submit Login_settled login_init ?b0 ?s1 ?b0 []"
    by (intro cred_run.edited cred_run.mounted)
  have "cred_run Login_change Login_submit Login_settled login_init ?b0
      (fst (Login_submit ?s1)) ?b0 [snd (Login_submit ?s1)]"
    by (rule cred_run.submitted [OF s1]) (simp_all add: login_init_def)
  from login_attempts [OF this] show ?thesis
    by (simp add: Let_def Login_submit_def auth_calls call_defs)
qed

end
