(* ===== verification/Profile.thy ===== *)
theory Profile
  imports Widgets
begin

text \<open>
  \<open>Profile.jsx\<close>: the account card and the change of password.  \<open>handleSubmit\<close> checks the two
  new passwords before it starts the mutation; \<open>onSuccess\<close> and \<open>onError\<close> are what the query
  library calls when it settles.  A success message is taken down by a timer that no other event
  cancels, so the state also counts the timers that are running.
\<close>

record profile_state =
  pf_current :: string
  pf_next :: string
  pf_confirm :: string
  pf_success :: bool
  pf_error :: jsval
  pf_timers :: nat

datatype profile_event = CurrentChange | NextChange | ConfirmChange | SubmitPassword

definition profile_init :: profile_state where
  "profile_init = \<lparr>pf_current = [], pf_next = [], pf_confirm = [], pf_success = False,
     pf_error = JStr [], pf_timers = 0\<rparr>"

fun Profile_change :: "profile_event \<Rightarrow> string \<Rightarrow> profile_state \<Rightarrow> profile_state" where
  "Profile_change CurrentChange v s = s\<lparr>pf_current := v\<rparr>"
| "Profile_change NextChange v s = s\<lparr>pf_next := v\<rparr>"
| "Profile_change ConfirmChange v s = s\<lparr>pf_confirm := v\<rparr>"
| "Profile_change SubmitPassword v s = s"

definition Profile_handleSubmit :: "profile_state \<Rightarrow> profile_state \<times> call list" where
  "Profile_handleSubmit s =
     (let s = s\<lparr>pf_error := JStr [], pf_success := False\<rparr> in
      if pf_next s \<noteq> pf_confirm s then
        (s\<lparr>pf_error := JStr ''New passwords do not match''\<rparr>, [])
      else if u16len (pf_next s) < 6 then
        (s\<lparr>pf_error := JStr ''New password must be at least 6 characters''\<rparr>, [])
      else (s, [changePassword (pf_current s) (pf_next s)]))"

definition Profile_onSuccess :: "profile_state \<Rightarrow> profile_state" where
  "Profile_onSuccess s =
     s\<lparr>pf_success := True, pf_current := [], pf_next := [], pf_confirm := [],
       pf_timers := Suc (pf_timers s)\<rparr>"

definition Profile_timeout :: "profile_state \<Rightarrow> profile_state" where
  "Profile_timeout s = s\<lparr>pf_success := False, pf_timers := pf_timers s - 1\<rparr>"

definition Profile_onError :: "failure \<Rightarrow> profile_state \<Rightarrow> profile_state" where
  "Profile_onError err s = s\<lparr>pf_error := failure_text err ''Failed to update password''\<rparr>"

definition password_field :: "string \<Rightarrow> string \<Rightarrow> profile_event \<Rightarrow> string \<Rightarrow> profile_event node" where
  "password_field label value ev autocomplete =
     Elem ''div'' []
      [Elem ''label'' [] [Text label],
       Elem ''input'' [Attr ''type'' ''password'', Flag ''required'' True, Attr ''value'' value,
         On ''change'' ev, Attr ''autoComplete'' autocomplete] []]"

definition Profile :: "jsval \<Rightarrow> profile_state \<Rightarrow> bool \<Rightarrow> profile_event node list" where
  "Profile me s isPending =
    [Elem ''div'' []
      [Elem ''h1'' [] [Text ''Profile''],
       Elem ''p'' [] [Text ''Manage your account settings''],
       Elem ''div'' []
        [Elem ''h2'' [] [Text ''Account''],
         Elem ''div'' []
          [Elem ''div'' [] (shown (initial (oget me ''email''))),
           Elem ''div'' []
            [Elem ''p'' [] (shown (oget me ''email'')), Elem ''p'' [] (shown (oget me ''role''))]]],
       Elem ''div'' []
        [Elem ''div'' [] [Elem ''h2'' [] [Text ''Change Password'']],
         Elem ''form'' [On ''submit'' SubmitPassword]
          ([password_field ''Current Password'' (pf_current s) CurrentChange ''current-password'',
            password_field ''New Password'' (pf_next s) NextChange ''new-password'',
            password_field ''Confirm New Password'' (pf_confirm s) ConfirmChange ''new-password'']
           @ and_then (pf_error s) [Elem ''p'' [] (shown (pf_error s))]
           @ show_if (pf_success s) [Elem ''div'' [] [Text ''Password updated successfully'']]
           @ [Elem ''div'' []
               [Elem ''button'' [Attr ''type'' ''submit'', Flag ''disabled'' isPending]
                 [Text (if isPending then ''Updating'' @ ellipsis else ''Update Password'')]]])]]]"

section \<open>The life of the page\<close>

text \<open>
  The mutation as the query library documents it: one run at a time while the button is disabled
  during it, then \<open>onSuccess\<close> or \<open>onError\<close>.  The flag says whether one is running.
\<close>

inductive profile_run :: "profile_state \<Rightarrow> bool \<Rightarrow> bool" where
  opened: "profile_run profile_init False"
| edited: "profile_run s p \<Longrightarrow> profile_run (Profile_change e v s) p"
| rejected: "profile_run s False \<Longrightarrow> Profile_handleSubmit s = (s', []) \<Longrightarrow> profile_run s' False"
| sent: "profile_run s False \<Longrightarrow> Profile_handleSubmit s = (s', [c]) \<Longrightarrow> profile_run s' True"
| succeeded: "profile_run s True \<Longrightarrow> profile_run (Profile_onSuccess s) False"
| failed: "profile_run s True \<Longrightarrow> profile_run (Profile_onError err s) False"
| timed_out: "profile_run s p \<Longrightarrow> pf_timers s > 0 \<Longrightarrow> profile_run (Profile_timeout s) p"

lemma submit_cases:
  "Profile_handleSubmit s =
     (if pf_next s = pf_confirm s \<and> 6 \<le> u16len (pf_next s)
      then (s\<lparr>pf_error := JStr [], pf_success := False\<rparr>, [changePassword (pf_current s) (pf_next s)])
      else (s\<lparr>pf_error := JStr (if pf_next s \<noteq> pf_confirm s then ''New passwords do not match''
               else ''New password must be at least 6 characters''), pf_success := False\<rparr>, []))"
  by (simp add: Profile_handleSubmit_def Let_def not_le)

lemma profile_inv:
  "profile_run s p \<Longrightarrow>
     (pf_success s \<longrightarrow> \<not> truthy (pf_error s) \<and> \<not> p \<and> pf_timers s > 0) \<and> (p \<longrightarrow> pf_error s = JStr [])"
proof (induction rule: profile_run.induct)
  case (edited s p e v)
  then show ?case by (cases e) simp_all
qed (auto simp: profile_init_def submit_cases Profile_onSuccess_def Profile_onError_def
      Profile_timeout_def failure_text_truthy split: if_splits)

section \<open>Properties\<close>

text \<open>The profile page tells one story at a time: in every state it can reach the success
  message and an error message are never shown together, neither is shown while a change is in
  flight, and a shown success message has a timer running that will take it down.\<close>

theorem profile_messages:
  assumes "profile_run s pending"
  shows "\<not> (pf_success s \<and> truthy (pf_error s)) \<and>
    (pending \<longrightarrow> \<not> pf_success s \<and> \<not> truthy (pf_error s)) \<and>
    (pf_success s \<longrightarrow> 0 < pf_timers s \<and> \<not> pf_success (Profile_timeout s))"
  using profile_inv [OF assms] by (auto simp: Profile_timeout_def)

theorem profile_messages_witness:
  "let s1 = Profile_change ConfirmChange ''secret'' (Profile_change NextChange ''secret'' profile_init);
       s2 = Profile_onSuccess (fst (Profile_handleSubmit s1))
   in pf_success s2 \<and> \<not> truthy (pf_error s2) \<and> 0 < pf_timers s2"
proof -
  let ?s1 = "Profile_change ConfirmChange ''secret'' (Profile_change NextChange ''secret'' profile_init)"
  have a: "profile_run ?s1 False"
    by (intro profile_run.edited profile_run.opened)
  have "Profile_handleSubmit ?s1 = (fst (Profile_handleSubmit ?s1), [changePassword [] ''secret''])"
    by (simp add: submit_cases units_def is_cont_def profile_init_def)
  then have "profile_run (Profile_onSuccess (fst (Profile_handleSubmit ?s1))) False"
    by (rule profile_run.succeeded [OF profile_run.sent [OF a]])
  from profile_messages [OF this] show ?thesis
    by (simp add: Let_def Profile_onSuccess_def)
qed

text \<open>What the profile page submits: nothing, and an error message instead, unless the new
  password is repeated exactly and has at least six UTF-16 units; then one request to the password
  endpoint with the current and the new password as typed.\<close>

theorem password_submission:
  "case Profile_handleSubmit s of (s', calls) \<Rightarrow>
     \<not> pf_success s' \<and>
     (if pf_next s = pf_confirm s \<and> 6 \<le> u16len (pf_next s)
      then \<not> truthy (pf_error s') \<and> map call_request calls =
        [client PUT ''/profile/password''
          (Some (JObj [(''current_password'', JStr (pf_current s)), (''new_password'', JStr (pf_next s))]))]
      else calls = [] \<and> truthy (pf_error s'))"
  by (simp add: submit_cases changePassword_def response_of_def)

end
