(* ===== verification/Shell.thy ===== *)
theory Shell
  imports Routes JobPages Dashboard Credentials Profile
begin

text \<open>
  What surrounds the pages: \<open>Layout.jsx\<close>, which puts the side bar and the header around the
  outlet of the route, and the defaults of the query client of \<open>main.jsx\<close>.  The lemmas collect
  where the links and navigations of all pages lead.
\<close>

datatype 'e shell_event = InHeader header_event | InPage 'e

definition Layout :: "auth_state \<Rightarrow> 'e node list \<Rightarrow> 'e shell_event node list" where
  "Layout a outlet =
    [Elem ''div'' []
      (map (map_event InPage) (Sidebar a)
       @ [Elem ''div'' []
           (map (map_event InHeader) (Header a)
            @ [Elem ''main'' [] (map (map_event InPage) outlet)])])]"

text \<open>Durations in milliseconds.\<close>

record query_defaults =
  staleTime :: nat
  refetchInterval :: nat
  retry :: nat

definition queryClient :: query_defaults where
  "queryClient = \<lparr>staleTime = 30000, refetchInterval = 30000, retry = 1\<rparr>"

section \<open>Links\<close>

lemma links_Layout:
  "links (Layout a outlet) =
     map fst navItems @ (if isAdmin a then map fst adminItems else []) @ [''/profile'', ''/profile'']
     @ links outlet"
  by (simp add: Layout_def ui_eval links_Sidebar links_Header)

lemma links_buttons [simp]:
  "links (map (\<lambda>(label, value). Elem ''button'' (f value) [Text label]) ps) = []"
  by (induction ps) (auto simp: ui_eval)

lemma links_options [simp]:
  "links (map (\<lambda>m. Elem ''option'' (f m) [Text (g m)]) ms) = []"
  by (induction ms) (auto simp: ui_eval)

lemma links_JobForm [simp]: "links (JobForm form l) = []"
  by (simp add: JobForm_def text_input_def ui_eval split: option.split)

lemma links_NewJob: "links (NewJob form l err) = []"
  by (simp add: NewJob_def ui_eval split: option.split)

lemma links_EditJob: "links (EditJob job b form l err) = []"
  by (simp add: EditJob_def ui_eval split: option.split)

lemma links_Profile: "links (Profile me s b) = []"
  by (simp add: Profile_def password_field_def ui_eval)

lemma filter_rows_subset: "filter_rows p xs = Some ys \<Longrightarrow> set ys \<subseteq> set xs"
proof (induction xs arbitrary: ys)
  case (Cons x xs)
  then show ?case by (auto split: option.splits if_splits)
qed simp

lemma links_cards:
  "links (concat (map (\<lambda>job. map (map_event (OnCard job)) (JobCard job)) jobs)) =
     concat (map (\<lambda>job. [job_link (job_id job), edit_link (job_id job)]) jobs)"
  by (induction jobs) (simp_all add: links_JobCard)

lemma links_placeholders [simp]: "links (replicate n (Elem ''div'' [] [])) = []"
  by (induction n) (simp_all add: ui_eval)

lemma links_Jobs:
  assumes "Jobs query (Some jobs) b = Some view" and "t \<in> set (links view)"
  shows "t = ''/jobs/new'' \<or> (\<exists>job \<in> set jobs. t = job_link (job_id job) \<or> t = edit_link (job_id job))"
proof -
  obtain js where js: "filter_rows (job_matches query) jobs = Some js"
    using assms(1) by (auto simp: Jobs_def filtered_def rows_or_empty_def split: option.splits)
  then have "t = ''/jobs/new'' \<or> (\<exists>job \<in> set js. t = job_link (job_id job) \<or> t = edit_link (job_id job))"
    using assms by (auto simp: Jobs_def filtered_def rows_or_empty_def ui_eval links_cards split: if_splits)
  then show ?thesis using filter_rows_subset [OF js] by blast
qed

section \<open>Where they lead\<close>

definition leads_to_page :: "element list picker \<Rightarrow> auth_state \<Rightarrow> string \<Rightarrow> bool" where
  "leads_to_page pick a path \<longleftrightarrow> (\<exists>p. visit pick a path = Shows p)"

text \<open>The id of a row can stand in a path and is not, in either case, the word that names the creation
  page.\<close>

definition id_ok :: "string \<Rightarrow> bool" where
  "id_ok i \<longleftrightarrow> segment i \<and> to_lower i \<noteq> ''new''"

lemma leads_literal:
  "router_contract pick \<Longrightarrow> isAuthenticated a \<Longrightarrow> path \<in> fst ` set literal_pages \<Longrightarrow> leads_to_page pick a path"
  unfolding leads_to_page_def using visit_literal by fastforce

lemma leads_job:
  "router_contract pick \<Longrightarrow> isAuthenticated a \<Longrightarrow> id_ok i \<Longrightarrow> leads_to_page pick a (job_link i)"
  "router_contract pick \<Longrightarrow> isAuthenticated a \<Longrightarrow> id_ok i \<Longrightarrow> leads_to_page pick a (edit_link i)"
  unfolding leads_to_page_def job_link_def edit_link_def id_ok_def
  using visit_job visit_job_edit by blast+

lemma leads_admin:
  "router_contract pick \<Longrightarrow> isAuthenticated a \<Longrightarrow> isAdmin a \<Longrightarrow> path \<in> fst ` set adminItems \<Longrightarrow>
     leads_to_page pick a path"
  unfolding leads_to_page_def
  using visit_admin [of pick "''/admin/jobs''" AdminJobsPage a]
    visit_admin [of pick "''/admin/users''" AdminUsersPage a]
  by (auto simp: adminItems_def)

lemma leads_nav:
  "router_contract pick \<Longrightarrow> isAuthenticated a \<Longrightarrow> path \<in> fst ` set navItems \<Longrightarrow> leads_to_page pick a path"
  by (rule leads_literal) (auto simp: navItems_def literal_pages_def)

lemma leads_nav_literals:
  "''/profile'' \<in> fst ` set literal_pages" "''/jobs'' \<in> fst ` set literal_pages"
  "''/jobs/new'' \<in> fst ` set literal_pages" "''/dashboard'' \<in> fst ` set literal_pages"
  by (simp_all add: literal_pages_def)

lemma leads_Layout:
  assumes "router_contract pick" and "isAuthenticated a"
    and "\<And>t. t \<in> set (links outlet) \<Longrightarrow> leads_to_page pick a t"
  shows "list_all (leads_to_page pick a) (links (Layout a outlet))"
proof -
  have "\<forall>t \<in> fst ` set navItems. leads_to_page pick a t"
    "\<forall>t \<in> fst ` set adminItems. isAdmin a \<longrightarrow> leads_to_page pick a t"
    "\<forall>t \<in> set (links outlet). leads_to_page pick a t" "leads_to_page pick a ''/profile''"
    using leads_nav [OF assms(1,2)] leads_admin [OF assms(1,2)] assms(3)
      leads_literal [OF assms(1,2) leads_nav_literals(1)] by simp_all
  then show ?thesis
    by (cases "isAdmin a") (simp_all add: links_Layout list_all_iff ball_Un)
qed

lemma leads_Jobs:
  assumes "router_contract pick" and "isAuthenticated a" and "list_all (\<lambda>j. id_ok (job_id j)) jobs"
    and "Jobs query (Some jobs) b = Some view" and "t \<in> set (links view)"
  shows "leads_to_page pick a t"
  using links_Jobs [OF assms(4,5)] assms(3) leads_job [OF assms(1,2)]
    leads_literal [OF assms(1,2) leads_nav_literals(3)]
  by (auto simp: list_all_iff)

lemma leads_Dashboard:
  assumes "router_contract pick" and "isAuthenticated a" and "list_all (\<lambda>j. id_ok (job_id j)) jobs"
    and "list_all (\<lambda>e. id_ok (js_text (field e ''job_id''))) running"
    and "t \<in> set (links (Dashboard fmt el (Some jobs) es (Some running)))"
  shows "leads_to_page pick a t"
proof -
  have "set (take 6 jobs) \<subseteq> set jobs" by (rule set_take_subset)
  then show ?thesis
    using assms(3-5) leads_job(1) [OF assms(1,2)] leads_literal [OF assms(1,2) leads_nav_literals(2)]
      leads_literal [OF assms(1,2) leads_nav_literals(3)]
    by (auto simp: links_Dashboard list_all_iff split: if_splits)
qed

lemma leads_JobDetail:
  assumes "router_contract pick" and "isAuthenticated a" and "id_ok i"
    and "t \<in> set (links (JobDetail fmt i (Some job) False es))"
  shows "leads_to_page pick a t"
  using assms(4) leads_job(2) [OF assms(1-3)] leads_literal [OF assms(1,2) leads_nav_literals(2)]
  by (auto simp: links_JobDetail)

end
