(* ===== verification/AdminUsers.thy ===== *)
theory AdminUsers
  imports Widgets
begin

text \<open>
  \<open>AdminUsers.jsx\<close>: the list of accounts, the modal that creates or edits one, and the three
  mutations.  The modal is mounted with its own form object each time it opens.
\<close>

section \<open>RoleBadge\<close>

definition RoleBadge :: "jsval \<Rightarrow> 'e node" where
  "RoleBadge role =
     (if role = JStr ''admin''
      then Elem ''span'' [Attr ''className''
        ''inline-flex items-center gap-1 px-2 py-0.5 rounded-full text-xs font-medium bg-amber-100 text-amber-700'']
        [Text ''admin'']
      else Elem ''span'' [Attr ''className''
        ''inline-flex items-center gap-1 px-2 py-0.5 rounded-full text-xs font-medium bg-gray-100 text-gray-600'']
        [Text ''user''])"

section \<open>UserModal\<close>

definition EMPTY_FORM :: props where
  "EMPTY_FORM = [(''email'', JStr []), (''password'', JStr []), (''role'', JStr ''user'')]"

text \<open>\<open>initial\<close> is undefined when an account is created.\<close>

definition isEdit :: "props option \<Rightarrow> bool" where
  "isEdit given = (case given of None \<Rightarrow> False | Some u \<Rightarrow> truthy (field u ''id''))"

definition modal_form :: "props option \<Rightarrow> props" where
  "modal_form given =
     (case given of
        Some u \<Rightarrow>
          if isEdit given
          then [(''email'', field u ''email''), (''password'', JStr []), (''role'', field u ''role'')]
          else EMPTY_FORM
      | None \<Rightarrow> EMPTY_FORM)"

text \<open>\<open>handleSubmit\<close>: the payload handed to \<open>onSave\<close>.\<close>

definition modal_payload :: "props option \<Rightarrow> props \<Rightarrow> props" where
  "modal_payload given form =
     (if isEdit given
      then spread [(''role'', field form ''role'')]
             (if truthy (field form ''password'') then [(''password'', field form ''password'')] else [])
      else [(''email'', field form ''email''), (''password'', field form ''password''),
            (''role'', field form ''role'')])"

datatype modal_event = ModalChange string | ModalSubmit | ModalClose

fun UserModal_change :: "modal_event \<Rightarrow> string \<Rightarrow> props \<Rightarrow> props" where
  "UserModal_change (ModalChange key) v f = put f key (JStr v)"
| "UserModal_change _ v f = f"

definition UserModal :: "props option \<Rightarrow> props \<Rightarrow> bool \<Rightarrow> jsval \<Rightarrow> modal_event node list" where
  "UserModal given form isLoading error =
    (let edit = isEdit given in
    [Elem ''div'' []
      [Elem ''div'' []
        [Elem ''div'' []
          [Elem ''h2'' [] [Text (if edit then ''Edit User'' else ''New User'')],
           Elem ''button'' [On ''click'' ModalClose] []],
         Elem ''form'' [On ''submit'' ModalSubmit]
          (and_then error [Elem ''p'' [] (shown error)]
           @ show_if (\<not> edit)
               [Elem ''div'' [] [Elem ''label'' [] [Text ''Email''],
                 Elem ''input'' [Attr ''type'' ''email'', Flag ''required'' True,
                   Attr ''value'' (input_value (field form ''email'')), On ''change'' (ModalChange ''email''),
                   Attr ''placeholder'' ''user@example.com''] []]]
           @ [Elem ''div'' []
               [Elem ''label'' []
                  (Text (if edit then ''New Password'' else ''Password'')
                   # show_if edit [Elem ''span'' [] [Text ''(leave blank to keep)'']]),
                Elem ''input'' [Attr ''type'' ''password'',
                  Attr ''value'' (input_value (field form ''password'')),
                  NumAttr ''minLength'' (if edit then 0 else 6), Flag ''required'' (\<not> edit),
                  On ''change'' (ModalChange ''password''),
                  Attr ''placeholder'' (if edit then ''Leave blank to keep current'' else ''At least 6 characters'')] []],
              Elem ''div'' [] [Elem ''label'' [] [Text ''Role''],
                Elem ''select'' [Attr ''value'' (input_value (field form ''role'')), On ''change'' (ModalChange ''role'')]
                  [Elem ''option'' [Attr ''option-value'' ''user''] [Text ''user''],
                   Elem ''option'' [Attr ''option-value'' ''admin''] [Text ''admin'']]],
              Elem ''div'' []
               [Elem ''button'' [Attr ''type'' ''button'', On ''click'' ModalClose] [Text ''Cancel''],
                Elem ''button'' [Attr ''type'' ''submit'', Flag ''disabled'' isLoading]
                  [Text (if isLoading then ''Saving'' @ ellipsis else if edit then ''Save changes'' else ''Create user'')]]])]]])"

section \<open>The page\<close>

datatype modal = CreateModal | EditModal props

record admin_users_state =
  au_modal :: "modal option"
  au_error :: jsval

definition AdminUsers_init :: admin_users_state where
  "AdminUsers_init = \<lparr>au_modal = None, au_error = JStr []\<rparr>"

datatype admin_user_event =
    OpenCreate
  | OpenEdit props
  | DeleteUser props
  | InModal modal_event

definition openCreate :: "admin_users_state \<Rightarrow> admin_users_state" where
  "openCreate s = s\<lparr>au_error := JStr [], au_modal := Some CreateModal\<rparr>"

definition openEdit :: "props \<Rightarrow> admin_users_state \<Rightarrow> admin_users_state" where
  "openEdit u s = s\<lparr>au_error := JStr [], au_modal := Some (EditModal u)\<rparr>"

text \<open>\<open>modal.mode\<close> of a closed modal throws; the page then makes no call.\<close>

definition handleSave :: "props \<Rightarrow> admin_users_state \<Rightarrow> admin_users_state \<times> call list" where
  "handleSave payload s =
     (s\<lparr>au_error := JStr []\<rparr>,
      case au_modal s of
        None \<Rightarrow> []
      | Some CreateModal \<Rightarrow> [admin_createUser (JObj payload)]
      | Some (EditModal u) \<Rightarrow> [admin_updateUser (js_text (field u ''id'')) (JObj payload)])"

definition modal_given :: "modal \<Rightarrow> props option" where
  "modal_given m = (case m of CreateModal \<Rightarrow> None | EditModal u \<Rightarrow> Some u)"

definition user_delete_question :: "props \<Rightarrow> string" where
  "user_delete_question u = ''Delete '' @ js_text (field u ''email'') @ ''?''"

fun AdminUsers_step ::
    "(string \<Rightarrow> bool) \<Rightarrow> admin_user_event \<Rightarrow> props \<Rightarrow> admin_users_state \<Rightarrow> admin_users_state \<times> call list" where
  "AdminUsers_step ask OpenCreate form s = (openCreate s, [])"
| "AdminUsers_step ask (OpenEdit u) form s = (openEdit u s, [])"
| "AdminUsers_step ask (DeleteUser u) form s =
     (s, if ask (user_delete_question u) then [admin_deleteUser (js_text (field u ''id''))] else [])"
| "AdminUsers_step ask (InModal ModalClose) form s = (s\<lparr>au_modal := None\<rparr>, [])"
| "AdminUsers_step ask (InModal ModalSubmit) form s =
     (case au_modal s of
        None \<Rightarrow> (s, [])
      | Some m \<Rightarrow> handleSave (modal_payload (modal_given m) form) s)"
| "AdminUsers_step ask (InModal (ModalChange key)) form s = (s, [])"

text \<open>\<open>onSuccess\<close> of the create and update mutations, and the three \<open>onError\<close>.\<close>

definition AdminUsers_saved :: "admin_users_state \<Rightarrow> admin_users_state \<times> effect list" where
  "AdminUsers_saved s = (s\<lparr>au_modal := None\<rparr>, [Invalidate [''admin-users'']])"

definition AdminUsers_create_failed :: "failure \<Rightarrow> admin_users_state \<Rightarrow> admin_users_state" where
  "AdminUsers_create_failed err s = s\<lparr>au_error := failure_text err ''Failed to create user''\<rparr>"

definition AdminUsers_update_failed :: "failure \<Rightarrow> admin_users_state \<Rightarrow> admin_users_state" where
  "AdminUsers_update_failed err s = s\<lparr>au_error := failure_text err ''Failed to update user''\<rparr>"

definition AdminUsers_queries :: "(query_key \<times> call) list" where
  "AdminUsers_queries = [([''admin-users''], admin_getUsers)]"

definition AdminUsers_deleted :: "effect list" where
  "AdminUsers_deleted = [Invalidate [''admin-users'']]"

definition AdminUsers_delete_failed :: "failure \<Rightarrow> effect list" where
  "AdminUsers_delete_failed err = [AlertBox (js_text (failure_text err ''Failed to delete user''))]"

definition user_row :: "dates \<Rightarrow> jsval \<Rightarrow> props \<Rightarrow> admin_user_event node" where
  "user_row fmt me u =
     (let mine = (field u ''id'' = oget me ''id'') in
      Elem ''tr'' []
       [Elem ''td'' [] (shown (field u ''email'') @ show_if mine [Elem ''span'' [] [Text ''(you)'']]),
        Elem ''td'' [] [RoleBadge (field u ''role'')],
        Elem ''td'' [] (shown (field u ''job_count'')),
        Elem ''td'' [] [Text (ago fmt (field u ''created_at''))],
        Elem ''td'' []
         [Elem ''div'' []
           [Elem ''button'' [On ''click'' (OpenEdit u), Attr ''title'' ''Edit''] [],
            Elem ''button'' [Flag ''disabled'' mine, On ''click'' (DeleteUser u), Attr ''title'' ''Delete''] []]]])"

definition AdminUsers ::
    "dates \<Rightarrow> jsval \<Rightarrow> admin_users_state \<Rightarrow> props list option \<Rightarrow> bool \<Rightarrow> props \<Rightarrow> bool \<Rightarrow> bool \<Rightarrow> admin_user_event node list" where
  "AdminUsers fmt me s users_data isLoading form creating updating =
     (let users = rows_or_empty users_data; mutLoading = creating \<or> updating in
      [Elem ''div'' []
        ([Elem ''div'' []
           [Elem ''div'' [] [Elem ''h1'' [] [Text ''Users''],
              Elem ''p'' [] [Text ''Manage all CronPilot accounts'']],
            Elem ''button'' [On ''click'' OpenCreate] [Text ''Add User'']],
          Elem ''div'' []
           [if isLoading then Elem ''div'' [] [Text (''Loading'' @ ellipsis)]
            else Elem ''table'' []
              [Elem ''thead'' [] [Elem ''tr'' []
                 (map (\<lambda>t. Elem ''th'' [] [Text t]) [''Email'', ''Role'', ''Jobs'', ''Joined'', ''Actions''])],
               Elem ''tbody'' [] (map (user_row fmt me) users)]]]
         @ (case au_modal s of
              None \<Rightarrow> []
            | Some m \<Rightarrow> map (map_event InModal) (UserModal (modal_given m) form mutLoading (au_error s))))])"

section \<open>Facts\<close>

lemma RoleBadge_inert [simp]: "node_events (RoleBadge r) = []"
  by (simp add: RoleBadge_def ui_eval)

lemma events_user_rows:
  "events (map (user_row fmt me) us) =
     concat (map (\<lambda>u. OpenEdit u # (if field u ''id'' = oget me ''id'' then [] else [DeleteUser u])) us)"
proof (induction us)
  case (Cons u us)
  have "node_events (user_row fmt me u) =
      OpenEdit u # (if field u ''id'' = oget me ''id'' then [] else [DeleteUser u])"
    using events_shown [of "field u ''email''"] events_shown [of "field u ''job_count''"]
    by (simp add: user_row_def Let_def ui_eval events_def show_if_def)
  with Cons show ?case by (simp add: events_def)
qed simp

lemma events_UserModal:
  "events (UserModal given form isLoading err) =
     [ModalClose, ModalSubmit] @ (if isEdit given then [] else [ModalChange ''email''])
     @ [ModalChange ''password'', ModalChange ''role'', ModalClose]"
  by (simp add: UserModal_def Let_def ui_eval)

lemma events_AdminUsers:
  "events (AdminUsers fmt me s (Some us) False form c u) =
     OpenCreate # concat (map (\<lambda>u. OpenEdit u # (if field u ''id'' = oget me ''id'' then [] else [DeleteUser u])) us)
     @ (case au_modal s of None \<Rightarrow> []
        | Some m \<Rightarrow> map InModal (events (UserModal (modal_given m) form (c \<or> u) (au_error s))))"
  by (simp add: AdminUsers_def Let_def ui_eval rows_or_empty_def events_user_rows split: option.split)

text \<open>The edits of an open modal.\<close>

definition run_modal :: "(string \<times> string) list \<Rightarrow> props \<Rightarrow> props" where
  "run_modal es f = foldl (\<lambda>g (k, v). UserModal_change (ModalChange k) v g) f es"

lemma run_modal_field:
  "field (run_modal es f) k =
     (case map_of (rev es) k of Some w \<Rightarrow> JStr w | None \<Rightarrow> field f k)"
proof (induction es rule: rev_induct)
  case (snoc p es)
  then show ?case by (cases p) (simp add: run_modal_def)
qed (simp add: run_modal_def)

section \<open>Properties\<close>

text \<open>Administrators cannot delete themselves from the user list: among the buttons a click can
  reach, one that deletes an account never belongs to the signed-in administrator, every other
  account has one, and every account can be edited.\<close>

theorem delete_buttons:
  "(DeleteUser u \<in> set (events (AdminUsers fmt me s (Some us) False form creating updating)) \<longleftrightarrow>
      u \<in> set us \<and> field u ''id'' \<noteq> oget me ''id'') \<and>
   (OpenEdit u \<in> set (events (AdminUsers fmt me s (Some us) False form creating updating)) \<longleftrightarrow> u \<in> set us)"
  by (auto simp: events_AdminUsers split: option.splits if_splits)

text \<open>What saving the user modal sends.  Editing an account calls the update of that account with
  a payload that always has a role, never an email address, and a password only when one was typed;
  creating one sends the three fields, the role being \<open>user\<close> unless chosen otherwise.  Role and
  password are the last values entered.\<close>

theorem modal_save:
  assumes "au_modal s = Some m"
    and "AdminUsers_step ask (InModal ModalSubmit) (run_modal es (modal_form (modal_given m))) s = (s', calls)"
  shows "\<exists>payload. calls = [case m of
       CreateModal \<Rightarrow> admin_createUser (JObj payload)
     | EditModal u \<Rightarrow> admin_updateUser (js_text (field u ''id'')) (JObj payload)] \<and>
    field payload ''role'' =
      (case map_of (rev es) ''role'' of Some r \<Rightarrow> JStr r
       | None \<Rightarrow> field (modal_form (modal_given m)) ''role'') \<and>
    (if isEdit (modal_given m)
     then map fst payload = (if (case map_of (rev es) ''password'' of Some p \<Rightarrow> p \<noteq> [] | None \<Rightarrow> False)
                             then [''role'', ''password''] else [''role''])
     else map fst payload = [''email'', ''password'', ''role'']) \<and> au_error s' = JStr []"
proof -
  let ?form = "run_modal es (modal_form (modal_given m))"
  let ?payload = "modal_payload (modal_given m) ?form"
  have pw: "field (modal_form g) ''password'' = JStr []" for g
    by (simp add: modal_form_def EMPTY_FORM_def split: option.split)
  have st: "(s', calls) = handleSave ?payload s"
    using assms by simp
  then have "calls = [case m of
       CreateModal \<Rightarrow> admin_createUser (JObj ?payload)
     | EditModal u \<Rightarrow> admin_updateUser (js_text (field u ''id'')) (JObj ?payload)]" "au_error s' = JStr []"
    using assms(1) by (auto simp: handleSave_def split: modal.split)
  moreover have "field ?payload ''role'' = field ?form ''role''"
    by (simp add: modal_payload_def)
  moreover have "if isEdit (modal_given m)
     then map fst ?payload = (if truthy (field ?form ''password'') then [''role'', ''password''] else [''role''])
     else map fst ?payload = [''email'', ''password'', ''role'']"
    by (simp add: modal_payload_def)
  ultimately show ?thesis
    using pw by (intro exI [of _ ?payload]) (simp add: run_modal_field split: option.splits)
qed

theorem modal_save_witness:
  "let u = [(''id'', JStr ''7''), (''email'', JStr ''a@b.c''), (''role'', JStr ''user'')];
       s = openEdit u AdminUsers_init;
       form = run_modal [(''role'', ''admin'')] (modal_form (Some u))
   in \<exists>payload. snd (AdminUsers_step (\<lambda>_. True) (InModal ModalSubmit) form s) =
        [admin_updateUser ''7'' (JObj payload)] \<and> map fst payload = [''role''] \<and>
        field payload ''role'' = JStr ''admin''"
proof -
  let ?u = "[(''id'', JStr ''7''), (''email'', JStr ''a@b.c''), (''role'', JStr ''user'')]"
  let ?s = "openEdit ?u AdminUsers_init"
  let ?r = "AdminUsers_step (\<lambda>_. True) (InModal ModalSubmit)
    (run_modal [(''role'', ''admin'')] (modal_form (modal_given (EditModal ?u)))) ?s"
  have "au_modal ?s = Some (EditModal ?u)" by (simp add: openEdit_def)
  from modal_save [OF this, of "\<lambda>_. True" "[(''role'', ''admin'')]" "fst ?r" "snd ?r"]
  obtain payload where "snd ?r = [admin_updateUser ''7'' (JObj payload)]"
      "field payload ''role'' = JStr ''admin''" "map fst payload = [''role'']"
    by (auto simp: modal_given_def isEdit_def simp del: AdminUsers_step.simps)
  then show ?thesis
    unfolding Let_def by (intro exI [of _ payload]) (simp add: modal_given_def del: AdminUsers_step.simps)
qed

end
