(* ===== verification/UserFlows.thy ===== *)
theory UserFlows
  imports UsersApi Shell AdminUsers
begin

text \<open>
  The account pages against the account handlers: what the server makes of the requests the login,
  registration, profile and user administration pages send, and what the pages make of its replies.
\<close>

section \<open>Reading the bodies\<close>

lemma lower_ascii [simp]: "of_char c \<notin> {65..90 :: nat} \<Longrightarrow> lower_char c = c"
  by (auto simp: lower_char_def Let_def)

lemmas decode_eval = decode_str_def decode_ptr_def lower_char_def Let_def

lemma body_login:
  "decode_str ''email'' (rq_body (call_request (login e p))) = Some e"
  "decode_str ''password'' (rq_body (call_request (login e p))) = Some p"
  by (simp_all add: login_def response_of_def client_def decode_eval)

lemma body_register:
  "decode_str ''email'' (rq_body (call_request (register e p))) = Some e"
  "decode_str ''password'' (rq_body (call_request (register e p))) = Some p"
  by (simp_all add: register_def response_of_def client_def decode_eval)

lemma body_changePassword:
  "decode_str ''current_password'' (rq_body (call_request (changePassword p q))) = Some p"
  "decode_str ''new_password'' (rq_body (call_request (changePassword p q))) = Some q"
  by (simp_all add: changePassword_def response_of_def client_def decode_eval)


section \<open>Signing in\<close>

lemma login_accepted:
  assumes "p \<noteq> []" and "normal_email e \<noteq> []"
    and "find (\<lambda>u. us_email u = normal_email e) (db_users d) = Some u" and "same (us_hash u) p"
  shows "UsersApi.Login same sign (rq_body (call_request (login e p))) d =
    (200, session_json sign (us_id u) (us_email u) (us_role u))"
  using assms by (simp add: UsersApi.Login_def body_login Let_def)


section \<open>Properties\<close>



text \<open>C21: An account that was registered can sign in.  After the server accepted a registration with
  an address and a password, a login with the same two is accepted, for the new account and with the
  role \<open>user\<close>, as long as no account had the fresh id before.\<close>

theorem registered_can_log_in:
  assumes "bcrypt_contract hash same"
    and "UsersApi.Register hash sign fresh now (rq_body (call_request (register e p))) d = (d', (201, v))"
  shows "UsersApi.Login same sign (rq_body (call_request (login e p))) d' =
    (200, session_json sign fresh (normal_email e) ''user'')"
proof -
  from assms(2) obtain h where h: "hash p = Some h" "normal_email e \<noteq> []" "p \<noteq> []"
      "\<not> list_ex (\<lambda>u. us_email u = normal_email e) (db_users d)"
      "d' = d\<lparr>db_users := db_users d @ [\<lparr>us_id = fresh, us_email = normal_email e, us_hash = h,
        us_role = ''user'', us_created = now\<rparr>]\<rparr>"
    unfolding UsersApi.Register_def body_register
    by (auto simp: Let_def writeError_def split: if_splits option.splits)
  have "same h p" using assms(1) h(1) by (simp add: bcrypt_contract_def)
  moreover have "find (\<lambda>u. us_email u = normal_email e) (db_users d) = None"
    using h(4) by (auto simp: find_None_iff list_ex_iff)
  then have "find (\<lambda>u. us_email u = normal_email e) (db_users d') =
      Some \<lparr>us_id = fresh, us_email = normal_email e, us_hash = h, us_role = ''user'', us_created = now\<rparr>"
    unfolding h(5) by (simp add: find_append)
  ultimately show ?thesis
    using login_accepted [OF h(3,2)] by simp
qed

theorem registered_can_log_in_witness:
  "let hash = (\<lambda>p. Some p); same = (\<lambda>h p. h = p); sign = (\<lambda>c. cl_user c);
       d = \<lparr>db_users = [], db_jobs = [], db_execs = []\<rparr>;
       (d', reply) = UsersApi.Register hash sign ''7'' ''t'' (rq_body (call_request (register ''A@b.c'' ''secret''))) d
   in fst reply = 201 \<and>
      UsersApi.Login same sign (rq_body (call_request (login ''A@b.c'' ''secret''))) d' =
        (200, session_json sign ''7'' ''a@b.c'' ''user'')"
proof -
  let ?hash = "\<lambda>p :: string. Some p" and ?same = "\<lambda>h p :: string. h = p" and ?sign = "\<lambda>c :: claims. cl_user c"
  let ?d = "\<lparr>db_users = [], db_jobs = [], db_execs = []\<rparr> :: db"
  let ?r = "UsersApi.Register ?hash ?sign ''7'' ''t'' (rq_body (call_request (register ''A@b.c'' ''secret''))) ?d"
  have e: "normal_email ''A@b.c'' = ''a@b.c''" by code_simp
  have v: "varchar 255 ''a@b.c''" "varchar 255 ''secret''" by code_simp+
  have "bcrypt_contract ?hash ?same" by (simp add: bcrypt_contract_def)
  moreover have "?r = (fst ?r, (201, snd (snd ?r)))"
    unfolding UsersApi.Register_def body_register by (simp add: Let_def e v)
  ultimately show ?thesis
    using registered_can_log_in [of ?hash ?same ?sign "''7''" "''t''" "''A@b.c''" "''secret''" ?d "fst ?r" "snd (snd ?r)"]
    unfolding Let_def case_prod_beta' e by (metis fst_conv snd_conv)
qed

text \<open>The pages' length checks imply the server's.  A new password the profile page lets through,
  or a registration password of at least six UTF-16 units, well-formed as UTF-8, has at least six bytes:
  the server never answers that it is too short.\<close>

theorem length_checks_agree:
  assumes "utf8 (pf_next s)" and "snd (Profile_handleSubmit s) = [c]"
  shows "snd (ChangePassword hash same uid (rq_body (call_request c)) d)
      \<noteq> writeError 400 ''New password must be at least 6 characters'' \<and>
    snd (UsersApi.Register hash sign fresh now (rq_body (call_request (register e (pf_next s)))) d)
      \<noteq> writeError 400 ''Password must be at least 6 characters''"
proof -
  have len: "6 \<le> u16len (pf_next s)" and c: "c = changePassword (pf_current s) (pf_next s)"
    using assms(2) by (auto simp: submit_cases split: if_splits)
  then have "6 \<le> length (pf_next s)"
    using u16len_le_length [OF assms(1)] by simp
  then show ?thesis
    unfolding c ChangePassword_def UsersApi.Register_def body_changePassword body_register
    by (auto simp: Let_def writeError_def message_def session_json_def split: option.split)
qed

theorem length_checks_agree_witness:
  "let s = profile_init\<lparr>pf_current := ''old'', pf_next := ''secret'', pf_confirm := ''secret''\<rparr>;
       d = \<lparr>db_users = [], db_jobs = [], db_execs = []\<rparr>;
       c = changePassword ''old'' ''secret''
   in snd (Profile_handleSubmit s) = [c] \<and>
      snd (ChangePassword Some (=) ''1'' (rq_body (call_request c)) d)
        \<noteq> writeError 400 ''New password must be at least 6 characters''"
proof -
  let ?s = "profile_init\<lparr>pf_current := ''old'', pf_next := ''secret'', pf_confirm := ''secret''\<rparr>"
  have "utf8 (pf_next ?s)" by (simp add: lead_conts_def Let_def)
  moreover have "snd (Profile_handleSubmit ?s) = [changePassword ''old'' ''secret'']"
    by (simp add: submit_cases units_def is_cont_def)
  ultimately show ?thesis
    using length_checks_agree [of ?s] by (simp add: Let_def)
qed

section \<open>Administration of accounts\<close>

lemma decode_modal_payload:
  assumes "isEdit (Some u)" and "field form ''role'' = JStr r" and "field form ''password'' = JStr p"
  shows "decode_ptr ''role'' (Some (JObj (modal_payload (Some u) form))) = Some (Some r)"
    and "decode_ptr ''password'' (Some (JObj (modal_payload (Some u) form))) = Some (if p = [] then None else Some p)"
  using assms by (simp_all add: modal_payload_def decode_eval)

text \<open>What saving an edited account does on the server.  With a role the modal offers, the update
  is refused when it would demote the only administrator; otherwise exactly this account gets the
  role, and a new password hash exactly when a password was typed.  The server never answers that
  there is nothing to update.\<close>

theorem modal_edit_applied:
  assumes "isEdit (Some u)" and "field form ''role'' = JStr r" and "r \<in> {''user'', ''admin''}"
    and "field form ''password'' = JStr p" and "find_user i d = Some row"
    and "varchar 255 (us_hash row)" and "varchar 255 (hash_or_empty hash p)"
  shows "AdminUpdateUser hash (Some i) (Some (JObj (modal_payload (Some u) form))) d =
    (if r = ''user'' \<and> other_admins i d = 0
     then (d, writeError 400 ''Cannot demote the only admin'')
     else let f = (\<lambda>v. v\<lparr>us_role := r, us_hash := if p = [] then us_hash v else hash_or_empty hash p\<rparr>)
          in (update_user i f d, (200, JObj (user_json (f row) 0))))"
proof -
  have "varchar 20 r" using assms(3) by (auto simp: varchar_def char_count_def is_cont_def)
  then show ?thesis
    using assms(5-7) unfolding AdminUpdateUser_def decode_modal_payload [OF assms(1,2,4)]
    by (cases "p = []") (simp_all add: Let_def)
qed

theorem modal_edit_applied_witness:
  "let row = \<lparr>us_id = ''1'', us_email = ''a@b.c'', us_hash = ''h'', us_role = ''admin'', us_created = ''t''\<rparr>;
       d = \<lparr>db_users = [row], db_jobs = [], db_execs = []\<rparr>; u = user_json row 0
   in AdminUpdateUser Some (Some ''1'') (Some (JObj (modal_payload (Some u) (put (modal_form (Some u)) ''role'' (JStr ''user''))))) d
        = (d, writeError 400 ''Cannot demote the only admin'')"
proof -
  let ?row = "\<lparr>us_id = ''1'', us_email = ''a@b.c'', us_hash = ''h'', us_role = ''admin'', us_created = ''t''\<rparr>"
  let ?u = "user_json ?row 0"
  have "isEdit (Some ?u)" by (simp add: isEdit_def user_json_def)
  moreover have "field (put (modal_form (Some ?u)) ''role'' (JStr ''user'')) ''password'' = JStr []"
    by (simp add: modal_form_def isEdit_def user_json_def)
  ultimately show ?thesis
    using modal_edit_applied [of ?u "put (modal_form (Some ?u)) ''role'' (JStr ''user'')" "''user''" "[]" "''1''"
        "\<lparr>db_users = [?row], db_jobs = [], db_execs = []\<rparr>" ?row Some]
    by (simp add: Let_def find_user_def other_admins_def varchar_def char_count_def hash_or_empty_def)
qed

text \<open>Who is administrator in the database.\<close>

definition is_admin_row :: "string \<Rightarrow> db \<Rightarrow> bool" where
  "is_admin_row i d \<longleftrightarrow> (\<exists>u \<in> set (db_users d). us_id u = i \<and> us_role u = ''admin'')"

definition some_admin :: "db \<Rightarrow> bool" where
  "some_admin d \<longleftrightarrow> list_ex (\<lambda>u. us_role u = ''admin'') (db_users d)"

lemma other_admin_exists:
  "other_admins i d \<noteq> 0 \<longleftrightarrow> (\<exists>u \<in> set (db_users d). us_role u = ''admin'' \<and> us_id u \<noteq> i)"
  by (auto simp: other_admins_def filter_empty_conv)

lemma some_admin_update:
  assumes "\<exists>u \<in> set (db_users d). us_role u = ''admin'' \<and> us_id u \<noteq> i"
  shows "some_admin (update_user i f d)"
  using assms by (force simp: some_admin_def update_user_def list_ex_iff)

lemma some_admin_kept:
  assumes "\<And>u. us_role u = ''admin'' \<Longrightarrow> us_role (f u) = ''admin''" and "some_admin d"
  shows "some_admin (update_user i f d)"
proof -
  obtain u where "u \<in> set (db_users d)" "us_role u = ''admin''"
    using assms(2) by (auto simp: some_admin_def list_ex_iff)
  then show ?thesis
    using assms(1) [of u] unfolding some_admin_def update_user_def list_ex_iff
    by (intro bexI [of _ "if us_id u = i then f u else u"]) auto
qed

text \<open>One request to the user half of the administration: an update with a role the modal offers, whoever makes
  it; a deletion by an account that is an administrator in the database, by the id as the list shows it; a
  new account.\<close>

lemma admin_request_keeps_admin:
  shows "some_admin d \<Longrightarrow> decode_ptr ''role'' body \<in> {None, Some None, Some (Some ''user''), Some (Some ''admin'')} \<Longrightarrow>
      some_admin (fst (AdminUpdateUser hash id_read body d))"
    and "is_admin_row me d \<Longrightarrow> uuid i = i \<Longrightarrow> some_admin (fst (AdminDeleteUser uuid me i d))"
    and "some_admin d \<Longrightarrow> some_admin (fst (AdminCreateUser hash fresh now body' d))"
proof -
  show "some_admin (fst (AdminUpdateUser hash id_read body d))"
    if "some_admin d" and "decode_ptr ''role'' body \<in> {None, Some None, Some (Some ''user''), Some (Some ''admin'')}"
  proof (cases "decode_ptr ''role'' body = Some (Some ''user'')")
    case True
    then show ?thesis
      using that(1) some_admin_update [of d] other_admin_exists [of _ d]
      by (auto simp: AdminUpdateUser_def Let_def split: option.splits)
  next
    case False
    then show ?thesis
      using that unfolding AdminUpdateUser_def
      by (auto simp: Let_def intro!: some_admin_kept split: option.splits)
  qed
  show "some_admin (fst (AdminDeleteUser uuid me i d))" if "is_admin_row me d" and "uuid i = i"
    using that
    by (auto simp: AdminDeleteUser_def remove_user_def some_admin_def is_admin_row_def list_ex_iff Let_def
        split: option.split)
  show "some_admin (fst (AdminCreateUser hash fresh now body' d))" if "some_admin d"
    using that by (auto simp: AdminCreateUser_def some_admin_def Let_def split: option.split)
qed

text \<open>That the account is still an administrator is needed. \<open>RequireAdmin\<close> looks at the
  claims of the token, which stay valid for seven days whatever happens to the account, and a deletion looks
  at no role: a session whose account is not an administrator any more (or is gone) deletes the last
  one.\<close>

theorem stale_session_deletes_last_admin:
  assumes "cl_role c = ''admin''" and "find_user i d = Some u" and "other_admins i d = 0"
    and "i \<noteq> cl_user c" and "uuid i = i"
  shows "RequireAdmin (Some c) = None \<and> fst (snd (AdminDeleteUser uuid (cl_user c) i d)) = 204 \<and>
    \<not> some_admin (fst (AdminDeleteUser uuid (cl_user c) i d))"
  using assms other_admin_exists [of i d]
  by (auto simp: RequireAdmin_def AdminDeleteUser_def remove_user_def some_admin_def list_ex_iff Let_def)

theorem stale_session_deletes_last_admin_witness:
  "let u = \<lparr>us_id = ''1'', us_email = ''a@b.c'', us_hash = ''h'', us_role = ''admin'', us_created = ''t''\<rparr>
   in \<not> some_admin (fst (AdminDeleteUser id ''2'' ''1'' \<lparr>db_users = [u], db_jobs = [], db_execs = []\<rparr>))"
  using stale_session_deletes_last_admin [of "\<lparr>cl_user = ''2'', cl_email = ''b@b.c'', cl_role = ''admin''\<rparr>" "''1''"
    "\<lparr>db_users = [\<lparr>us_id = ''1'', us_email = ''a@b.c'', us_hash = ''h'', us_role = ''admin'', us_created = ''t''\<rparr>],
      db_jobs = [], db_execs = []\<rparr>"]
  by (simp add: Let_def find_user_def other_admins_def)

text \<open>So is the canonical id: the ban on deleting the own account compares texts, the statement casts.  The
  same id in capitals deletes the only administrator by its own session.\<close>

theorem own_account_by_spelling:
  assumes "is_admin_row me d" and "other_admins me d = 0" and "uuid i = me" and "i \<noteq> me"
  shows "fst (snd (AdminDeleteUser uuid me i d)) = 204 \<and> \<not> some_admin (fst (AdminDeleteUser uuid me i d))"
proof -
  obtain u where "find_user me d = Some u"
    using assms(1) by (cases "find_user me d") (auto simp: is_admin_row_def find_user_def find_None_iff)
  then show ?thesis
    using assms(2-4) other_admin_exists [of me d]
    by (auto simp: AdminDeleteUser_def remove_user_def some_admin_def list_ex_iff Let_def)
qed

theorem own_account_by_spelling_witness:
  "let u = \<lparr>us_id = ''1a'', us_email = ''a@b.c'', us_hash = ''h'', us_role = ''admin'', us_created = ''t''\<rparr>
   in \<not> some_admin (fst (AdminDeleteUser to_lower ''1a'' ''1A'' \<lparr>db_users = [u], db_jobs = [], db_execs = []\<rparr>))"
proof -
  let ?u = "\<lparr>us_id = ''1a'', us_email = ''a@b.c'', us_hash = ''h'', us_role = ''admin'', us_created = ''t''\<rparr>"
  have "to_lower ''1A'' = ''1a''" by code_simp
  then show ?thesis
    using own_account_by_spelling [of "''1a''" "\<lparr>db_users = [?u], db_jobs = [], db_execs = []\<rparr>" to_lower "''1A''"]
    by (simp add: is_admin_row_def other_admins_def)
qed

text \<open>The guard of the last administrator looks at the role \<open>user\<close> only.  The update accepts any
  other role of up to twenty characters without checking it, and so leaves no administrator when the
  only one is given one; creation does check the role.\<close>

theorem any_other_role_demotes:
  assumes "db_users d = [u]" and "us_role u = ''admin''" and "varchar 255 (us_hash u)"
    and "r \<notin> {''user'', ''admin''}" and "varchar 20 r"
  shows "fst (snd (AdminUpdateUser hash (Some (us_id u)) (Some (JObj [(''role'', JStr r)])) d)) = 200 \<and>
    \<not> some_admin (fst (AdminUpdateUser hash (Some (us_id u)) (Some (JObj [(''role'', JStr r)])) d))"
  using assms
  by (simp add: AdminUpdateUser_def decode_eval find_user_def some_admin_def update_user_def)

theorem any_other_role_demotes_witness:
  "let u = \<lparr>us_id = ''1'', us_email = ''a@b.c'', us_hash = ''h'', us_role = ''admin'', us_created = ''t''\<rparr>;
       d = \<lparr>db_users = [u], db_jobs = [], db_execs = []\<rparr>
   in \<not> some_admin (fst (AdminUpdateUser Some (Some ''1'') (Some (JObj [(''role'', JStr ''viewer'')])) d))"
  using any_other_role_demotes [of
    "\<lparr>db_users = [\<lparr>us_id = ''1'', us_email = ''a@b.c'', us_hash = ''h'', us_role = ''admin'', us_created = ''t''\<rparr>],
      db_jobs = [], db_execs = []\<rparr>"
    "\<lparr>us_id = ''1'', us_email = ''a@b.c'', us_hash = ''h'', us_role = ''admin'', us_created = ''t''\<rparr>" "''viewer''" Some]
  by (simp add: Let_def varchar_def char_count_def is_cont_def)

text \<open>Accounts created by an administrator with capital letters in the address cannot sign in.
  The creation stores the address as typed, the login looks for its lower-case form.\<close>

theorem capital_address_locked_out:
  assumes "AdminCreateUser hash fresh now (Some (JObj (modal_payload None form))) d = (d', (201, v))"
    and "field form ''email'' = JStr e" and "normal_email e \<noteq> e"
    and "list_all (\<lambda>u. us_email u \<noteq> normal_email e) (db_users d)" and "normal_email e \<noteq> []" and "p \<noteq> []"
  shows "UsersApi.Login same sign (rq_body (call_request (login e p))) d' = writeError 401 ''Invalid credentials''"
proof -
  have dec: "decode_str ''email'' (Some (JObj (modal_payload None form))) = Some e"
    using assms(2) by (simp add: modal_payload_def isEdit_def decode_eval)
  have "\<exists>u. db_users d' = db_users d @ [u] \<and> us_email u = e"
    using assms(1) unfolding AdminCreateUser_def dec
    by (auto simp: Let_def writeError_def split: if_splits option.splits)
  then have "find (\<lambda>u. us_email u = normal_email e) (db_users d') = None"
    using assms(3,4) by (auto simp: find_None_iff list_all_iff)
  then show ?thesis
    using assms(5,6) by (simp add: UsersApi.Login_def body_login Let_def)
qed

theorem capital_address_locked_out_witness:
  "let d = \<lparr>db_users = [], db_jobs = [], db_execs = []\<rparr> :: db;
       form = put (put EMPTY_FORM ''email'' (JStr ''Ann@b.c'')) ''password'' (JStr ''secret'');
       (d', reply) = AdminCreateUser Some ''7'' ''t'' (Some (JObj (modal_payload None form))) d
   in fst reply = 201 \<and>
      UsersApi.Login (=) (\<lambda>c. cl_user c) (rq_body (call_request (login ''Ann@b.c'' ''secret''))) d' =
        writeError 401 ''Invalid credentials''"
proof -
  let ?d = "\<lparr>db_users = [], db_jobs = [], db_execs = []\<rparr> :: db"
  let ?form = "put (put EMPTY_FORM ''email'' (JStr ''Ann@b.c'')) ''password'' (JStr ''secret'')"
  let ?r = "AdminCreateUser Some ''7'' ''t'' (Some (JObj (modal_payload None ?form))) ?d"
  have n: "normal_email ''Ann@b.c'' = ''ann@b.c''" by code_simp
  have v: "varchar 255 ''Ann@b.c''" "varchar 255 ''secret''" by code_simp+
  have "?r = (fst ?r, (201, snd (snd ?r)))"
    unfolding AdminCreateUser_def
    by (simp add: EMPTY_FORM_def modal_payload_def isEdit_def decode_eval v hash_or_empty_def)
  moreover from capital_address_locked_out [OF this, of "''Ann@b.c''" "''secret''" "(=)" "\<lambda>c. cl_user c"]
  have "UsersApi.Login (=) (\<lambda>c. cl_user c) (rq_body (call_request (login ''Ann@b.c'' ''secret''))) (fst ?r) =
      writeError 401 ''Invalid credentials''"
    by (simp add: n EMPTY_FORM_def)
  ultimately show ?thesis unfolding Let_def case_prod_beta' by (metis fst_conv snd_conv)
qed

end
