(* ===== verification/AdminJobs.thy ===== *)
theory AdminJobs
  imports JobForm
begin

text \<open>
  \<open>AdminJobs.jsx\<close>: the administrator's list of all jobs with its filter by owner, its row
  actions and the edit drawer.  The drawer embeds the job form; \<open>key={editJob.id}\<close> mounts a fresh
  form for every job.  The status of the queries and of the update mutation is an argument.
\<close>

section \<open>State and handlers\<close>

record admin_jobs_state =
  aj_filter :: string
  aj_edit :: "props option"

definition AdminJobs_init :: admin_jobs_state where
  "AdminJobs_init = \<lparr>aj_filter = [], aj_edit = None\<rparr>"

definition displayed :: "string \<Rightarrow> props list \<Rightarrow> props list" where
  "displayed filterUser jobs =
     (if filterUser \<noteq> [] then filter (\<lambda>j. field j ''user_id'' = JStr filterUser) jobs else jobs)"

definition toFormInitial :: "props \<Rightarrow> props" where
  "toFormInitial job =
     [(''name'', js_or (field job ''name'') (JStr [])),
      (''description'', js_or (field job ''description'') (JStr [])),
      (''cron_expression'', js_or (field job ''cron_expression'') (JStr ''0 * * * *'')),
      (''url'', js_or (field job ''url'') (JStr [])),
      (''method'', js_or (field job ''method'') (JStr ''GET'')),
      (''body'', js_or (field job ''body'') (JStr [])),
      (''timezone'', js_or (field job ''timezone'') (JStr ''UTC'')),
      (''timeout_seconds'', js_or (field job ''timeout_seconds'') (JNum 30))]"

datatype admin_job_event =
    FilterUser
  | TriggerRow props
  | EditRow props
  | PauseRow props
  | ResumeRow props
  | DeleteRow props
  | CloseDrawer
  | DrawerForm form_event

definition row_id :: "props \<Rightarrow> string" where
  "row_id job = js_text (field job ''id'')"

definition admin_delete_question :: "props \<Rightarrow> string" where
  "admin_delete_question job = ''Delete '' @ [dquote] @ js_text (field job ''name'') @ [dquote] @ ''?''"

text \<open>
  A handler: the new state and the calls it starts.  \<open>form\<close> is the state of the embedded form;
  its submission and its cancel button are handled here, its edits by the form itself.
\<close>

fun AdminJobs_step ::
    "(string \<Rightarrow> bool) \<Rightarrow> admin_job_event \<Rightarrow> string \<Rightarrow> props \<Rightarrow> admin_jobs_state \<Rightarrow> admin_jobs_state \<times> call list" where
  "AdminJobs_step ask FilterUser v form s = (s\<lparr>aj_filter := v\<rparr>, [])"
| "AdminJobs_step ask (TriggerRow job) v form s = (s, [admin_triggerJob (row_id job)])"
| "AdminJobs_step ask (EditRow job) v form s = (s\<lparr>aj_edit := Some job\<rparr>, [])"
| "AdminJobs_step ask (PauseRow job) v form s = (s, [admin_pauseJob (row_id job)])"
| "AdminJobs_step ask (ResumeRow job) v form s = (s, [admin_resumeJob (row_id job)])"
| "AdminJobs_step ask (DeleteRow job) v form s =
     (s, if ask (admin_delete_question job) then [admin_deleteJob (row_id job)] else [])"
| "AdminJobs_step ask CloseDrawer v form s = (s\<lparr>aj_edit := None\<rparr>, [])"
| "AdminJobs_step ask (DrawerForm ev) v form s =
     (case snd (form_step True ev v form) of
        [OnSubmit data] \<Rightarrow>
          (case aj_edit s of
             Some job \<Rightarrow> (s, [admin_updateJob (row_id job) (JObj data)])
           | None \<Rightarrow> (s, []))
      | [OnCancel] \<Rightarrow> (s\<lparr>aj_edit := None\<rparr>, [])
      | _ \<Rightarrow> (s, []))"

definition AdminJobs_onSuccess :: "effect list" where
  "AdminJobs_onSuccess = [Invalidate [''admin-jobs'']]"

definition AdminJobs_onUpdated :: "admin_jobs_state \<Rightarrow> admin_jobs_state \<times> effect list" where
  "AdminJobs_onUpdated s = (s\<lparr>aj_edit := None\<rparr>, [Invalidate [''admin-jobs'']])"

definition AdminJobs_queries :: "(query_key \<times> call) list" where
  "AdminJobs_queries = [([''admin-jobs''], admin_getAllJobs), ([''admin-users''], admin_getUsers)]"

section \<open>Markup\<close>

definition job_row :: "dates \<Rightarrow> props \<Rightarrow> admin_job_event node" where
  "job_row fmt job =
     Elem ''tr'' []
      [Elem ''td'' []
        (Elem ''p'' [] (shown (field job ''name''))
         # and_then (field job ''description'') [Elem ''p'' [] (shown (field job ''description''))]),
       Elem ''td'' []
        [if truthy (field job ''owner_email'') then Elem ''span'' [] (shown (field job ''owner_email''))
         else Elem ''span'' [] [Text ''no owner'']],
       Elem ''td'' [] (shown (field job ''cron_expression'')),
       Elem ''td'' [] [StatusBadge (field job ''status'')],
       Elem ''td'' []
        [if truthy (field job ''last_run_at'') then Text (ago fmt (field job ''last_run_at''))
         else Elem ''span'' [] [Text ''never'']],
       Elem ''td'' []
        [Elem ''div'' []
          [Elem ''button'' [On ''click'' (TriggerRow job), Attr ''title'' ''Trigger now''] [],
           Elem ''button'' [On ''click'' (EditRow job), Attr ''title'' ''Edit''] [],
           (if field job ''status'' = JStr ''active''
            then Elem ''button'' [On ''click'' (PauseRow job), Attr ''title'' ''Pause''] []
            else Elem ''button'' [On ''click'' (ResumeRow job), Attr ''title'' ''Resume''] []),
           Elem ''button'' [On ''click'' (DeleteRow job), Attr ''title'' ''Delete''] []]]]"

definition edit_drawer :: "props \<Rightarrow> props \<Rightarrow> bool \<Rightarrow> failure option \<Rightarrow> admin_job_event node" where
  "edit_drawer job form isPending error =
     Elem ''div'' []
      [Elem ''div'' [On ''click'' CloseDrawer] [],
       Elem ''div'' []
        [Elem ''div'' []
          [Elem ''div'' [] [Elem ''h2'' [] [Text ''Edit Job''],
             Elem ''p'' [] [Text ''Owner: '',
               Elem ''span'' [] (shown (js_or (field job ''owner_email'') (JStr ''no owner'')))]],
           Elem ''button'' [On ''click'' CloseDrawer] []],
         Elem ''div'' []
          ((case error of
              None \<Rightarrow> []
            | Some err \<Rightarrow> [Elem ''div'' [] (shown (failure_text err ''Failed to update job''))])
           @ map (map_event DrawerForm) (JobForm form isPending))]]"

definition AdminJobs ::
    "dates \<Rightarrow> admin_jobs_state \<Rightarrow> props list option \<Rightarrow> bool \<Rightarrow> props list option \<Rightarrow> props \<Rightarrow> bool \<Rightarrow>
     failure option \<Rightarrow> admin_job_event node list" where
  "AdminJobs fmt s jobs_data isLoading users_data form isPending error =
     (let jobs = rows_or_empty jobs_data; users = rows_or_empty users_data;
          rows = displayed (aj_filter s) jobs in
      [Elem ''div'' []
        ([Elem ''div'' []
           [Elem ''div'' [] [Elem ''h1'' [] [Text ''All Jobs''],
              Elem ''p'' [] [Text (nat_string (length jobs)), Text '' jobs across '',
                Text (nat_string (length users)), Text '' users'']],
            Elem ''div'' []
             [Elem ''select'' [Attr ''value'' (aj_filter s), On ''change'' FilterUser]
               (Elem ''option'' [Attr ''option-value'' []] [Text ''All users'']
                # map (\<lambda>u. Elem ''option'' [Attr ''option-value'' (input_value (field u ''id''))]
                    (shown (field u ''email''))) users)]],
          Elem ''div'' []
           [if isLoading then Elem ''div'' [] [Text (''Loading'' @ ellipsis)]
            else if rows = [] then Elem ''div'' [] [Text ''No jobs found.'']
            else Elem ''table'' []
              [Elem ''thead'' [] [Elem ''tr'' []
                 (map (\<lambda>t. Elem ''th'' [] [Text t])
                   [''Job'', ''Owner'', ''Schedule'', ''Status'', ''Last Run'', ''Actions''])],
               Elem ''tbody'' [] (map (job_row fmt) rows)]]]
         @ (case aj_edit s of
              None \<Rightarrow> []
            | Some job \<Rightarrow> [edit_drawer job form isPending error]))])"

text \<open>The form the drawer mounts for a job.\<close>

definition drawer_form :: "props \<Rightarrow> props" where
  "drawer_form job = form_init (toFormInitial job)"

section \<open>Facts\<close>

lemma toFormInitial_keys:
  "map fst (toFormInitial job) = [''name'', ''description'', ''cron_expression'', ''url'', ''method'',
     ''body'', ''timezone'', ''timeout_seconds'']"
  by (simp add: toFormInitial_def)

lemma drawer_form_keys: "map fst (drawer_form job) = map fst form_defaults"
  by (simp add: drawer_form_def form_init_def toFormInitial_def form_defaults_def spread_def)

lemma drawer_form_policy: "field (drawer_form job) ''concurrency_policy'' = JStr ''Allow''"
  by (simp add: drawer_form_def form_init_def field_spread_left toFormInitial_def form_defaults_def)

lemma field_none: "k \<notin> set (map fst row) \<Longrightarrow> field row k = JUndef"
  by (induction row) auto

definition row_events :: "props \<Rightarrow> admin_job_event list" where
  "row_events job = [TriggerRow job, EditRow job,
     if field job ''status'' = JStr ''active'' then PauseRow job else ResumeRow job, DeleteRow job]"

lemma events_job_rows: "events (map (job_row fmt) jobs) = concat (map row_events jobs)"
proof (induction jobs)
  case (Cons job jobs)
  have "events [job_row fmt job] = row_events job"
    by (simp add: job_row_def ui_eval row_events_def)
  then have "node_events (job_row fmt job) = row_events job" by (simp add: events_def)
  with Cons show ?case by (simp add: events_def)
qed simp

lemma events_user_options [simp]:
  "events (map (\<lambda>u. Elem ''option'' [Attr ''option-value'' (f u)] (shown (g u))) us) = []"
  by (induction us) (simp_all add: ui_eval)

lemma events_drawer:
  "events [edit_drawer job form l err] =
     [CloseDrawer, CloseDrawer] @ map DrawerForm (events (JobForm form l))"
  by (simp add: edit_drawer_def ui_eval split: option.split)

lemma events_headings [simp]: "events (map (\<lambda>t. Elem ''th'' [] [Text t]) ts) = []"
  by (induction ts) (simp_all add: ui_eval)

lemma events_AdminJobs:
  "events (AdminJobs fmt s (Some jobs) False users form l err) =
     FilterUser # concat (map row_events (displayed (aj_filter s) jobs))
     @ (case aj_edit s of None \<Rightarrow> [] | Some job \<Rightarrow>
          [CloseDrawer, CloseDrawer] @ map DrawerForm (events (JobForm form l)))"
  using events_drawer
  by (simp add: AdminJobs_def Let_def ui_eval rows_or_empty_def events_job_rows split: option.split)

section \<open>Properties\<close>

text \<open>The administrator's job list.  With a user chosen it offers actions on exactly that
  user's jobs, with none chosen on all; every listed job can be triggered, edited and deleted, an
  active one paused, and every job that is not active shows a resume button.\<close>

theorem admin_job_actions:
  "let es = set (events (AdminJobs fmt s (Some jobs) False users form l err));
       listed = (job \<in> set jobs \<and> (aj_filter s = [] \<or> field job ''user_id'' = JStr (aj_filter s)))
   in (TriggerRow job \<in> es \<longleftrightarrow> listed) \<and> (EditRow job \<in> es \<longleftrightarrow> listed) \<and> (DeleteRow job \<in> es \<longleftrightarrow> listed) \<and>
      (PauseRow job \<in> es \<longleftrightarrow> listed \<and> field job ''status'' = JStr ''active'') \<and>
      (ResumeRow job \<in> es \<longleftrightarrow> listed \<and> field job ''status'' \<noteq> JStr ''active'')"
  unfolding Let_def events_AdminJobs
  by (cases "aj_edit s") (auto simp: row_events_def displayed_def split: if_splits)

text \<open>What an administrator's edit of a job sends: whatever the administrator does in the drawer,
  saving calls the update of the opened job with the nine properties of the form and nothing else.
  The job's headers are never among them, and the concurrency policy is \<open>Allow\<close> unless it was chosen
  in the drawer, whatever the job's policy was.\<close>

theorem admin_edit_payload:
  assumes "aj_edit s = Some job" and "offered_run es"
    and "AdminJobs_step ask (DrawerForm Submit) [] (run_form True es (drawer_form job)) s = (s', calls)"
  shows "\<exists>payload. calls = [admin_updateJob (row_id job) (JObj payload)] \<and>
    map fst payload = map fst form_defaults \<and> field payload ''headers'' = JUndef \<and>
    field payload ''concurrency_policy'' =
      (case last_write es ''concurrency_policy'' of Some p \<Rightarrow> JStr p | None \<Rightarrow> JStr ''Allow'')"
proof -
  let ?p = "run_form True es (drawer_form job)"
  have keys: "map fst ?p = map fst form_defaults"
    using run_form_keys [OF assms(2), of "drawer_form job" True] drawer_form_keys [of job]
    by (metis list.set_map subset_refl)
  then have "field ?p ''headers'' = JUndef"
    by (intro field_none) (simp add: form_defaults_def)
  moreover have "calls = [admin_updateJob (row_id job) (JObj ?p)]"
    using assms(1,3) by simp
  ultimately show ?thesis
    using keys by (intro exI [of _ ?p], cases "last_write es ''concurrency_policy''")
      (simp_all add: run_form_field drawer_form_policy)
qed

theorem admin_edit_payload_witness:
  "let job = [(''id'', JStr ''7''), (''name'', JStr ''n''), (''headers'', JObj [(''X'', JStr ''1'')]),
        (''concurrency_policy'', JStr ''Forbid'')];
       s = AdminJobs_init\<lparr>aj_edit := Some job\<rparr>
   in \<exists>payload. snd (AdminJobs_step (\<lambda>_. True) (DrawerForm Submit) []
          (run_form True [(Change ''name'', ''m'')] (drawer_form job)) s) = [admin_updateJob ''7'' (JObj payload)] \<and>
        field payload ''headers'' = JUndef \<and> field payload ''concurrency_policy'' = JStr ''Allow''"
proof -
  let ?job = "[(''id'', JStr ''7''), (''name'', JStr ''n''), (''headers'', JObj [(''X'', JStr ''1'')]),
        (''concurrency_policy'', JStr ''Forbid'')]"
  let ?s = "AdminJobs_init\<lparr>aj_edit := Some ?job\<rparr>"
  let ?es = "[(Change ''name'', ''m'')]"
  let ?r = "AdminJobs_step (\<lambda>_. True) (DrawerForm Submit) [] (run_form True ?es (drawer_form ?job)) ?s"
  have off: "offered_run ?es"
    by (simp add: offered_run_def events_JobForm)
  have e: "aj_edit ?s = Some ?job" by simp
  have "?r = (fst ?r, snd ?r)" by simp
  from admin_edit_payload [OF e off this] obtain payload where
    "snd ?r = [admin_updateJob (row_id ?job) (JObj payload)]" "field payload ''headers'' = JUndef"
    "field payload ''concurrency_policy'' = JStr ''Allow''"
    by (auto simp: last_write_def List.map_filter_def simp del: AdminJobs_step.simps)
  moreover have "row_id ?job = ''7''" by (simp add: row_id_def)
  ultimately show ?thesis unfolding Let_def by metis
qed

end
