(* ===== verification/JobFlows.thy ===== *)
theory JobFlows
  imports UsersApi JobPages AdminJobs
begin

text \<open>
  The job pages against the job handlers: how the server reads the object a job form submits, what
  an edit changes in the table, which actions the server accepts, and the invariant of the tables.
\<close>

section \<open>Reading a job form\<close>

text \<open>
  One field of a decoded struct: \<open>go\<close> reads a value into it, an absent property leaves it alone, and
  decoding one property of the object gives the field that property's value when the tag matches.
  Then decoding a whole object whose keys are distinct and in lower case reads the field from the
  property of that name.
\<close>

definition lower_keys :: "props \<Rightarrow> bool" where
  "lower_keys ps \<longleftrightarrow> list_all (\<lambda>p. to_lower (fst p) = fst p) ps"

locale decoded_field =
  fixes key :: string
    and go :: "jsval \<Rightarrow> 'f \<Rightarrow> 'f option"
    and sel :: "job_input \<Rightarrow> 'f"
  assumes absent: "go JUndef cur = Some cur"
    and one: "decode_field k v b = Some b' \<Longrightarrow>
      go (if to_lower k = key then v else JUndef) (sel b) = Some (sel b')"
begin

lemma read:
  assumes "decode_fields ps b = Some b'" and "distinct (map fst ps)" and "lower_keys ps"
  shows "go (field ps key) (sel b) = Some (sel b')"
  using assms
proof (induction ps arbitrary: b)
  case Nil
  then show ?case by (simp add: absent)
next
  case (Cons p ps)
  obtain k v where p: "p = (k, v)" by (cases p)
  from Cons.prems(1) obtain b1 where b1: "decode_field k v b = Some b1" "decode_fields ps b1 = Some b'"
    by (auto simp: p bind_eq_Some_conv)
  have ih: "go (field ps key) (sel b1) = Some (sel b')"
    using Cons b1(2) by (simp add: p lower_keys_def)
  have low: "to_lower k = k" using Cons.prems(3) by (simp add: p lower_keys_def)
  show ?case
  proof (cases "k = key")
    case True
    have "field ps key = JUndef"
      using Cons.prems(2) True by (intro field_none) (simp add: p)
    then have "sel b1 = sel b'" using ih absent by simp
    then show ?thesis using one [OF b1(1)] True low by (simp add: p)
  next
    case False
    have "sel b1 = sel b" using one [OF b1(1)] False low absent by simp
    then show ?thesis using ih False by (simp add: p)
  qed
qed

end

definition go_raw :: "jsval \<Rightarrow> jsval option \<Rightarrow> jsval option option" where
  "go_raw v cur = Some (if v = JUndef then cur else Some v)"

lemmas decode_field_cases = decode_field_def Let_def

interpretation f_name: decoded_field "''name''" go_string in_name
  by unfold_locales (auto simp: decode_field_cases split: if_splits)

interpretation f_description: decoded_field "''description''" go_string in_description
  by unfold_locales (auto simp: decode_field_cases split: if_splits)

interpretation f_cron: decoded_field "''cron_expression''" go_string in_cron
  by unfold_locales (auto simp: decode_field_cases split: if_splits)

interpretation f_url: decoded_field "''url''" go_string in_url
  by unfold_locales (auto simp: decode_field_cases split: if_splits)

interpretation f_method: decoded_field "''method''" go_string in_method
  by unfold_locales (auto simp: decode_field_cases split: if_splits)

interpretation f_headers: decoded_field "''headers''" go_raw in_headers
  by unfold_locales (auto simp: decode_field_cases go_raw_def split: if_splits)

interpretation f_body: decoded_field "''body''" go_string_ptr in_body
  by unfold_locales (auto simp: decode_field_cases split: if_splits)

interpretation f_timezone: decoded_field "''timezone''" go_string in_timezone
  by unfold_locales (auto simp: decode_field_cases split: if_splits)

interpretation f_timeout: decoded_field "''timeout_seconds''" go_int in_timeout
  by unfold_locales (auto simp: decode_field_cases split: if_splits)

interpretation f_policy: decoded_field "''concurrency_policy''" go_string in_policy
  by unfold_locales (auto simp: decode_field_cases split: if_splits)

text \<open>When decoding succeeds: every property the struct knows has a value of its kind.\<close>

definition value_ok :: "string \<Rightarrow> jsval \<Rightarrow> bool" where
  "value_ok key v \<longleftrightarrow>
     (if key \<in> {''name'', ''description'', ''cron_expression'', ''url'', ''method'', ''timezone'', ''concurrency_policy''}
      then go_string v [] \<noteq> None
      else if key = ''body'' then go_string_ptr v None \<noteq> None
      else if key = ''timeout_seconds'' then go_int v 0 \<noteq> None
      else True)"

lemma go_any_current:
  "go_string v c \<noteq> None \<longleftrightarrow> go_string v c' \<noteq> None"
  "go_string_ptr v p \<noteq> None \<longleftrightarrow> go_string_ptr v p' \<noteq> None"
  "go_int v i \<noteq> None \<longleftrightarrow> go_int v i' \<noteq> None"
  by (cases v; simp)+

lemma decode_field_ok: "decode_field k v b \<noteq> None \<longleftrightarrow> value_ok (to_lower k) v"
  using go_any_current(1) [of v _ "[]"] go_any_current(2) [of v _ None] go_any_current(3) [of v _ 0]
  by (simp add: decode_field_cases value_ok_def)

lemma decode_fields_ok:
  "(\<exists>b'. decode_fields ps b = Some b') \<longleftrightarrow> list_all (\<lambda>p. value_ok (to_lower (fst p)) (snd p)) ps"
proof (induction ps arbitrary: b)
  case (Cons p ps)
  obtain k v where p: "p = (k, v)" by (cases p)
  show ?case
  proof (cases "decode_field k v b")
    case None
    then show ?thesis using decode_field_ok [of k v b] by (simp add: p)
  next
    case (Some b1)
    then show ?thesis using decode_field_ok [of k v b] Cons.IH [of b1] by (simp add: p)
  qed
qed simp

lemma decode_fields_bad:
  assumes "p \<in> set ps" and "\<not> value_ok (to_lower (fst p)) (snd p)"
  shows "decode_fields ps b = None"
  using assms decode_fields_ok [of ps b] by (metis list_all_iff option.exhaust)

section \<open>The edit page\<close>

text \<open>The object the edit page submits after a run of events on the form of a job.\<close>

definition edit_payload :: "db \<Rightarrow> job \<Rightarrow> (form_event \<times> string) list \<Rightarrow> props" where
  "edit_payload d j es = run_form False es (form_init (job_json d j))"

definition written :: "(form_event \<times> string) list \<Rightarrow> string \<Rightarrow> string \<Rightarrow> string" where
  "written es key dflt = (case last_write es key of Some w \<Rightarrow> w | None \<Rightarrow> dflt)"

text \<open>The job as the user left it in the form.\<close>

definition edited :: "job \<Rightarrow> (form_event \<times> string) list \<Rightarrow> job_input" where
  "edited j es =
     \<lparr>in_name = written es ''name'' (jb_name j), in_description = written es ''description'' (jb_description j),
      in_cron = written es ''cron_expression'' (jb_cron j), in_url = written es ''url'' (jb_url j),
      in_method = written es ''method'' (jb_method j), in_headers = Some (jb_headers j),
      in_body = (case last_write es ''body'' of Some w \<Rightarrow> Some w | None \<Rightarrow> jb_body j),
      in_timezone = written es ''timezone'' (jb_timezone j), in_timeout = jb_timeout j,
      in_policy = written es ''concurrency_policy'' (jb_policy j)\<rparr>"

lemma job_json_keys:
  "map fst (job_json d j) = [''id'', ''user_id'', ''name'', ''description'', ''cron_expression'', ''url'',
     ''method'', ''headers'', ''body'', ''status'', ''timezone'', ''timeout_seconds'', ''concurrency_policy'',
     ''last_run_at'', ''created_at'', ''updated_at'', ''execution_count'', ''last_execution_status'']"
  by (simp add: job_json_def)

lemma distinct_job_json: "distinct (map fst (job_json d j))"
  by (simp add: job_json_keys)

lemma defaults_in_job_json: "fst ` set form_defaults \<subseteq> fst ` set (job_json d j)"
  by (simp add: form_defaults_def job_json_def)

lemma lower_keys_iff: "lower_keys ps \<longleftrightarrow> (\<forall>k \<in> fst ` set ps. to_lower k = k)"
  by (auto simp: lower_keys_def list_all_iff)

lemma lower_job_json: "lower_keys (job_json d j)"
  by (simp add: lower_keys_def job_json_def lower_char_def)

lemma edit_payload_keys:
  assumes "offered_run es"
  shows "fst ` set (edit_payload d j es) = fst ` set (job_json d j)"
proof -
  have "map fst (edit_payload d j es) = map fst (form_init (job_json d j))"
    unfolding edit_payload_def
    by (rule run_form_keys [OF assms]) (simp add: form_init_def keys_spread)
  then have "fst ` set (edit_payload d j es) = fst ` set (form_init (job_json d j))"
    by (metis list.set_map)
  then show ?thesis
    using defaults_in_job_json [of d j] by (auto simp: form_init_def keys_spread)
qed

lemma edit_payload_distinct: "distinct (map fst (edit_payload d j es))"
  unfolding edit_payload_def form_init_def
  by (intro keys_run distinct_spread distinct_form_defaults)

lemma edit_payload_field:
  assumes "k \<in> fst ` set (job_json d j)"
  shows "field (edit_payload d j es) k =
    (case last_write es k of Some w \<Rightarrow> JStr w | None \<Rightarrow> field (job_json d j) k)"
  unfolding edit_payload_def run_form_field form_init_given [OF distinct_job_json assms] by simp

lemma field_of_member: "distinct (map fst ps) \<Longrightarrow> (k, v) \<in> set ps \<Longrightarrow> field ps k = v"
  by (simp add: field_def)

lemma value_ok_text: "k \<noteq> ''timeout_seconds'' \<Longrightarrow> value_ok k (JStr w)"
  by (simp add: value_ok_def)

lemma value_ok_job_json:
  assumes "- (2 ^ 63) \<le> jb_timeout j" and "jb_timeout j < 2 ^ 63" and "k \<in> fst ` set (job_json d j)"
  shows "value_ok k (field (job_json d j) k)"
proof -
  have "go_string_ptr (opt_string (jb_body j)) None \<noteq> None" by (cases "jb_body j") simp_all
  then have "list_all (\<lambda>p. value_ok (fst p) (snd p)) (job_json d j)"
    using assms(1,2) by (simp add: job_json_def value_ok_def)
  moreover obtain v where "(k, v) \<in> set (job_json d j)" using assms(3) by auto
  moreover from this have "field (job_json d j) k = v"
    by (rule field_of_member [OF distinct_job_json])
  ultimately show ?thesis by (auto simp: list_all_iff)
qed

lemma offered_last_write:
  assumes "offered_run es" and "last_write es k = Some w"
  shows "k \<in> fst ` set form_defaults"
  using assms
proof (induction es rule: rev_induct)
  case Nil
  then show ?case by (simp add: last_write_def List.map_filter_def)
next
  case (snoc p es)
  obtain ev v where p: "p = (ev, v)" by (cases p)
  obtain form l where ev: "ev \<in> set (events (JobForm form l))"
    using snoc.prems(1) p by (auto simp: offered_run_def)
  show ?case
  proof (cases "\<exists>w'. writes ev v = Some (k, w')")
    case True
    then show ?thesis using form_event_writes [OF ev] by blast
  next
    case False
    then have "last_write es k = Some w"
      using snoc.prems(2) by (auto simp: p last_write_snoc split: option.splits if_splits)
    then show ?thesis using snoc by (simp add: offered_run_def)
  qed
qed

text \<open>What decoding makes of a form object whose properties were overwritten by a run of events: the
  text written last where there is one, the field of the object at the start elsewhere.\<close>

definition overwritten :: "(form_event \<times> string) list \<Rightarrow> job_input \<Rightarrow> job_input" where
  "overwritten es b =
     b\<lparr>in_name := written es ''name'' (in_name b), in_description := written es ''description'' (in_description b),
       in_cron := written es ''cron_expression'' (in_cron b), in_url := written es ''url'' (in_url b),
       in_method := written es ''method'' (in_method b),
       in_body := (case last_write es ''body'' of Some w \<Rightarrow> Some w | None \<Rightarrow> in_body b),
       in_timezone := written es ''timezone'' (in_timezone b),
       in_policy := written es ''concurrency_policy'' (in_policy b)\<rparr>"

context decoded_field begin

lemma rewritten:
  assumes "decode_fields base b = Some b0" and "distinct (map fst base)" and "lower_keys base"
    and "decode_fields ps b = Some b'" and "distinct (map fst ps)" and "lower_keys ps"
    and "\<And>k. field ps k = (case last_write es k of Some w \<Rightarrow> JStr w | None \<Rightarrow> field base k)"
  shows "case last_write es key of None \<Rightarrow> sel b' = sel b0 | Some w \<Rightarrow> go (JStr w) (sel b) = Some (sel b')"
  using read [OF assms(1-3)] read [OF assms(4-6)] assms(7) [of key] by (simp split: option.splits)

end

lemma written_read:
  assumes "case last_write es key of None \<Rightarrow> s = s0 | Some w \<Rightarrow> go_string (JStr w) c = Some s"
  shows "s = written es key s0"
  using assms by (simp add: written_def split: option.splits)

lemma overwritten_decodes:
  assumes "offered_run es" and "last_write es ''timeout_seconds'' = None"
    and "decode_fields base empty_input = Some b0" and "distinct (map fst base)" and "lower_keys base"
    and "fst ` set form_defaults \<subseteq> fst ` set base"
  shows "decode_fields (run_form c es base) empty_input = Some (overwritten es b0)"
proof -
  let ?p = "run_form c es base"
  have keys: "map fst ?p = map fst base" by (rule run_form_keys [OF assms(1,6)])
  then have same: "fst ` set ?p = fst ` set base" by (metis list.set_map)
  have dist: "distinct (map fst ?p)" unfolding keys by (rule assms(4))
  have low: "lower_keys ?p" using assms(5) by (simp add: lower_keys_iff same)
  have "value_ok (to_lower k) v" if p: "(k, v) \<in> set ?p" for k v
  proof -
    have v: "v = (case last_write es k of Some w \<Rightarrow> JStr w | None \<Rightarrow> field base k)"
      using field_of_member [OF dist p] by (simp add: run_form_field)
    have "k \<in> fst ` set ?p" using p by force
    then have "k \<in> fst ` set base" by (simp add: same)
    then obtain u where u: "(k, u) \<in> set base" by auto
    have low_k: "to_lower k = k" using assms(5) u by (auto simp: lower_keys_def list_all_iff)
    have "value_ok (to_lower k) u"
      using assms(3) u decode_fields_ok [of base empty_input] by (auto simp: list_all_iff)
    then show ?thesis
      using v field_of_member [OF assms(4) u] value_ok_text [of k] assms(2) low_k
      by (cases "k = ''timeout_seconds''") (auto split: option.splits)
  qed
  then obtain b where b: "decode_fields ?p empty_input = Some b"
    using decode_fields_ok [of ?p empty_input] by (auto simp: list_all_iff)
  note f = run_form_field [of c es base]
  have none: "last_write es k = None" if "k \<notin> fst ` set form_defaults" for k
    using offered_last_write [OF assms(1)] that by (cases "last_write es k") auto
  note reads = f_name.rewritten [OF assms(3-5) b dist low f] f_description.rewritten [OF assms(3-5) b dist low f]
    f_cron.rewritten [OF assms(3-5) b dist low f] f_url.rewritten [OF assms(3-5) b dist low f]
    f_method.rewritten [OF assms(3-5) b dist low f] f_headers.rewritten [OF assms(3-5) b dist low f]
    f_body.rewritten [OF assms(3-5) b dist low f] f_timezone.rewritten [OF assms(3-5) b dist low f]
    f_timeout.rewritten [OF assms(3-5) b dist low f] f_policy.rewritten [OF assms(3-5) b dist low f]
  have "in_headers b = in_headers b0"
    using reads(6) none [of "''headers''"] by (simp add: form_defaults_def)
  moreover have "in_timeout b = in_timeout b0" using reads(9) assms(2) by simp
  moreover have "in_body b = (case last_write es ''body'' of Some w \<Rightarrow> Some w | None \<Rightarrow> in_body b0)"
  proof (cases "last_write es ''body''")
    case (Some w)
    then have "in_body b = Some w" using reads(7) by simp
    with Some show ?thesis by simp
  qed (use reads(7) in simp)
  moreover note written_read [OF reads(1)] written_read [OF reads(2)] written_read [OF reads(3)]
    written_read [OF reads(4)] written_read [OF reads(5)] written_read [OF reads(8)] written_read [OF reads(10)]
  ultimately have "b = overwritten es b0"
    by (intro job_input.equality) (simp_all add: overwritten_def)
  then show ?thesis using b by simp
qed

lemma job_json_decodes:
  assumes "- (2 ^ 63) \<le> jb_timeout j" and "jb_timeout j < 2 ^ 63" and "jb_headers j \<noteq> JUndef"
  shows "decode_fields (form_init (job_json d j)) empty_input = Some (edited j [])"
proof -
  have "go_string_ptr (opt_string (jb_body j)) None = Some (jb_body j)" "go_string_ptr (opt_string (jb_body j)) (Some []) = Some (jb_body j)"
    by (cases "jb_body j"; simp)+
  then show ?thesis
    using assms
    by (simp add: form_init_def spread_def job_json_def form_defaults_def decode_field_cases lower_char_def
        empty_input_def edited_def written_def last_write_def List.map_filter_def)
qed

lemma edit_decodes:
  assumes "offered_run es" and "last_write es ''timeout_seconds'' = None"
    and "- (2 ^ 63) \<le> jb_timeout j" and "jb_timeout j < 2 ^ 63" and "jb_headers j \<noteq> JUndef"
  shows "decode_job (Some (JObj (edit_payload d j es))) = Some (edited j es)"
proof -
  let ?base = "form_init (job_json d j)"
  have "distinct (map fst ?base)" "lower_keys ?base" "fst ` set form_defaults \<subseteq> fst ` set ?base"
    using edit_payload_distinct [of d j "[]"] edit_payload_keys [of "[]" d j] lower_job_json [of d j] defaults_in_job_json [of d j]
    by (simp_all add: edit_payload_def run_form_def offered_run_def lower_keys_iff)
  from overwritten_decodes [OF assms(1,2) job_json_decodes [OF assms(3-5)] this, of False]
  show ?thesis
    by (simp add: edit_payload_def overwritten_def edited_def written_def last_write_def List.map_filter_def
        split: option.split)
qed

section \<open>The invariant of the tables\<close>

text \<open>What the handlers keep of a row of the jobs: the four fields with defaults are never empty, the
  status is one of the two the handlers set, the timeout fits its column.\<close>

definition job_ok :: "job \<Rightarrow> bool" where
  "job_ok j \<longleftrightarrow>
     jb_method j \<noteq> [] \<and> jb_timezone j \<noteq> [] \<and> jb_timeout j \<noteq> 0 \<and> jb_policy j \<noteq> [] \<and>
     - (2 ^ 31) \<le> jb_timeout j \<and> jb_timeout j < 2 ^ 31 \<and> jb_headers j \<noteq> JUndef \<and>
     jb_status j \<in> {''active'', ''paused''}"

text \<open>The owner of a job is an account, the job of an execution is there, no address belongs to two
  accounts.\<close>

definition owner_ok :: "db \<Rightarrow> job \<Rightarrow> bool" where
  "owner_ok d j \<longleftrightarrow> (case jb_user j of None \<Rightarrow> True | Some u \<Rightarrow> u \<in> us_id ` set (db_users d))"

definition tables_ok :: "db \<Rightarrow> bool" where
  "tables_ok d \<longleftrightarrow>
     list_all (\<lambda>j. job_ok j \<and> owner_ok d j) (db_jobs d) \<and>
     list_all (\<lambda>e. ex_job e \<in> jb_id ` set (db_jobs d)) (db_execs d) \<and>
     distinct (map us_email (db_users d))"

text \<open>The calls that can change a table, with every argument the outside world supplies.\<close>

inductive jobs_step :: "db \<Rightarrow> db \<Rightarrow> bool" where
  create: "jobs_step d (fst (CreateJob fresh now dberr uid body d))"
| update: "jobs_step d (fst (UpdateJob now uid i body d))"
| delete: "jobs_step d (fst (DeleteJob uid i d))"
| pause: "jobs_step d (fst (PauseJob now uid i d))"
| resume: "jobs_step d (fst (ResumeJob now uid i d))"
| trigger: "jobs_step d (fst (TriggerJob uid i d))"
| admin_create: "jobs_step d (fst (AdminCreateJob fresh now dberr body d))"
| admin_update: "jobs_step d (fst (AdminUpdateJob now i body d))"
| admin_delete: "jobs_step d (fst (AdminDeleteJob i d))"
| admin_pause: "jobs_step d (fst (AdminPauseJob now i d))"
| admin_resume: "jobs_step d (fst (AdminResumeJob now i d))"
| register: "jobs_step d (fst (Register hash sign fresh now body d))"
| change_password: "jobs_step d (fst (ChangePassword hash same uid body d))"
| create_user: "jobs_step d (fst (AdminCreateUser hash fresh now body d))"
| update_user: "jobs_step d (fst (AdminUpdateUser hash i body d))"
| delete_user: "jobs_step d (fst (AdminDeleteUser uuid uid i d))"

lemma decode_headers:
  assumes "decode_fields ps b = Some b'" and "in_headers b \<noteq> Some JUndef"
  shows "in_headers b' \<noteq> Some JUndef"
  using assms
proof (induction ps arbitrary: b)
  case (Cons p ps)
  obtain k v where p: "p = (k, v)" by (cases p)
  from Cons.prems(1) obtain b1 where b1: "decode_field k v b = Some b1" "decode_fields ps b1 = Some b'"
    by (auto simp: p bind_eq_Some_conv)
  have "in_headers b1 \<noteq> Some JUndef"
    using b1(1) Cons.prems(2) by (auto simp: decode_field_cases split: if_splits)
  then show ?case by (rule Cons.IH [OF b1(2)])
qed simp

lemma decode_job_headers: "decode_job body = Some b \<Longrightarrow> in_headers b \<noteq> Some JUndef"
  by (induction body rule: decode_job.induct) (auto simp: empty_input_def dest: decode_headers)

lemma set_job_keeps: "jb_id (set_job now b j) = jb_id j" "jb_user (set_job now b j) = jb_user j"
  by (simp_all add: set_job_def)

lemma headersJSON_value: "in_headers b \<noteq> Some JUndef \<Longrightarrow> headersJSON b \<noteq> JUndef"
  by (cases "in_headers b") (simp_all add: headersJSON_def)

lemma new_job_ok:
  assumes "decode_job body = Some b" and "fits_schema (applyDefaults b) \<or> fits_schema (applyDefaults b\<lparr>in_policy := []\<rparr>)"
    and "pol \<noteq> []"
  shows "job_ok (new_job fresh uid now (applyDefaults b))"
    and "job_ok (new_job fresh uid now (applyDefaults b\<lparr>in_policy := pol\<rparr>))"
    and "job_ok k \<Longrightarrow> job_ok (set_job now (applyDefaults b) k)"
    and "job_ok k \<Longrightarrow> job_ok (set_job now (applyDefaults b\<lparr>in_policy := jb_policy k\<rparr>) k)"
  using assms headersJSON_value [of b] decode_job_headers [OF assms(1)]
  by (auto simp: job_ok_def new_job_def set_job_def applyDefaults_def fits_schema_def headersJSON_def)

lemma tables_okD:
  assumes "tables_ok d"
  shows "j \<in> set (db_jobs d) \<Longrightarrow> job_ok j" "j \<in> set (db_jobs d) \<Longrightarrow> owner_ok d j"
    and "e \<in> set (db_execs d) \<Longrightarrow> ex_job e \<in> jb_id ` set (db_jobs d)" "distinct (map us_email (db_users d))"
  using assms by (auto simp: tables_ok_def list_all_iff)

lemma owner_ok_ids: "us_id ` set (db_users d') = us_id ` set (db_users d) \<Longrightarrow> owner_ok d' = owner_ok d"
  by (auto simp: owner_ok_def fun_eq_iff split: option.split)

lemma owner_ok_same [simp]:
  "owner_ok (d\<lparr>db_jobs := js\<rparr>) = owner_ok d" "owner_ok (d\<lparr>db_execs := es\<rparr>) = owner_ok d"
  by (rule owner_ok_ids; simp)+

lemma tables_ok_add:
  "tables_ok d \<Longrightarrow> job_ok j \<Longrightarrow> owner_ok d j \<Longrightarrow> tables_ok (d\<lparr>db_jobs := db_jobs d @ [j]\<rparr>)"
  by (auto simp: tables_ok_def list_all_iff)

lemma tables_ok_update:
  assumes "tables_ok d" and "\<And>j. job_ok j \<Longrightarrow> job_ok (f j)" and "\<And>j. jb_id (f j) = jb_id j \<and> jb_user (f j) = jb_user j"
  shows "tables_ok (update_job i f d)"
proof -
  have "jb_id ` set (map (\<lambda>j. if jb_id j = i then f j else j) js) = jb_id ` set js" for js
    using assms(3) by (induction js) auto
  moreover have "owner_ok d (f j) = owner_ok d j" for j using assms(3) by (simp add: owner_ok_def)
  ultimately show ?thesis
    using assms(1,2) by (auto simp: tables_ok_def update_job_def list_all_iff)
qed

lemma tables_ok_remove: "tables_ok d \<Longrightarrow> tables_ok (remove_job i d)"
  by (auto simp: tables_ok_def remove_job_def list_all_iff)

lemma tables_ok_cancel: "tables_ok d \<Longrightarrow> tables_ok (cancel_running i d)"
  by (auto simp: tables_ok_def cancel_running_def list_all_iff)

lemma tables_ok_user_add:
  assumes "tables_ok d" and "\<not> list_ex (\<lambda>v. us_email v = us_email u) (db_users d)"
  shows "tables_ok (d\<lparr>db_users := db_users d @ [u]\<rparr>)"
proof -
  have "owner_ok d j \<Longrightarrow> owner_ok (d\<lparr>db_users := db_users d @ [u]\<rparr>) j" for j
    by (auto simp: owner_ok_def split: option.splits)
  then show ?thesis using assms by (auto simp: tables_ok_def list_all_iff list_ex_iff)
qed

lemma tables_ok_user_update:
  assumes "tables_ok d" and "\<And>u. us_id (f u) = us_id u \<and> us_email (f u) = us_email u"
  shows "tables_ok (UsersApi.update_user i f d)"
proof -
  let ?us = "map (\<lambda>u. if us_id u = i then f u else u) (db_users d)"
  have "map us_id ?us = map us_id (db_users d)" and emails: "map us_email ?us = map us_email (db_users d)"
    using assms(2) by simp_all
  then have "us_id ` set ?us = us_id ` set (db_users d)" by (metis list.set_map)
  moreover have sel: "db_users (UsersApi.update_user i f d) = ?us" "db_jobs (UsersApi.update_user i f d) = db_jobs d"
    "db_execs (UsersApi.update_user i f d) = db_execs d"
    by (simp_all add: update_user_def)
  ultimately have "owner_ok (UsersApi.update_user i f d) = owner_ok d"
    by (intro owner_ok_ids) (simp only: sel)
  then show ?thesis
    using assms(1) emails by (simp only: tables_ok_def sel)
qed

lemma tables_ok_user_remove:
  assumes "tables_ok d"
  shows "tables_ok (remove_user i d)"
proof -
  have "owner_ok (remove_user i d) j" if "j \<in> set (db_jobs d)" "jb_user j \<noteq> Some i" for j
    using tables_okD(2) [OF assms that(1)] that(2)
    by (auto simp: owner_ok_def remove_user_def Let_def split: option.splits)
  moreover have "\<exists>j \<in> set (db_jobs d). jb_id j = ex_job e \<and> jb_user j \<noteq> Some i"
    if "e \<in> set (db_execs d)" "ex_job e \<notin> jb_id ` {j \<in> set (db_jobs d). jb_user j = Some i}" for e
    using tables_okD(3) [OF assms that(1)] that(2) by auto
  ultimately show ?thesis
    using assms unfolding tables_ok_def list_all_iff
    by (auto simp: remove_user_def Let_def distinct_map image_iff intro: inj_on_subset) fastforce+
qed

lemma job_ok_status: "job_ok j \<Longrightarrow> s \<in> {''active'', ''paused''} \<Longrightarrow> job_ok (j\<lparr>jb_status := s, jb_updated := now\<rparr>)"
  by (auto simp: job_ok_def)

lemma owner_ok_new: "uid \<in> us_id ` set (db_users d) \<Longrightarrow> owner_ok d (new_job fresh uid now b)"
  by (simp add: owner_ok_def new_job_def)

lemmas tables_ok_intros = tables_ok_add tables_ok_update tables_ok_remove tables_ok_cancel job_ok_status
  tables_ok_user_add tables_ok_user_update tables_ok_user_remove owner_ok_new

lemma jobs_step_ok: "jobs_step d d' \<Longrightarrow> tables_ok d \<Longrightarrow> tables_ok d'"
proof (induction rule: jobs_step.induct)
  case (create fresh now dberr uid body d)
  then show ?case
    by (auto simp: CreateJob_def Let_def intro!: tables_ok_add new_job_ok(1) owner_ok_new split: option.split)
next
  case (update now uid i body d)
  then show ?case
    by (auto simp: UpdateJob_def Let_def set_job_keeps intro!: tables_ok_update new_job_ok(3) split: option.split)
next
  case (admin_create fresh now dberr body d)
  then show ?case
    by (auto simp: AdminCreateJob_def Let_def intro!: tables_ok_add new_job_ok(2) owner_ok_new split: option.split)
next
  case (admin_update now i body d)
  then show ?case
    by (auto simp: AdminUpdateJob_def Let_def set_job_keeps intro!: tables_ok_update new_job_ok(4) split: option.split)
qed (auto simp: DeleteJob_def PauseJob_def ResumeJob_def TriggerJob_def AdminDeleteJob_def AdminPauseJob_def
    AdminResumeJob_def setJobStatus_def adminSetJobStatus_def Register_def ChangePassword_def AdminCreateUser_def
    AdminUpdateUser_def AdminDeleteUser_def Let_def intro!: tables_ok_intros split: option.split)

interpretation tables: kept jobs_step tables_ok
  by unfold_locales (rule jobs_step_ok)

section \<open>Statements on rows\<close>

lemma owned_job_json:
  assumes "owned_job uid i d = Some j"
  shows "jb_id j = i" "jb_user j = Some uid" "j \<in> set (db_jobs d)"
  using find_SomeD [of _ "db_jobs d" j] assms by (auto simp: owned_job_def)

text \<open>The row with an id after an update of that row.\<close>

lemma owned_after_update:
  assumes "owned_job uid i d = Some j" and "\<And>k. jb_id (f k) = jb_id k \<and> jb_user (f k) = jb_user k"
  shows "owned_job uid i (update_job i f d) = Some (f j)"
proof -
  have "find P (map (\<lambda>j. if jb_id j = i then f j else j) js) = Some (f j)"
    if "find P js = Some j" "P = (\<lambda>j. jb_id j = i \<and> jb_user j = Some uid)" for P js
    using that assms(2) by (induction js) (auto split: if_splits)
  then show ?thesis using assms(1) by (simp add: owned_job_def update_job_def)
qed

section \<open>Properties\<close>

text \<open>C7: Editing a job changes what was edited and nothing else.  For a job of the signed-in user,
  any run of edits on the edit page that leaves the timeout alone and fits the columns, once saved, is
  accepted by the server; the row then has the last value entered in each field, the old value in the
  others, headers and status included, and the form's page is told to refresh and shown the job.\<close>

theorem edit_page_saves:
  assumes "owned_job uid i d = Some j" and "job_ok j" and "offered_run es"
    and "last_write es ''timeout_seconds'' = None" and "fits_schema (applyDefaults (edited j es))"
    and "EditJob_mount (Some (job_json d j)) False = Some form"
    and "snd (form_step False Submit v (run_form False es form)) = [OnSubmit payload]"
    and "UpdateJob now uid i (rq_body (call_request (EditJob_onSubmit i payload))) d = (d', reply)"
  shows "fst reply = 200 \<and>
    owned_job uid i d' = Some (j\<lparr>
      jb_name := written es ''name'' (jb_name j),
      jb_description := written es ''description'' (jb_description j),
      jb_cron := written es ''cron_expression'' (jb_cron j),
      jb_url := written es ''url'' (jb_url j),
      jb_method := (if written es ''method'' (jb_method j) = [] then ''GET'' else written es ''method'' (jb_method j)),
      jb_body := (case last_write es ''body'' of Some w \<Rightarrow> Some w | None \<Rightarrow> jb_body j),
      jb_timezone := (if written es ''timezone'' (jb_timezone j) = [] then ''UTC'' else written es ''timezone'' (jb_timezone j)),
      jb_policy := (if written es ''concurrency_policy'' (jb_policy j) = [] then ''Allow''
                    else written es ''concurrency_policy'' (jb_policy j)),
      jb_updated := now\<rparr>) \<and>
    (\<forall>k. jb_id k \<noteq> i \<longrightarrow> (k \<in> set (db_jobs d') \<longleftrightarrow> k \<in> set (db_jobs d)))"
proof -
  have p: "payload = edit_payload d j es"
    using assms(6,7) by (simp add: EditJob_mount_def edit_payload_def)
  have t: "- (2 ^ 63) \<le> jb_timeout j" "jb_timeout j < 2 ^ 63" "jb_timeout j \<noteq> 0" "jb_headers j \<noteq> JUndef"
    using assms(2) by (auto simp: job_ok_def)
  have dec: "decode_job (rq_body (call_request (EditJob_onSubmit i payload))) = Some (edited j es)"
    using edit_decodes [OF assms(3,4) t(1,2,4), of d]
    by (simp add: EditJob_onSubmit_def updateJob_def data_of_def client_def p)
  let ?f = "set_job now (applyDefaults (edited j es))"
  have r: "d' = update_job i ?f d" "reply = (200, JObj (job_json d' (?f j)))"
    using assms(1,5,8) unfolding UpdateJob_def dec by (auto simp: Let_def)
  have "owned_job uid i d' = Some (?f j)"
    unfolding r(1) by (rule owned_after_update [OF assms(1)]) (simp add: set_job_def)
  moreover have "?f j = j\<lparr>
      jb_name := written es ''name'' (jb_name j),
      jb_description := written es ''description'' (jb_description j),
      jb_cron := written es ''cron_expression'' (jb_cron j),
      jb_url := written es ''url'' (jb_url j),
      jb_method := (if written es ''method'' (jb_method j) = [] then ''GET'' else written es ''method'' (jb_method j)),
      jb_body := (case last_write es ''body'' of Some w \<Rightarrow> Some w | None \<Rightarrow> jb_body j),
      jb_timezone := (if written es ''timezone'' (jb_timezone j) = [] then ''UTC'' else written es ''timezone'' (jb_timezone j)),
      jb_policy := (if written es ''concurrency_policy'' (jb_policy j) = [] then ''Allow''
                    else written es ''concurrency_policy'' (jb_policy j)),
      jb_updated := now\<rparr>"
    using t(3) by (intro job.equality) (simp_all add: set_job_def applyDefaults_def edited_def headersJSON_def)
  moreover have "k \<in> set (db_jobs d') \<longleftrightarrow> k \<in> set (db_jobs d)" if "jb_id k \<noteq> i" for k
    using that by (auto simp: r(1) update_job_def set_job_def split: if_splits)
  ultimately show ?thesis using r(2) by simp
qed

definition example_job :: job where
  "example_job =
     \<lparr>jb_id = ''7'', jb_user = Some ''1'', jb_name = ''n'', jb_description = [], jb_cron = ''0 * * * *'',
      jb_url = ''http://x'', jb_method = ''GET'', jb_headers = JObj [(''X'', JStr ''1'')], jb_body = None,
      jb_status = ''active'', jb_timezone = ''UTC'', jb_timeout = 30, jb_policy = ''Forbid'',
      jb_last_run = None, jb_created = ''t'', jb_updated = ''t''\<rparr>"

definition example_db :: db where
  "example_db = \<lparr>db_users = [], db_jobs = [example_job],
     db_execs = [\<lparr>ex_id = ''e'', ex_job = ''7'', ex_status = ''running'', ex_trigger = ''schedule'',
       ex_started = ''t'', ex_completed = None, ex_duration = None, ex_response = None, ex_body = None, ex_error = None,
       ex_cancel = False\<rparr>]\<rparr>"

lemma example_row: "owned_job ''1'' ''7'' example_db = Some example_job" "any_job ''7'' example_db = Some example_job"
  by (simp_all add: owned_job_def any_job_def example_db_def example_job_def)

lemma example_ok: "job_ok example_job"
  by (simp add: job_ok_def example_job_def)

theorem edit_page_saves_witness:
  "let es = [(Change ''name'', ''m''), (Preset ''0 0 * * *'', [])];
       payload = run_form False es (form_init (job_json example_db example_job));
       (d', reply) = UpdateJob ''u'' ''1'' ''7'' (rq_body (call_request (EditJob_onSubmit ''7'' payload))) example_db
   in fst reply = 200 \<and> owned_job ''1'' ''7'' d' =
        Some (example_job\<lparr>jb_name := ''m'', jb_cron := ''0 0 * * *'', jb_updated := ''u''\<rparr>)"
proof -
  let ?es = "[(Change ''name'', ''m''), (Preset ''0 0 * * *'', [])]"
  let ?form = "form_init (job_json example_db example_job)"
  let ?p = "run_form False ?es ?form"
  let ?r = "UpdateJob ''u'' ''1'' ''7'' (rq_body (call_request (EditJob_onSubmit ''7'' ?p))) example_db"
  have off: "offered_run ?es"
    by (simp add: offered_run_def events_JobForm PRESETS_def)
  have lw: "last_write ?es ''timeout_seconds'' = None"
    by (simp add: last_write_def List.map_filter_def)
  have fit: "fits_schema (applyDefaults (edited example_job ?es))"
    by (simp add: fits_schema_def applyDefaults_def edited_def written_def last_write_def List.map_filter_def
        example_job_def varchar_def char_count_def is_cont_def headersJSON_def)
  have m: "EditJob_mount (Some (job_json example_db example_job)) False = Some ?form"
    by (simp add: EditJob_mount_def)
  have s: "snd (form_step False Submit [] ?p) = [OnSubmit ?p]" by simp
  have "?r = (fst ?r, snd ?r)" by simp
  from edit_page_saves [OF example_row(1) example_ok off lw fit m s this]
  have "fst (snd ?r) = 200" "owned_job ''1'' ''7'' (fst ?r) =
      Some (example_job\<lparr>jb_name := ''m'', jb_cron := ''0 0 * * *'', jb_updated := ''u''\<rparr>)"
    by (simp_all add: written_def last_write_def List.map_filter_def example_job_def)
  then show ?thesis unfolding Let_def case_prod_beta' by blast
qed

text \<open>C18: An edit of the timeout is never saved.  The input hands the form a string, the server wants
  a number: once the timeout was edited, to any value, the form's object is refused by the creation and
  by the update as an invalid body, and nothing is stored.\<close>

theorem timeout_edit_refused:
  assumes "last_write es ''timeout_seconds'' = Some w"
    and "payload = run_form c es (form_init given)"
  shows "CreateJob fresh now dberr uid (rq_body (call_request (NewJob_onSubmit payload))) d =
      (d, (400, JObj [(''error'', JStr ''Invalid request body'')])) \<and>
    UpdateJob now uid i (rq_body (call_request (EditJob_onSubmit i payload))) d =
      (d, (400, JObj [(''error'', JStr ''Invalid request body'')]))"
proof -
  have "field payload ''timeout_seconds'' = JStr w"
    by (simp add: assms run_form_field)
  then have "(''timeout_seconds'', JStr w) \<in> set payload"
    by (auto simp: field_def split: option.splits dest: map_of_SomeD)
  moreover have "to_lower ''timeout_seconds'' = ''timeout_seconds''" by (simp add: lower_char_def)
  moreover have "\<not> value_ok ''timeout_seconds'' (JStr w)" by (simp add: value_ok_def)
  ultimately have "decode_fields payload empty_input = None"
    using decode_fields_bad [of "(''timeout_seconds'', JStr w)" payload empty_input] by simp
  then show ?thesis
    by (simp add: CreateJob_def UpdateJob_def NewJob_onSubmit_def EditJob_onSubmit_def createJob_def
        updateJob_def data_of_def client_def writeError_def)
qed

theorem timeout_edit_refused_witness:
  "let payload = run_form False [(Change ''timeout_seconds'', ''60'')] (form_init [])
   in CreateJob ''7'' ''t'' ''err'' ''1'' (rq_body (call_request (NewJob_onSubmit payload))) example_db =
      (example_db, (400, JObj [(''error'', JStr ''Invalid request body'')]))"
  using timeout_edit_refused [of "[(Change ''timeout_seconds'', ''60'')]" "''60''"
      "run_form False [(Change ''timeout_seconds'', ''60'')] (form_init [])" False "[]"]
  by (simp add: Let_def last_write_def List.map_filter_def)

text \<open>What the handlers do with an action that the card of a job of the user offers.\<close>

lemma offered_actions_done:
  assumes "owned_job uid i d = Some j" and "ev \<in> set (events (JobCard (job_json d j)))"
  shows "case ev of
      Run \<Rightarrow> TriggerJob uid i d =
          (if jb_policy j = ''Forbid'' \<and> HasRunning i d
           then (d, writeError 409 ''Job is already running (Forbid policy)'', [])
           else (if jb_policy j = ''Replace'' then cancel_running i d else d, message 200 ''Job triggered'', [j]))
    | Pause \<Rightarrow> fst (snd (PauseJob now uid i d)) = 200 \<and>
        owned_job uid i (fst (PauseJob now uid i d)) = Some (j\<lparr>jb_status := ''paused'', jb_updated := now\<rparr>)
    | Resume \<Rightarrow> fst (snd (ResumeJob now uid i d)) = 200 \<and>
        owned_job uid i (fst (ResumeJob now uid i d)) = Some (j\<lparr>jb_status := ''active'', jb_updated := now\<rparr>)
    | Remove \<Rightarrow> fst (snd (DeleteJob uid i d)) = 204 \<and> any_job i (fst (DeleteJob uid i d)) = None"
proof -
  have id: "jb_id j = i" using owned_job_json [OF assms(1)] by simp
  have ev: "ev \<in> set (offered (JStr (jb_status j)))"
    using assms(2) by (simp add: events_JobCard job_json_def)
  have status: "jb_status j = req \<Longrightarrow> fst (snd (setJobStatus new req now uid i d)) = 200 \<and>
      owned_job uid i (fst (setJobStatus new req now uid i d)) = Some (j\<lparr>jb_status := new, jb_updated := now\<rparr>)"
    for req new
    using assms(1) owned_after_update [OF assms(1), of "\<lambda>k. k\<lparr>jb_status := new, jb_updated := now\<rparr>"]
    by (simp add: setJobStatus_def Let_def)
  have gone: "any_job i (remove_job i d) = None"
    by (auto simp: any_job_def remove_job_def find_None_iff)
  show ?thesis
  proof (cases ev)
    case Run
    then show ?thesis using assms(1) id by (simp add: TriggerJob_def)
  next
    case Pause
    then show ?thesis using ev status [of "''active''" "''paused''"]
      by (simp add: offered_def PauseJob_def split: if_splits)
  next
    case Resume
    then show ?thesis using ev status [of "''paused''" "''active''"]
      by (simp add: offered_def ResumeJob_def split: if_splits)
  next
    case Remove
    then show ?thesis using assms(1) gone by (simp add: DeleteJob_def)
  qed
qed

text \<open>C12: The tables stay well-formed.  Whatever requests reach the handlers of jobs and accounts, in
  any order and with any bodies: if every job had a method, a time zone, a non-zero timeout within its
  column, a policy, a header value and the status active or paused, and belonged to an account, every
  execution to a job, and no address to two accounts, then all this still holds.\<close>

theorem job_table_invariant:
  assumes "jobs_step\<^sup>*\<^sup>* d d'" and "tables_ok d"
  shows "tables_ok d'"
  using assms by (rule tables.always)

theorem job_table_invariant_witness:
  "let d = (example_db\<lparr>db_users := [\<lparr>us_id = ''1'', us_email = ''a'', us_hash = ''h'', us_role = ''user'', us_created = ''t''\<rparr>]\<rparr>)
   in tables_ok (fst (CreateJob ''8'' ''t'' ''err'' ''1'' (Some (JObj form_defaults)) (fst (DeleteJob ''1'' ''7'' d)))) \<and>
      tables_ok (fst (AdminDeleteUser id ''2'' ''1'' d))"
proof -
  let ?d = "example_db\<lparr>db_users := [\<lparr>us_id = ''1'', us_email = ''a'', us_hash = ''h'', us_role = ''user'', us_created = ''t''\<rparr>]\<rparr>"
  have "jobs_step\<^sup>*\<^sup>* ?d (fst (CreateJob ''8'' ''t'' ''err'' ''1'' (Some (JObj form_defaults))
      (fst (DeleteJob ''1'' ''7'' ?d))))"
    by (meson jobs_step.create jobs_step.delete r_into_rtranclp rtranclp_trans)
  moreover have "jobs_step\<^sup>*\<^sup>* ?d (fst (AdminDeleteUser id ''2'' ''1'' ?d))"
    by (rule r_into_rtranclp) (rule jobs_step.delete_user)
  moreover have "tables_ok ?d"
    by (simp add: tables_ok_def owner_ok_def example_db_def example_ok) (simp add: example_job_def)
  ultimately show ?thesis unfolding Let_def by (metis job_table_invariant)
qed

text \<open>An administrator's edit wipes the headers.  Whatever the administrator changed in the drawer,
  when the update is accepted the job's headers are the empty object afterwards, while its concurrency
  policy stays what it was although the drawer showed and sent one.\<close>

theorem admin_edit_wipes_headers:
  assumes "any_job i d = Some j" and "offered_run es"
    and "payload = run_form True es (drawer_form (admin_job_json d j))"
    and "AdminUpdateJob now i (rq_body (call_request (admin_updateJob i (JObj payload)))) d = (d', (200, v))"
  shows "\<exists>j'. any_job i d' = Some j' \<and> jb_headers j' = JObj [] \<and> jb_policy j' = jb_policy j"
proof -
  have keys: "map fst payload = map fst form_defaults"
    using run_form_keys [OF assms(2), of "drawer_form (admin_job_json d j)" True]
      drawer_form_keys [of "admin_job_json d j"] unfolding assms(3) by (metis list.set_map subset_refl)
  then have dist: "distinct (map fst payload)" using distinct_form_defaults by simp
  have low: "lower_keys payload"
  proof -
    have "lower_keys form_defaults" by (simp add: lower_keys_def form_defaults_def lower_char_def)
    moreover have "fst ` set payload = fst ` set form_defaults" using keys by (metis list.set_map)
    ultimately show ?thesis by (simp only: lower_keys_iff)
  qed
  have none: "field payload ''headers'' = JUndef"
    by (rule field_none) (simp add: keys form_defaults_def)
  obtain b where b: "decode_fields payload empty_input = Some b"
    using assms(4)
    by (cases "decode_fields payload empty_input")
      (simp_all add: AdminUpdateJob_def admin_updateJob_def response_of_def client_def writeError_def)
  have "in_headers b = None"
    using f_headers.read [OF b dist low] none by (simp add: go_raw_def empty_input_def)
  then have h: "headersJSON (applyDefaults b\<lparr>in_policy := p\<rparr>) = JObj []" for p
    by (simp add: headersJSON_def applyDefaults_def)
  let ?f = "\<lambda>j. set_job now (applyDefaults b\<lparr>in_policy := jb_policy j\<rparr>) j"
  have d': "d' = update_job i ?f d"
    using assms(1,4) b
    by (auto simp: AdminUpdateJob_def admin_updateJob_def response_of_def client_def writeError_def Let_def
        split: if_splits)
  have "find P (map (\<lambda>j. if jb_id j = i then ?f j else j) js) = Some (?f j)"
    if "find P js = Some j" "P = (\<lambda>j. jb_id j = i)" for P js
    using that by (induction js) (auto simp: set_job_def split: if_splits)
  then have "any_job i d' = Some (?f j)"
    using assms(1) by (simp add: any_job_def d' update_job_def)
  then show ?thesis using h by (simp add: set_job_def)
qed

theorem admin_edit_wipes_headers_witness:
  "let payload = run_form True [(Change ''name'', ''m'')] (drawer_form (admin_job_json example_db example_job));
       (d', reply) = AdminUpdateJob ''u'' ''7'' (rq_body (call_request (admin_updateJob ''7'' (JObj payload)))) example_db
   in jb_headers example_job \<noteq> JObj [] \<and>
      (\<exists>j'. any_job ''7'' d' = Some j' \<and> jb_headers j' = JObj [] \<and> jb_policy j' = ''Forbid'')"
proof -
  let ?es = "[(Change ''name'', ''m'')]"
  let ?p = "run_form True ?es (drawer_form (admin_job_json example_db example_job))"
  let ?r = "AdminUpdateJob ''u'' ''7'' (rq_body (call_request (admin_updateJob ''7'' (JObj ?p)))) example_db"
  have off: "offered_run ?es" by (simp add: offered_run_def events_JobForm)
  have "fst (snd ?r) = 200" by code_simp
  then have "?r = (fst ?r, (200, snd (snd ?r)))" by (metis prod.collapse)
  from admin_edit_wipes_headers [OF example_row(2) off refl this]
  have "\<exists>j'. any_job ''7'' (fst ?r) = Some j' \<and> jb_headers j' = JObj [] \<and> jb_policy j' = ''Forbid''"
    by (simp add: example_job_def)
  then show ?thesis unfolding Let_def case_prod_beta' by (simp add: example_job_def)
qed

text \<open>The concurrency policy on a manual trigger.  For the owner it is honoured: under \<open>Forbid\<close>
  nothing starts while the job runs, under \<open>Replace\<close> every running execution of the job is asked to
  cancel before the new one starts.  The administrator's trigger does not look at it and starts the job
  in every case.\<close>

theorem trigger_policies:
  assumes "owned_job uid i d = Some j" and "any_job i d = Some j"
  shows "(jb_policy j = ''Forbid'' \<and> HasRunning i d \<longrightarrow> snd (snd (TriggerJob uid i d)) = []) \<and>
    (jb_policy j = ''Replace'' \<longrightarrow> snd (snd (TriggerJob uid i d)) = [j] \<and>
       list_all (\<lambda>e. ex_job e = i \<and> ex_status e = ''running'' \<longrightarrow> ex_cancel e) (db_execs (fst (TriggerJob uid i d)))) \<and>
    (jb_policy j \<notin> {''Forbid'', ''Replace''} \<longrightarrow> TriggerJob uid i d = (d, message 200 ''Job triggered'', [j])) \<and>
    map jb_id (snd (AdminTriggerJob i d)) = [i]"
  using assms owned_job_json [OF assms(1)]
  by (auto simp: TriggerJob_def AdminTriggerJob_def scanAdminJob_def cancel_running_def list_all_iff)

theorem trigger_policies_witness:
  "jb_policy example_job = ''Forbid'' \<and> HasRunning ''7'' example_db \<and>
   snd (snd (TriggerJob ''1'' ''7'' example_db)) = [] \<and> map jb_id (snd (AdminTriggerJob ''7'' example_db)) = [''7'']"
proof -
  have "jb_policy example_job = ''Forbid''" "HasRunning ''7'' example_db"
    by (simp_all add: example_job_def HasRunning_def example_db_def)
  then show ?thesis using trigger_policies [OF example_row] by blast
qed

end
