(* ===== verification/Startup.thy ===== *)
theory Startup
  imports UserFlows JobFlows
begin

text \<open>
  How the API and the worker start: the settings from the environment (\<open>getenv\<close>, \<open>dsn\<close>), the schema they
  run (\<open>splitSQL\<close>, \<open>runSchema\<close>, the two \<open>db/schema.sql\<close>), the seeded administrator, and the health reply.
  The statements of the schemas are kept as what PostgreSQL documents of their four kinds; the bodies of
  index definitions beyond table and column are left out.
\<close>

section \<open>The environment\<close>

type_synonym env = "string \<rightharpoonup> string"

text \<open>\<open>os.Getenv\<close> of a variable that is not set is the empty string.\<close>

definition getenv :: "env \<Rightarrow> string \<Rightarrow> string \<Rightarrow> string" where
  "getenv e key fallback = (case e key of None \<Rightarrow> fallback | Some v \<Rightarrow> if v = [] then fallback else v)"

definition dsn :: "env \<Rightarrow> string" where
  "dsn e = ''host='' @ getenv e ''DB_HOST'' ''localhost'' @ '' port='' @ getenv e ''DB_PORT'' ''5432'' @
     '' dbname='' @ getenv e ''DB_NAME'' ''cronpilot'' @ '' user='' @ getenv e ''DB_USER'' ''cronpilot'' @
     '' password='' @ getenv e ''DB_PASSWORD'' ''cronpilot'' @ '' sslmode=disable''"

record settings =
  st_secret :: string
  st_origin :: string
  st_port :: string

definition api_settings :: "env \<Rightarrow> settings" where
  "api_settings e = \<lparr>st_secret = getenv e ''JWT_SECRET'' ''changeme'', st_origin = getenv e ''CORS_ORIGIN'' ''*'',
     st_port = getenv e ''PORT'' ''3000''\<rparr>"

lemma getenv_nonempty: "fallback \<noteq> [] \<Longrightarrow> getenv e key fallback \<noteq> []"
  by (simp add: getenv_def split: option.split)

section \<open>Statements of a script\<close>

text \<open>\<open>strings.Split\<close> at a semicolon that ends its line.\<close>

fun split_lines :: "string \<Rightarrow> string list" where
  "split_lines [] = [[]]"
| "split_lines [c] = [[c]]"
| "split_lines (c # d # s) =
     (if c = CHR '';'' \<and> d = CHR 0x0A then [] # split_lines s
      else case split_lines (d # s) of [] \<Rightarrow> [[c]] | p # ps \<Rightarrow> (c # p) # ps)"

definition splitSQL :: "string \<Rightarrow> string list" where
  "splitSQL s = filter (\<lambda>t. t \<noteq> []) (map trim (split_lines s))"

text \<open>The statements run in order; the first that fails ends the start with its beginning as the
  message.\<close>

fun runSchema :: "('s \<Rightarrow> 'c \<Rightarrow> 'c option) \<Rightarrow> 's list \<Rightarrow> 'c \<Rightarrow> 's + 'c" where
  "runSchema exec [] c = Inr c"
| "runSchema exec (s # ss) c = (case exec s c of None \<Rightarrow> Inl s | Some c' \<Rightarrow> runSchema exec ss c')"

definition schema_message :: "string \<Rightarrow> string" where
  "schema_message stmt = take 60 stmt"

lemma split_lines_nonempty: "split_lines s \<noteq> []"
  by (induction s rule: split_lines.induct) (simp_all split: list.split)

lemma join_cons_head: "ps \<noteq> [] \<Longrightarrow> join_with sep ((c # hd ps) # tl ps) = c # join_with sep ps"
  by (cases ps) (simp_all add: join_with_def)

text \<open>No character is lost: the parts joined by the separator are the script.\<close>

lemma split_lines_join: "join_with [CHR '';'', CHR 0x0A] (split_lines s) = s"
proof (induction s rule: split_lines.induct)
  case (3 c d s)
  have "split_lines s \<noteq> []" "split_lines (d # s) \<noteq> []" by (rule split_lines_nonempty)+
  then obtain p ps q qs where "split_lines s = p # ps" "split_lines (d # s) = q # qs" by (meson neq_Nil_conv)
  then show ?case using 3 join_cons_head [of "q # qs"] by (auto simp: join_with_def)
qed (simp_all add: join_with_def)

lemma runSchema_append:
  "runSchema exec (ss @ ts) c = (case runSchema exec ss c of Inl s \<Rightarrow> Inl s | Inr c' \<Rightarrow> runSchema exec ts c')"
  by (induction ss arbitrary: c) (simp_all split: option.split)

section \<open>The schema\<close>

text \<open>A column: its name, its type with constraints and default, the table it refers to.\<close>

datatype column = Col string string "string option"

fun col_name :: "column \<Rightarrow> string" where
  "col_name (Col n _ _) = n"

fun col_ref :: "column \<Rightarrow> string option" where
  "col_ref (Col _ _ r) = r"

datatype ddl =
    CreateExtension string
  | CreateTable string "column list"
  | AddColumn string column
  | CreateIndex string string string

record catalogue =
  ct_extensions :: "string list"
  ct_tables :: "(string \<times> column list) list"
  ct_indexes :: "string list"

definition no_tables :: catalogue where
  "no_tables = \<lparr>ct_extensions = [], ct_tables = [], ct_indexes = []\<rparr>"

definition columns :: "catalogue \<Rightarrow> string \<Rightarrow> column list" where
  "columns c t = (case map_of (ct_tables c) t of None \<Rightarrow> [] | Some cs \<Rightarrow> cs)"

definition refers :: "catalogue \<Rightarrow> string list \<Rightarrow> column \<Rightarrow> bool" where
  "refers c known col = (case col_ref col of None \<Rightarrow> True | Some t \<Rightarrow> t \<in> set known \<or> t \<in> fst ` set (ct_tables c))"

text \<open>\<open>IF NOT EXISTS\<close>: what is there already is left as it is.\<close>

fun apply_ddl :: "ddl \<Rightarrow> catalogue \<Rightarrow> catalogue option" where
  "apply_ddl (CreateExtension x) c = Some (c\<lparr>ct_extensions := List.insert x (ct_extensions c)\<rparr>)"
| "apply_ddl (CreateTable t cols) c =
     (if t \<in> fst ` set (ct_tables c) then Some c
      else if list_all (refers c [t]) cols then Some (c\<lparr>ct_tables := ct_tables c @ [(t, cols)]\<rparr>) else None)"
| "apply_ddl (AddColumn t col) c =
     (if t \<notin> fst ` set (ct_tables c) then None
      else if col_name col \<in> col_name ` set (columns c t) then Some c
      else if refers c [] col then Some (c\<lparr>ct_tables := put (ct_tables c) t (columns c t @ [col])\<rparr>) else None)"
| "apply_ddl (CreateIndex i t col) c =
     (if i \<in> set (ct_indexes c) then Some c
      else if col \<in> col_name ` set (columns c t) then Some (c\<lparr>ct_indexes := ct_indexes c @ [i]\<rparr>) else None)"

text \<open>The two files, the quotes of the defaults left out.\<close>

definition api_schema :: "ddl list" where
  "api_schema =
    [CreateExtension ''pgcrypto'',
     CreateTable ''users''
      [Col ''id'' ''UUID PRIMARY KEY DEFAULT gen_random_uuid()'' None,
       Col ''email'' ''VARCHAR(255) NOT NULL UNIQUE'' None,
       Col ''password_hash'' ''VARCHAR(255) NOT NULL'' None,
       Col ''role'' ''VARCHAR(20) NOT NULL DEFAULT user'' None,
       Col ''created_at'' ''TIMESTAMP DEFAULT NOW()'' None],
     AddColumn ''users'' (Col ''role'' ''VARCHAR(20) NOT NULL DEFAULT user'' None),
     CreateTable ''jobs''
      [Col ''id'' ''UUID PRIMARY KEY DEFAULT gen_random_uuid()'' None,
       Col ''user_id'' ''UUID REFERENCES users(id) ON DELETE CASCADE'' (Some ''users''),
       Col ''name'' ''VARCHAR(255) NOT NULL'' None,
       Col ''description'' ''TEXT'' None,
       Col ''cron_expression'' ''VARCHAR(100) NOT NULL'' None,
       Col ''url'' ''VARCHAR(2048) NOT NULL'' None,
       Col ''method'' ''VARCHAR(10) NOT NULL DEFAULT GET'' None,
       Col ''headers'' ''JSONB DEFAULT {}'' None,
       Col ''body'' ''TEXT'' None,
       Col ''status'' ''VARCHAR(20) NOT NULL DEFAULT active'' None,
       Col ''timezone'' ''VARCHAR(100) DEFAULT UTC'' None,
       Col ''timeout_seconds'' ''INT DEFAULT 30'' None,
       Col ''last_run_at'' ''TIMESTAMP'' None,
       Col ''created_at'' ''TIMESTAMP DEFAULT NOW()'' None,
       Col ''updated_at'' ''TIMESTAMP DEFAULT NOW()'' None],
     AddColumn ''jobs'' (Col ''user_id'' ''UUID REFERENCES users(id) ON DELETE CASCADE'' (Some ''users'')),
     CreateTable ''executions''
      [Col ''id'' ''UUID PRIMARY KEY DEFAULT gen_random_uuid()'' None,
       Col ''job_id'' ''UUID NOT NULL REFERENCES jobs(id) ON DELETE CASCADE'' (Some ''jobs''),
       Col ''status'' ''VARCHAR(20) NOT NULL DEFAULT running'' None,
       Col ''triggered_by'' ''VARCHAR(20) DEFAULT schedule'' None,
       Col ''started_at'' ''TIMESTAMP NOT NULL DEFAULT NOW()'' None,
       Col ''completed_at'' ''TIMESTAMP'' None,
       Col ''duration_ms'' ''INT'' None,
       Col ''response_status'' ''INT'' None,
       Col ''response_body'' ''TEXT'' None,
       Col ''error_message'' ''TEXT'' None,
       Col ''cancel_requested'' ''BOOLEAN NOT NULL DEFAULT FALSE'' None],
     AddColumn ''executions'' (Col ''cancel_requested'' ''BOOLEAN NOT NULL DEFAULT FALSE'' None),
     AddColumn ''jobs'' (Col ''concurrency_policy'' ''VARCHAR(20) NOT NULL DEFAULT Allow'' None),
     CreateIndex ''idx_executions_job_id'' ''executions'' ''job_id'',
     CreateIndex ''idx_executions_started'' ''executions'' ''started_at'',
     CreateIndex ''idx_jobs_status'' ''jobs'' ''status'',
     CreateIndex ''idx_jobs_user_id'' ''jobs'' ''user_id'']"

definition worker_schema :: "ddl list" where
  "worker_schema =
    [CreateExtension ''pgcrypto'',
     CreateTable ''jobs''
      [Col ''id'' ''UUID PRIMARY KEY DEFAULT gen_random_uuid()'' None,
       Col ''name'' ''VARCHAR(255) NOT NULL'' None,
       Col ''description'' ''TEXT'' None,
       Col ''cron_expression'' ''VARCHAR(100) NOT NULL'' None,
       Col ''url'' ''VARCHAR(2048) NOT NULL'' None,
       Col ''method'' ''VARCHAR(10) NOT NULL DEFAULT GET'' None,
       Col ''headers'' ''JSONB DEFAULT {}'' None,
       Col ''body'' ''TEXT'' None,
       Col ''status'' ''VARCHAR(20) NOT NULL DEFAULT active'' None,
       Col ''timezone'' ''VARCHAR(100) DEFAULT UTC'' None,
       Col ''timeout_seconds'' ''INT DEFAULT 30'' None,
       Col ''last_run_at'' ''TIMESTAMP'' None,
       Col ''created_at'' ''TIMESTAMP DEFAULT NOW()'' None,
       Col ''updated_at'' ''TIMESTAMP DEFAULT NOW()'' None],
     CreateTable ''executions''
      [Col ''id'' ''UUID PRIMARY KEY DEFAULT gen_random_uuid()'' None,
       Col ''job_id'' ''UUID NOT NULL REFERENCES jobs(id) ON DELETE CASCADE'' (Some ''jobs''),
       Col ''status'' ''VARCHAR(20) NOT NULL DEFAULT running'' None,
       Col ''triggered_by'' ''VARCHAR(20) DEFAULT schedule'' None,
       Col ''started_at'' ''TIMESTAMP NOT NULL DEFAULT NOW()'' None,
       Col ''completed_at'' ''TIMESTAMP'' None,
       Col ''duration_ms'' ''INT'' None,
       Col ''response_status'' ''INT'' None,
       Col ''response_body'' ''TEXT'' None,
       Col ''error_message'' ''TEXT'' None,
       Col ''cancel_requested'' ''BOOLEAN NOT NULL DEFAULT FALSE'' None],
     AddColumn ''jobs'' (Col ''concurrency_policy'' ''VARCHAR(20) NOT NULL DEFAULT Allow'' None),
     AddColumn ''executions'' (Col ''cancel_requested'' ''BOOLEAN NOT NULL DEFAULT FALSE'' None),
     CreateIndex ''idx_executions_job_id'' ''executions'' ''job_id'',
     CreateIndex ''idx_executions_started'' ''executions'' ''started_at'',
     CreateIndex ''idx_jobs_status'' ''jobs'' ''status'']"

text \<open>The columns the worker's statements name.\<close>

definition worker_needs :: "(string \<times> string list) list" where
  "worker_needs =
    [(''jobs'', [''id'', ''name'', ''cron_expression'', ''timezone'', ''url'', ''method'', ''headers'', ''body'',
        ''timeout_seconds'', ''concurrency_policy'', ''updated_at'', ''status'', ''last_run_at'']),
     (''executions'', [''id'', ''job_id'', ''status'', ''triggered_by'', ''started_at'', ''completed_at'', ''duration_ms'',
        ''error_message'', ''response_status'', ''response_body'', ''cancel_requested''])]"

definition has_columns :: "catalogue \<Rightarrow> string \<times> string list \<Rightarrow> bool" where
  "has_columns c need \<longleftrightarrow> list_all (\<lambda>n. n \<in> col_name ` set (columns c (fst need))) (snd need)"

section \<open>Starting\<close>

datatype program = Api | Worker

fun schema_of :: "program \<Rightarrow> ddl list" where
  "schema_of Api = api_schema"
| "schema_of Worker = worker_schema"

fun start_all :: "program list \<Rightarrow> catalogue \<Rightarrow> ddl + catalogue" where
  "start_all [] c = Inr c"
| "start_all (p # ps) c = (case runSchema apply_ddl (schema_of p) c of Inl s \<Rightarrow> Inl s | Inr c' \<Rightarrow> start_all ps c')"

datatype start_error = DbConnect | Schema ddl | SeedAdmin

definition worker_start :: "bool \<Rightarrow> catalogue \<Rightarrow> start_error + catalogue" where
  "worker_start reached c =
     (if \<not> reached then Inl DbConnect
      else case runSchema apply_ddl worker_schema c of Inl s \<Rightarrow> Inl (Schema s) | Inr c' \<Rightarrow> Inr c')"

definition admin_email :: "env \<Rightarrow> string" where
  "admin_email e = getenv e ''ADMIN_EMAIL'' ''admin@cronpilot.com''"

definition admin_password :: "env \<Rightarrow> string" where
  "admin_password e = getenv e ''ADMIN_PASSWORD'' ''Skills39''"

definition api_start ::
    "(string \<Rightarrow> string option) \<Rightarrow> string \<Rightarrow> string \<Rightarrow> env \<Rightarrow> bool \<Rightarrow> catalogue \<Rightarrow> db
     \<Rightarrow> start_error + (settings \<times> catalogue \<times> db)" where
  "api_start hash fresh now e reached c d =
     (if \<not> reached then Inl DbConnect
      else case runSchema apply_ddl api_schema c of
        Inl s \<Rightarrow> Inl (Schema s)
      | Inr c' \<Rightarrow>
          (case seedAdmin hash fresh now (admin_email e) (admin_password e) d of
             None \<Rightarrow> Inl SeedAdmin
           | Some d' \<Rightarrow> Inr (api_settings e, c', d')))"

text \<open>\<open>Health\<close>: the result of the ping is the argument.\<close>

definition Health :: "bool \<Rightarrow> reply" where
  "Health alive =
     (if alive then (200, JObj [(''db'', JStr ''connected''), (''status'', JStr ''ok'')])
      else (503, JObj [(''db'', JStr ''disconnected''), (''status'', JStr ''error'')]))"

section \<open>The proxy of the development server\<close>

text \<open>\<open>vite.config.js\<close>: requests whose path begins with a key go to its target.\<close>

definition dev_proxy :: "(string \<times> string) list" where
  "dev_proxy = [(''/api'', ''http://localhost:3000'')]"

definition proxied :: "string \<Rightarrow> string option" where
  "proxied url = map_option (\<lambda>(key, target). target @ url) (find (\<lambda>(key, target). prefix key url) dev_proxy)"

text \<open>Every request of the client goes where the API listens by default.\<close>

lemma client_proxied:
  "proxied (rq_url (client m url body)) = Some (''http://localhost:'' @ st_port (api_settings Map.empty) @ ''/api'' @ url)"
  by (simp add: proxied_def dev_proxy_def client_def base_url_def api_settings_def getenv_def)

section \<open>The schema, whoever starts first\<close>

definition after :: "program \<Rightarrow> catalogue \<Rightarrow> catalogue" where
  "after p c = (case runSchema apply_ddl (schema_of p) c of Inl s \<Rightarrow> c | Inr c' \<Rightarrow> c')"

lemma first_starts:
  "runSchema apply_ddl api_schema no_tables = Inr (after Api no_tables)"
  "runSchema apply_ddl worker_schema no_tables = Inr (after Worker no_tables)"
  "runSchema apply_ddl api_schema (after Worker no_tables) = Inr (after Api (after Worker no_tables))"
  by code_simp+

lemma later_starts:
  "runSchema apply_ddl api_schema (after Api no_tables) = Inr (after Api no_tables)"
  "runSchema apply_ddl worker_schema (after Api no_tables) = Inr (after Api no_tables)"
  "runSchema apply_ddl worker_schema (after Worker no_tables) = Inr (after Worker no_tables)"
  "runSchema apply_ddl api_schema (after Api (after Worker no_tables)) = Inr (after Api (after Worker no_tables))"
  "runSchema apply_ddl worker_schema (after Api (after Worker no_tables)) = Inr (after Api (after Worker no_tables))"
  by code_simp+

lemma worker_served:
  "list_all (has_columns (after Api no_tables)) worker_needs"
  "list_all (has_columns (after Worker no_tables)) worker_needs"
  "list_all (has_columns (after Api (after Worker no_tables))) worker_needs"
  by code_simp+

lemma same_columns: "set (columns (after Api (after Worker no_tables)) t) = set (columns (after Api no_tables) t)"
proof -
  have keys: "map fst (ct_tables (after Api no_tables)) = [''users'', ''jobs'', ''executions'']"
    "map fst (ct_tables (after Api (after Worker no_tables))) = [''jobs'', ''executions'', ''users'']"
    by code_simp+
  have "set (columns (after Api (after Worker no_tables)) ''users'') = set (columns (after Api no_tables) ''users'')"
    "set (columns (after Api (after Worker no_tables)) ''jobs'') = set (columns (after Api no_tables) ''jobs'')"
    "set (columns (after Api (after Worker no_tables)) ''executions'') = set (columns (after Api no_tables) ''executions'')"
    by code_simp+
  moreover have "columns c t = []" if "t \<notin> set (map fst (ct_tables c))" for c
    using that by (simp add: columns_def map_of_eq_None_iff [THEN iffD2])
  ultimately show ?thesis using keys by (cases "t \<in> {''users'', ''jobs'', ''executions''}") (auto simp del: set_map)
qed

lemma start_all_states:
  assumes "c \<in> {after Api no_tables, after Worker no_tables, after Api (after Worker no_tables)}"
  shows "\<exists>c'. start_all ps c = Inr c' \<and>
    (c' = c \<or> c = after Worker no_tables \<and> c' = after Api (after Worker no_tables)) \<and>
    (Api \<in> set ps \<longrightarrow> c' \<noteq> after Worker no_tables)"
  using assms
proof (induction ps arbitrary: c)
  case Nil
  then show ?case by simp
next
  case (Cons p ps)
  have ne: "after Api (after Worker no_tables) \<noteq> after Worker no_tables" "after Api no_tables \<noteq> after Worker no_tables"
    by code_simp+
  show ?case
    using Cons.prems Cons.IH [of "after Api no_tables"] Cons.IH [of "after Worker no_tables"]
      Cons.IH [of "after Api (after Worker no_tables)"] first_starts(3) later_starts ne
    by (cases p) auto
qed

section \<open>Properties\<close>

text \<open>C26: The order in which API and worker start does not matter to the tables.  However often and in
  whatever order the two programs run their schemas on an empty database, no statement fails; once one of
  them has started every column the worker's statements name is there; once the API has started the tables
  have exactly the columns of the API's schema; and from then on starts change nothing.\<close>

theorem schema_any_order:
  "\<exists>c. start_all starts no_tables = Inr c \<and>
    (starts \<noteq> [] \<longrightarrow> list_all (has_columns c) worker_needs) \<and>
    (Api \<in> set starts \<longrightarrow>
       (\<forall>t. set (columns c t) = set (columns (after Api no_tables) t)) \<and> start_all later c = Inr c)"
proof (cases starts)
  case Nil
  then show ?thesis by simp
next
  case (Cons p ps)
  have start: "start_all starts no_tables = start_all ps (after p no_tables)"
    using Cons first_starts by (cases p) simp_all
  have "after p no_tables \<in> {after Api no_tables, after Worker no_tables, after Api (after Worker no_tables)}"
    by (cases p) simp_all
  from start_all_states [OF this, of ps] obtain c where c: "start_all starts no_tables = Inr c"
      "c = after p no_tables \<or> after p no_tables = after Worker no_tables \<and> c = after Api (after Worker no_tables)"
      "Api \<in> set ps \<longrightarrow> c \<noteq> after Worker no_tables"
    unfolding start by blast
  then have states: "c \<in> {after Api no_tables, after Worker no_tables, after Api (after Worker no_tables)}"
    by (cases p) auto
  have ne: "after Api (after Worker no_tables) \<noteq> after Worker no_tables" "after Api no_tables \<noteq> after Worker no_tables"
    by code_simp+
  have "list_all (has_columns c) worker_needs" using states worker_served by auto
  moreover have "(\<forall>t. set (columns c t) = set (columns (after Api no_tables) t)) \<and> start_all later c = Inr c"
    if "Api \<in> set starts"
  proof -
    have "c \<noteq> after Worker no_tables" using that c(2,3) Cons ne by (cases p) auto
    then show ?thesis
      using states same_columns start_all_states [OF states, of later] by auto
  qed
  ultimately show ?thesis using c(1) by blast
qed

theorem schema_any_order_witness:
  "set (columns (after Api (after Worker no_tables)) ''jobs'') = set (columns (after Api no_tables) ''jobs'') \<and>
   start_all [Worker, Api, Worker] (after Api (after Worker no_tables)) = Inr (after Api (after Worker no_tables))"
proof -
  have "start_all [Worker, Api] no_tables = Inr (after Api (after Worker no_tables))" using first_starts by simp
  with schema_any_order [of "[Worker, Api]" "[Worker, Api, Worker]"] show ?thesis by simp
qed

section \<open>The seeded administrator\<close>

lemma tables_ok_users:
  assumes "tables_ok d" and "map us_id us = map us_id (db_users d)" and "map us_email us = map us_email (db_users d)"
  shows "tables_ok (d\<lparr>db_users := us\<rparr>)"
proof -
  have "owner_ok (d\<lparr>db_users := us\<rparr>) = owner_ok d"
    by (rule owner_ok_ids) (use arg_cong [OF assms(2), of set] in simp)
  then show ?thesis using assms(1,3) by (simp add: tables_ok_def)
qed

text \<open>What a successful seeding has done.\<close>

definition promote :: "string \<Rightarrow> user_row list \<Rightarrow> user_row list" where
  "promote m us = map (\<lambda>u. if us_email u = m then u\<lparr>us_role := ''admin''\<rparr> else u) us"

lemma seeded:
  assumes "seedAdmin hash fresh now m p d = Some d'"
  obtains (promoted) "m \<in> us_email ` set (db_users d)" "d' = d\<lparr>db_users := promote m (db_users d)\<rparr>"
    | (created) h where "m \<notin> us_email ` set (db_users d)" "hash p = Some h"
        "d' = d\<lparr>db_users := db_users d @
          [\<lparr>us_id = fresh, us_email = m, us_hash = h, us_role = ''admin'', us_created = now\<rparr>]\<rparr>"
proof (cases "list_ex (\<lambda>u. us_email u = m) (db_users d)")
  case True
  have "m \<in> us_email ` set (db_users d)" using True by (auto simp: list_ex_iff)
  moreover have "d' = d\<lparr>db_users := promote m (db_users d)\<rparr>" using assms True by (simp add: seedAdmin_def promote_def)
  ultimately show ?thesis by (rule promoted)
next
  case False
  have "m \<notin> us_email ` set (db_users d)" using False by (auto simp: list_ex_iff)
  moreover have "hash p \<noteq> None" using assms False by (cases "hash p") (simp_all add: seedAdmin_def)
  then obtain h where h: "hash p = Some h" by blast
  moreover have "d' = d\<lparr>db_users := db_users d @
      [\<lparr>us_id = fresh, us_email = m, us_hash = h, us_role = ''admin'', us_created = now\<rparr>]\<rparr>"
    using assms False by (simp add: seedAdmin_def h split: if_splits)
  ultimately show ?thesis by (rule created)
qed

lemma promote_keeps [simp]:
  "map us_id (promote m us) = map us_id us" "map us_email (promote m us) = map us_email us"
  by (simp_all add: promote_def)

lemma promote_role: "u \<in> set (promote m us) \<Longrightarrow> us_email u = m \<Longrightarrow> us_role u = ''admin''"
proof -
  assume u: "u \<in> set (promote m us)" and m: "us_email u = m"
  obtain v where v: "u = (if us_email v = m then v\<lparr>us_role := ''admin''\<rparr> else v)"
    using u unfolding promote_def set_map by (rule imageE)
  then have "us_email v = m" using m by (cases "us_email v = m") simp_all
  then show ?thesis unfolding v by simp
qed

lemma seeded_emails:
  assumes "seedAdmin hash fresh now m p d = Some d'"
  shows "us_email ` set (db_users d') = insert m (us_email ` set (db_users d))"
    and "u \<in> set (db_users d') \<Longrightarrow> us_email u = m \<Longrightarrow> us_role u = ''admin''"
proof -
  show "us_email ` set (db_users d') = insert m (us_email ` set (db_users d))"
    using assms
  proof (cases rule: seeded)
    case promoted
    have "us_email ` set (promote m (db_users d)) = us_email ` set (db_users d)"
      by (metis promote_keeps(2) set_map)
    then show ?thesis using promoted by (simp add: insert_absorb)
  qed simp
  show "us_role u = ''admin''" if "u \<in> set (db_users d')" "us_email u = m"
    using assms
  proof (cases rule: seeded)
    case promoted
    then show ?thesis using that promote_role by simp
  next
    case (created h)
    then have "u = \<lparr>us_id = fresh, us_email = m, us_hash = h, us_role = ''admin'', us_created = now\<rparr> \<or> u \<in> set (db_users d)"
      using that(1) by auto
    moreover have "u \<notin> set (db_users d)" using created(1) that(2) by auto
    ultimately have "u = \<lparr>us_id = fresh, us_email = m, us_hash = h, us_role = ''admin'', us_created = now\<rparr>" by blast
    then show ?thesis by (rule ssubst) simp
  qed
qed

lemma seeded_again:
  assumes "seedAdmin hash fresh now m p d = Some d'"
  shows "seedAdmin hash fresh2 now2 m p d' = Some d'"
proof -
  have "promote m (db_users d') = db_users d'"
    using seeded_emails(2) [OF assms] unfolding promote_def by (intro map_idI) auto
  moreover have "list_ex (\<lambda>u. us_email u = m) (db_users d')"
    using eqset_imp_iff [OF seeded_emails(1) [OF assms], of m] by (auto simp: list_ex_iff)
  ultimately show ?thesis by (simp add: seedAdmin_def promote_def)
qed

lemma seeded_tables:
  assumes "seedAdmin hash fresh now m p d = Some d'" and "tables_ok d"
  shows "tables_ok d'"
  using assms(1)
proof (cases rule: seeded)
  case promoted
  then show ?thesis using tables_ok_users [OF assms(2)] by simp
next
  case (created h)
  have "\<not> list_ex (\<lambda>v. us_email v = m) (db_users d)" using created(1) by (auto simp: list_ex_iff)
  then show ?thesis
    using tables_ok_user_add [OF assms(2),
        of "\<lparr>us_id = fresh, us_email = m, us_hash = h, us_role = ''admin'', us_created = now\<rparr>"]
    by (simp add: created(3))
qed

text \<open>C27: The seeded administrator.  A successful start of the API leaves an administrator with the
  configured address, keeps the tables well-formed, and another start changes no account.  If there was
  no such account and the address is in the normal form, the configured address and password sign in as
  an administrator; if the address is not in the normal form and nobody has the normalised one, no
  password signs in with it.\<close>

theorem seeded_admin:
  assumes "bcrypt_contract hash same" and "api_start hash fresh now e True c d = Inr (st, c', d')"
    and "tables_ok d" and "normal_email (admin_email e) \<noteq> []"
  shows "(\<exists>u \<in> set (db_users d'). us_email u = admin_email e \<and> us_role u = ''admin'') \<and> tables_ok d' \<and>
    seedAdmin hash fresh2 now2 (admin_email e) (admin_password e) d' = Some d' \<and>
    (admin_email e \<notin> us_email ` set (db_users d) \<longrightarrow> normal_email (admin_email e) = admin_email e \<longrightarrow>
       UsersApi.Login same sign (rq_body (call_request (login (admin_email e) (admin_password e)))) d' =
         (200, session_json sign fresh (admin_email e) ''admin'')) \<and>
    (normal_email (admin_email e) \<noteq> admin_email e \<longrightarrow> normal_email (admin_email e) \<notin> us_email ` set (db_users d) \<longrightarrow>
       pw \<noteq> [] \<longrightarrow>
       UsersApi.Login same sign (rq_body (call_request (login (admin_email e) pw))) d' = writeError 401 ''Invalid credentials'')"
proof -
  let ?m = "admin_email e" and ?p = "admin_password e"
  have seed: "seedAdmin hash fresh now ?m ?p d = Some d'"
    using assms(2) by (auto simp: api_start_def split: sum.splits option.splits)
  have p: "?p \<noteq> []" by (simp add: admin_password_def getenv_nonempty)
  have "\<exists>u \<in> set (db_users d'). us_email u = ?m \<and> us_role u = ''admin''"
    using seeded_emails [OF seed] by (metis imageE insertI1)
  moreover have "UsersApi.Login same sign (rq_body (call_request (login ?m ?p))) d' = (200, session_json sign fresh ?m ''admin'')"
    if new: "?m \<notin> us_email ` set (db_users d)" and normal: "normal_email ?m = ?m"
  proof -
    obtain h where h: "hash ?p = Some h"
      "d' = d\<lparr>db_users := db_users d @ [\<lparr>us_id = fresh, us_email = ?m, us_hash = h, us_role = ''admin'', us_created = now\<rparr>]\<rparr>"
      using seed new by (cases rule: seeded) simp_all
    have "find (\<lambda>u. us_email u = ?m) (db_users d) = None" using new by (auto simp: find_None_iff image_iff)
    then show ?thesis
      using login_accepted [of ?p ?m d' _ same sign] p normal assms(1,4) h by (simp add: find_append bcrypt_contract_def)
  qed
  moreover have "UsersApi.Login same sign (rq_body (call_request (login ?m pw))) d' = writeError 401 ''Invalid credentials''"
    if "normal_email ?m \<noteq> ?m" "normal_email ?m \<notin> us_email ` set (db_users d)" "pw \<noteq> []"
  proof -
    have "find (\<lambda>u. us_email u = normal_email ?m) (db_users d') = None"
      using eqset_imp_iff [OF seeded_emails(1) [OF seed], of "normal_email ?m"] that(1,2) by (auto simp: find_None_iff image_iff)
    then show ?thesis using that(3) assms(4) by (simp add: UsersApi.Login_def body_login Let_def)
  qed
  ultimately show ?thesis using seeded_again [OF seed] seeded_tables [OF seed assms(3)] by blast
qed

theorem seeded_admin_witness:
  "let d = \<lparr>db_users = [], db_jobs = [], db_execs = []\<rparr> :: db; sign = (\<lambda>c. cl_role c);
       sees = (\<lambda>e p r. case api_start Some ''1'' ''t'' e True no_tables d of Inl x \<Rightarrow> False
         | Inr (st, c, d') \<Rightarrow> UsersApi.Login (=) sign (rq_body (call_request (login (admin_email e) p))) d' = r)
   in sees Map.empty ''Skills39'' (200, session_json sign ''1'' ''admin@cronpilot.com'' ''admin'') \<and>
      sees [''ADMIN_EMAIL'' \<mapsto> ''Root@b.c''] ''Skills39'' (writeError 401 ''Invalid credentials'')"
proof -
  let ?d = "\<lparr>db_users = [], db_jobs = [], db_execs = []\<rparr> :: db" and ?sign = "\<lambda>c :: claims. cl_role c"
  let ?e = "[''ADMIN_EMAIL'' \<mapsto> ''Root@b.c''] :: env"
  let ?d1 = "\<lambda>m. ?d\<lparr>db_users := [\<lparr>us_id = ''1'', us_email = m, us_hash = ''Skills39'', us_role = ''admin'', us_created = ''t''\<rparr>]\<rparr>"
  have m: "admin_email Map.empty = ''admin@cronpilot.com''" "admin_email ?e = ''Root@b.c''"
    "admin_password Map.empty = ''Skills39''" "admin_password ?e = ''Skills39''"
    by (simp_all add: admin_email_def admin_password_def getenv_def)
  have n: "normal_email ''admin@cronpilot.com'' = ''admin@cronpilot.com''" "normal_email ''Root@b.c'' = ''root@b.c''"
    "varchar 255 ''admin@cronpilot.com''" "varchar 255 ''Root@b.c''" "varchar 255 ''Skills39''"
    by code_simp+
  have b: "bcrypt_contract Some (=)" by (simp add: bcrypt_contract_def)
  have t: "tables_ok ?d" by (simp add: tables_ok_def)
  have r: "api_start Some ''1'' ''t'' e True no_tables ?d = Inr (api_settings e, after Api no_tables, ?d1 (admin_email e))"
    if "e \<in> {Map.empty, ?e}" for e
    using that by (auto simp: api_start_def first_starts seedAdmin_def m n)
  have n1: "normal_email (admin_email Map.empty) \<noteq> []" "normal_email (admin_email ?e) \<noteq> []" by (simp_all add: m n)
  have r1: "api_start Some ''1'' ''t'' Map.empty True no_tables ?d =
      Inr (api_settings Map.empty, after Api no_tables, ?d1 (admin_email Map.empty))" by (rule r) simp
  have r2: "api_start Some ''1'' ''t'' ?e True no_tables ?d = Inr (api_settings ?e, after Api no_tables, ?d1 (admin_email ?e))"
    by (rule r) simp
  have "UsersApi.Login (=) ?sign (rq_body (call_request (login (admin_email Map.empty) ''Skills39''))) (?d1 (admin_email Map.empty)) =
      (200, session_json ?sign ''1'' ''admin@cronpilot.com'' ''admin'')"
    using seeded_admin [OF b r1 t n1(1), of "''2''" "''u''" ?sign "''x''"] by (simp add: m n)
  moreover have "UsersApi.Login (=) ?sign (rq_body (call_request (login (admin_email ?e) ''Skills39''))) (?d1 (admin_email ?e)) =
      writeError 401 ''Invalid credentials''"
    using seeded_admin [OF b r2 t n1(2), of "''2''" "''u''" ?sign "''Skills39''"] by (simp add: m n)
  ultimately show ?thesis by (simp add: Let_def r1 r2)
qed

end
