(* ===== verification/Server.thy ===== *)
theory Server
  imports Contract Isolation Startup
begin

text \<open>
  The API as one function: a request, as the client sends it, goes through the router and the middlewares
  of \<open>main.go\<close> to its handler, with the id of its path, the parameters of its query, its body and the claims
  of its token.  What a handler takes from outside the process at that moment (the clock, a fresh id, the
  hash, the state of the database connection) is gathered in \<open>world\<close>.
\<close>

section \<open>The query of a URL\<close>

text \<open>\<open>url.QueryUnescape\<close>: a percent sign that no two hexadecimal digits follow is an
  error.\<close>

definition hex_digit :: "char \<Rightarrow> nat option" where
  "hex_digit c = (let k = of_char c :: nat in
     if 48 \<le> k \<and> k \<le> 57 then Some (k - 48)
     else if 65 \<le> k \<and> k \<le> 70 then Some (k - 55)
     else if 97 \<le> k \<and> k \<le> 102 then Some (k - 87)
     else None)"

fun query_unescape :: "string \<Rightarrow> string option" where
  "query_unescape [] = Some []"
| "query_unescape (c # cs) =
     (if c = CHR ''%'' then
        (case cs of
           a # b # ds \<Rightarrow>
             (case (hex_digit a, hex_digit b) of
                (Some x, Some y) \<Rightarrow> map_option (\<lambda>t. char_of (16 * x + y) # t) (query_unescape ds)
              | _ \<Rightarrow> None)
         | _ \<Rightarrow> None)
      else map_option (\<lambda>t. (if c = CHR ''+'' then CHR '' '' else c) # t) (query_unescape cs))"

fun split_at :: "char \<Rightarrow> string \<Rightarrow> string list" where
  "split_at sep [] = [[]]"
| "split_at sep (c # cs) =
     (if c = sep then [] # split_at sep cs
      else case split_at sep cs of [] \<Rightarrow> [[c]] | w # ws \<Rightarrow> (c # w) # ws)"

text \<open>\<open>r.URL.Query\<close>: a part that is empty, has a semicolon or does not unescape is dropped.\<close>

definition query_pair :: "string \<Rightarrow> (string \<times> string) option" where
  "query_pair part =
     (if part = [] \<or> CHR '';'' \<in> set part then None
      else (let key = takeWhile (\<lambda>c. c \<noteq> CHR ''='') part; rest = drop (Suc (length key)) part in
        (case (query_unescape key, query_unescape rest) of
           (Some k, Some v) \<Rightarrow> Some (k, v)
         | _ \<Rightarrow> None)))"

definition parse_query :: "string \<Rightarrow> (string \<times> string) list" where
  "parse_query q = List.map_filter query_pair (split_at (CHR ''&'') q)"

definition url_query :: "string \<Rightarrow> string" where
  "url_query u = drop 1 (dropWhile (\<lambda>c. c \<noteq> CHR ''?'') u)"

text \<open>\<open>Get\<close>: the first value of a key, the empty string without one. The parameters given
  to axios follow those that stand in the URL.\<close>

definition request_query :: "request \<Rightarrow> string \<Rightarrow> string" where
  "request_query r k =
     (case map_of (parse_query (url_query (rq_url r)) @ map (\<lambda>(k, v). (k, js_text v)) (rq_params r)) k of
        None \<Rightarrow> [] | Some v \<Rightarrow> v)"

section \<open>The parameter of a path\<close>

fun bindings :: "seg list \<Rightarrow> string list \<Rightarrow> (string \<times> string) list" where
  "bindings (Param x # ps) (s # ss) = (x, s) # bindings ps ss"
| "bindings (Lit a # ps) (s # ss) = bindings ps ss"
| "bindings _ _ = []"

definition url_param :: "(guard \<times> handler) picker \<Rightarrow> request \<Rightarrow> string \<Rightarrow> string" where
  "url_param pick r x =
     (let path = path_segments (url_path (rq_url r)) in
      case pick (method_table (rq_method r)) path of
        None \<Rightarrow> []
      | Some (pat, _) \<Rightarrow> (case map_of (bindings pat path) x of None \<Rightarrow> [] | Some s \<Rightarrow> s))"

section \<open>Handlers\<close>

record world =
  wd_alive :: bool
  wd_fresh :: string
  wd_now :: string
  wd_dberr :: string
  wd_hash :: "string \<Rightarrow> string option"
  wd_same :: "string \<Rightarrow> string \<Rightarrow> bool"
  wd_sign :: "claims \<Rightarrow> string"
  wd_uuid :: "string \<Rightarrow> string option"
  wd_recent :: "int \<Rightarrow> execution \<Rightarrow> bool"
  wd_date_back :: "nat \<Rightarrow> string"
  wd_rfc :: "string \<Rightarrow> string"
  wd_cast :: "string \<Rightarrow> string"

text \<open>An id of a request, cast where it stands in a statement: \<open>wd_uuid\<close> is the
  database's reading of the text, as the canonical text again. A text that is no UUID makes the statement
  fail, and every handler but \<open>AdminUpdateUser\<close> (which counts first) treats that like an id
  that no row has: it stands for itself.\<close>

definition cast_id :: "world \<Rightarrow> string \<Rightarrow> string" where
  "cast_id wd s = (case wd_uuid wd s of None \<Rightarrow> s | Some i \<Rightarrow> i)"

text \<open>A job id in a query: an absent one selects all jobs.\<close>

definition job_filter :: "world \<Rightarrow> string \<Rightarrow> string" where
  "job_filter wd s = (if s = [] then [] else cast_id wd s)"

text \<open>\<open>serve\<close> is what a handler does for the user of the token; the id of the path is
  cast where it stands in a statement.\<close>

definition for_user :: "world \<Rightarrow> string \<Rightarrow> user_request \<Rightarrow> db \<Rightarrow> db \<times> answer" where
  "for_user wd = serve (wd_hash wd) (wd_same wd)"

fun handle ::
    "world \<Rightarrow> handler \<Rightarrow> string \<Rightarrow> string \<Rightarrow> (string \<Rightarrow> string) \<Rightarrow> jsval option \<Rightarrow> db \<Rightarrow> db \<times> answer" where
  "handle wd ToHealth uid i q body d = (d, Reply (Health (wd_alive wd)))"
| "handle wd ToRegister uid i q body d =
     apsnd Reply (UsersApi.Register (wd_hash wd) (wd_sign wd) (wd_fresh wd) (wd_now wd) body d)"
| "handle wd ToLogin uid i q body d = (d, Reply (UsersApi.Login (wd_same wd) (wd_sign wd) body d))"
| "handle wd ToListJobs uid i q body d = for_user wd uid DoListJobs d"
| "handle wd ToCreateJob uid i q body d =
     for_user wd uid (DoCreateJob (wd_fresh wd) (wd_now wd) (wd_dberr wd) body) d"
| "handle wd ToGetJob uid i q body d = for_user wd uid (DoGetJob (cast_id wd i)) d"
| "handle wd ToUpdateJob uid i q body d = for_user wd uid (DoUpdateJob (wd_now wd) (cast_id wd i) body) d"
| "handle wd ToDeleteJob uid i q body d = for_user wd uid (DoDeleteJob (cast_id wd i)) d"
| "handle wd ToPauseJob uid i q body d = for_user wd uid (DoPauseJob (wd_now wd) (cast_id wd i)) d"
| "handle wd ToResumeJob uid i q body d = for_user wd uid (DoResumeJob (wd_now wd) (cast_id wd i)) d"
| "handle wd ToTriggerJob uid i q body d = for_user wd uid (DoTriggerJob (cast_id wd i)) d"
| "handle wd ToChangePassword uid i q body d = for_user wd uid (DoChangePassword body) d"
| "handle wd ToReportSummary uid i q body d = for_user wd uid DoReportSummary d"
| "handle wd ToReportTimeline uid i q body d =
     for_user wd uid (DoReportTimeline (wd_recent wd (int (timeline_days (q ''days'')))) (wd_date_back wd) (q ''days'')) d"
| "handle wd ToReportJobs uid i q body d = for_user wd uid DoReportJobs d"
| "handle wd ToReportCSV uid i q body d =
     for_user wd uid (DoReportCSV (wd_recent wd) (wd_rfc wd) (wd_cast wd) (q ''days'') (job_filter wd (q ''job_id''))) d"
| "handle wd ToListExecutions uid i q body d =
     for_user wd uid (DoListExecutions (job_filter wd (q ''job_id'')) (q ''limit'') (q ''offset'')) d"
| "handle wd ToListRunningExecutions uid i q body d = for_user wd uid DoListRunning d"
| "handle wd ToGetExecution uid i q body d = for_user wd uid (DoGetExecution (cast_id wd i)) d"
| "handle wd ToAdminListUsers uid i q body d = (d, Reply (AdminListUsers d))"
| "handle wd ToAdminCreateUser uid i q body d =
     apsnd Reply (AdminCreateUser (wd_hash wd) (wd_fresh wd) (wd_now wd) body d)"
| "handle wd ToAdminUpdateUser uid i q body d = apsnd Reply (AdminUpdateUser (wd_hash wd) (wd_uuid wd i) body d)"
| "handle wd ToAdminDeleteUser uid i q body d = apsnd Reply (AdminDeleteUser (cast_id wd) uid i d)"
| "handle wd ToAdminListJobs uid i q body d = (d, Reply (AdminListJobs d))"
| "handle wd ToAdminCreateJob uid i q body d =
     apsnd Reply (AdminCreateJob (wd_fresh wd) (wd_now wd) (wd_dberr wd) body d)"
| "handle wd ToAdminUpdateJob uid i q body d = apsnd Reply (AdminUpdateJob (wd_now wd) (cast_id wd i) body d)"
| "handle wd ToAdminDeleteJob uid i q body d = apsnd Reply (AdminDeleteJob (cast_id wd i) d)"
| "handle wd ToAdminPauseJob uid i q body d = apsnd Reply (AdminPauseJob (wd_now wd) (cast_id wd i) d)"
| "handle wd ToAdminResumeJob uid i q body d = apsnd Reply (AdminResumeJob (wd_now wd) (cast_id wd i) d)"
| "handle wd ToAdminTriggerJob uid i q body d =
     (case AdminTriggerJob (cast_id wd i) d of (reply, started) \<Rightarrow> (d, Started reply started))"

section \<open>The API\<close>

text \<open>\<open>h.claims(r).UserID\<close>; a public handler does not ask for it.\<close>

definition claimed :: "claims option \<Rightarrow> string" where
  "claimed c = (case c of None \<Rightarrow> [] | Some k \<Rightarrow> cl_user k)"

text \<open>\<open>None\<close> is the answer of chi itself, to a path or method without a route.\<close>

definition api ::
    "(guard \<times> handler) picker \<Rightarrow> (string \<Rightarrow> claims option) \<Rightarrow> world \<Rightarrow> request \<Rightarrow> db \<Rightarrow> (db \<times> answer) option" where
  "api pick verify wd r d =
     (case admit pick verify r of
        NotRouted \<Rightarrow> None
      | Refusal reply \<Rightarrow> Some (d, Reply reply)
      | Admitted h c \<Rightarrow> Some (handle wd h (claimed c) (url_param pick r ''id'') (request_query r) (rq_body r) d))"

section \<open>What the browser encodes the server decodes\<close>

lemma hex_digit_upper: "d < 16 \<Longrightarrow> hex_digit (hex_upper d) = Some d"
  by (auto simp: numeral_eq_Suc less_Suc_eq hex_digit_def hex_upper_def)

lemma unescape_encoded_char:
  "query_unescape (form_encode_char c @ t) = map_option (\<lambda>s. c # s) (query_unescape t)"
proof -
  let ?k = "of_char c :: nat"
  have hex: "?k div 16 < 16" "?k mod 16 < 16" using nat_of_char_less_256 [of c] by (simp_all add: less_mult_imp_div_less)
  have c: "char_of (16 * (?k div 16) + ?k mod 16) = c" by simp
  have "form_encode_char c = [c] \<and> c \<noteq> CHR ''%'' \<and> c \<noteq> CHR ''+'' \<or> form_encode_char c = ''+'' \<and> ?k = of_char (CHR '' '')
      \<or> form_encode_char c = [CHR ''%'', hex_upper (?k div 16), hex_upper (?k mod 16)]"
    by (auto simp: form_encode_char_def Let_def)
  then consider "form_encode_char c = [c]" "c \<noteq> CHR ''%''" "c \<noteq> CHR ''+''"
    | "form_encode_char c = ''+''" "c = CHR '' ''"
    | "form_encode_char c = [CHR ''%'', hex_upper (?k div 16), hex_upper (?k mod 16)]"
    unfolding of_char_eq_iff by blast
  then show ?thesis
    by cases (simp_all add: hex_digit_upper [OF hex(1)] hex_digit_upper [OF hex(2)] c)
qed

lemma unescape_encoded: "query_unescape (form_encode s) = Some s"
  by (induction s) (simp_all add: form_encode_def unescape_encoded_char)

lemma encoded_plain:
  assumes "c \<in> {CHR ''&'', CHR '';'', CHR ''='', CHR ''?'', CHR ''#''}"
  shows "c \<notin> set (form_encode s)"
proof -
  have upper: "hex_upper d \<noteq> c" if "d < 16" for d
    using that assms by (auto simp: numeral_eq_Suc less_Suc_eq hex_upper_def)
  have "c \<notin> set (form_encode_char b)" for b
    using assms upper [of "of_char b div 16"] upper [of "of_char b mod 16"] nat_of_char_less_256 [of b]
    by (auto simp: form_encode_char_def Let_def less_mult_imp_div_less)
  then show ?thesis by (simp add: form_encode_def)
qed

lemma split_at_piece: "sep \<notin> set w \<Longrightarrow> split_at sep w = [w]"
  by (induction w) auto

lemma split_at_append: "sep \<notin> set w \<Longrightarrow> split_at sep (w @ sep # rest) = w # split_at sep rest"
  by (induction w) auto

lemma split_at_join:
  "ws \<noteq> [] \<Longrightarrow> list_all (\<lambda>w. sep \<notin> set w) ws \<Longrightarrow> split_at sep (join_with [sep] ws) = ws"
proof (induction ws rule: induct_list012)
  case (3 w v ws)
  then show ?case using split_at_append [of sep w "join_with [sep] (v # ws)"] by (simp add: join_with_def)
qed (simp_all add: join_with_def split_at_piece)

lemma query_pair_encoded: "query_pair (form_encode k @ ''='' @ form_encode v) = Some (k, v)"
proof -
  have "takeWhile (\<lambda>c. c \<noteq> CHR ''='') (form_encode k @ CHR ''='' # form_encode v) = form_encode k"
    using encoded_plain [of "CHR ''=''" k] by (subst takeWhile_append2) auto
  then show ?thesis
    using encoded_plain [of "CHR '';''"] by (simp add: query_pair_def Let_def unescape_encoded)
qed

theorem query_round_trip: "parse_query (search_params ps) = ps"
proof (cases "ps = []")
  case False
  let ?parts = "map (\<lambda>(k, v). form_encode k @ ''='' @ form_encode v) ps"
  have "list_all (\<lambda>w. CHR ''&'' \<notin> set w) ?parts"
    using encoded_plain [of "CHR ''&''"] by (auto simp: list_all_iff)
  then have "split_at (CHR ''&'') (search_params ps) = ?parts"
    using False by (simp add: search_params_def split_at_join)
  moreover have "List.map_filter query_pair ?parts = ps"
    using query_pair_encoded by (induction ps) (auto simp: map_filter_simps)
  ultimately show ?thesis by (simp add: parse_query_def)
qed (simp add: parse_query_def search_params_def join_with_def query_pair_def map_filter_simps)

section \<open>Arguments of the front end's calls\<close>

lemma handlers_distinct: "distinct (map (\<lambda>(p, g, h). h) (method_table m))"
  by (cases m) (simp_all add: tables)

text \<open>A handler has one pattern per method, so the handler a request reaches tells its pattern.\<close>

definition pattern_of :: "http_method \<Rightarrow> handler \<Rightarrow> seg list" where
  "pattern_of m h = (case find (\<lambda>(p, g, h'). h' = h) (method_table m) of None \<Rightarrow> [] | Some (p, _) \<Rightarrow> p)"

lemma find_distinct:
  "distinct (map f xs) \<Longrightarrow> x \<in> set xs \<Longrightarrow> find (\<lambda>y. f y = f x) xs = Some x"
  by (induction xs) (auto simp: rev_image_eqI)

lemma pattern_of_entry: "(p, g, h) \<in> set (method_table m) \<Longrightarrow> pattern_of m h = p"
  using find_distinct [OF handlers_distinct, of "(p, g, h)"] by (simp add: pattern_of_def case_prod_beta')

lemma url_param_dispatch:
  assumes "chi_contract pick"
  shows "url_param pick r x =
    (case dispatch pick r of
       None \<Rightarrow> []
     | Some (g, h) \<Rightarrow>
         (case map_of (bindings (pattern_of (rq_method r) h) (path_segments (url_path (rq_url r)))) x of
            None \<Rightarrow> [] | Some s \<Rightarrow> s))"
proof (cases "pick (method_table (rq_method r)) (path_segments (url_path (rq_url r)))")
  case (Some e)
  obtain p g h where e: "e = (p, g, h)" by (cases e)
  have "e \<in> set (method_table (rq_method r))"
    using assms Some unfolding chi_contract_def by (metis (no_types, lifting) option.simps(5))
  then show ?thesis using Some pattern_of_entry by (simp add: url_param_def dispatch_def e)
qed (simp add: url_param_def dispatch_def)

lemma url_param_intercept [simp]: "url_param pick (intercept st r) x = url_param pick r x"
  by (simp add: url_param_def)

lemma request_query_intercept [simp]: "request_query (intercept st r) = request_query r"
  by (simp add: request_query_def fun_eq_iff)

lemma api_session:
  assumes "session b" and "isAuthenticated (auth b)" and "verify (js_text (token (auth b))) = Some c"
    and "rq_headers r = client_headers"
  shows "api pick verify wd (intercept (local_storage b) r) d =
    (case dispatch pick r of
       None \<Rightarrow> None
     | Some (g, h) \<Rightarrow>
         if g = Administrator \<and> cl_role c \<noteq> ''admin'' then Some (d, Reply (writeError 403 ''Forbidden''))
         else Some (handle wd h (if g = Public then [] else cl_user c) (url_param pick r ''id'') (request_query r)
                (rq_body r) d))"
proof (cases "dispatch pick r")
  case None
  then show ?thesis by (simp add: api_def admit_def)
next
  case (Some gh)
  then obtain g h where gh: "dispatch pick r = Some (g, h)" by (cases gh) simp
  show ?thesis using assms(2,3) by (simp add: api_def admit_session [OF assms(1,4) gh] gh claimed_def)
qed

lemma url_query_append: "CHR ''?'' \<notin> set p \<Longrightarrow> url_query (p @ CHR ''?'' # q) = q"
  unfolding url_query_def by (subst dropWhile_append2) auto

lemma url_query_none: "CHR ''?'' \<notin> set p \<Longrightarrow> url_query p = []"
  unfolding url_query_def by (subst dropWhile_eq_Nil_conv [THEN iffD2]) auto

lemma parse_query_empty [simp]: "parse_query [] = []"
  using query_round_trip [of "[]"] by (simp add: search_params_def join_with_def)

lemma query_of_calls:
  "request_query (call_request (getExecutions j l)) ''job_id'' = (case j of None \<Rightarrow> [] | Some i \<Rightarrow> i)"
  "request_query (call_request (getExecutions j l)) ''limit'' = nat_string (case l of None \<Rightarrow> 50 | Some n \<Rightarrow> n)"
  "request_query (call_request (getExecutions j l)) ''offset'' = []"
  "request_query (call_request (getReportTimeline n)) ''days'' = nat_string (case n of None \<Rightarrow> 30 | Some k \<Rightarrow> k)"
  by (simp_all add: request_query_def request_defs url_query_none int_string_def split: option.split)

lemma query_of_csv:
  "request_query (downloadCsv_request j n) ''days'' = nat_string (case n of None \<Rightarrow> 30 | Some k \<Rightarrow> k)"
  "request_query (downloadCsv_request j n) ''job_id'' = (case j of None \<Rightarrow> [] | Some i \<Rightarrow> i)"
proof -
  have "parse_query (url_query (rq_url (downloadCsv_request j n))) =
      (let params = [(''days'', nat_string (case n of None \<Rightarrow> 30 | Some k \<Rightarrow> k))] in
       case j of None \<Rightarrow> params | Some i \<Rightarrow> if i = [] then params else put params ''job_id'' i)"
    using url_query_append [of "''/api/report/executions.csv''"] query_round_trip
    by (simp add: downloadCsv_request_def client_def base_url_def Let_def)
  then show "request_query (downloadCsv_request j n) ''days'' = nat_string (case n of None \<Rightarrow> 30 | Some k \<Rightarrow> k)"
    "request_query (downloadCsv_request j n) ''job_id'' = (case j of None \<Rightarrow> [] | Some i \<Rightarrow> i)"
    by (simp_all add: request_query_def Let_def downloadCsv_request_def client_def split: option.split)
qed

lemma params_of_calls:
  assumes "chi_contract pick" and "url_id i"
  shows
    "url_param pick (call_request (getJob i)) ''id'' = i"
    "url_param pick (call_request (updateJob i x)) ''id'' = i"
    "url_param pick (call_request (deleteJob i)) ''id'' = i"
    "url_param pick (call_request (pauseJob i)) ''id'' = i"
    "url_param pick (call_request (resumeJob i)) ''id'' = i"
    "url_param pick (call_request (triggerJob i)) ''id'' = i"
    "url_param pick (call_request (getExecution i)) ''id'' = i"
    "url_param pick (call_request (admin_updateUser i x)) ''id'' = i"
    "url_param pick (call_request (admin_deleteUser i)) ''id'' = i"
    "url_param pick (call_request (admin_updateJob i x)) ''id'' = i"
    "url_param pick (call_request (admin_deleteJob i)) ''id'' = i"
    "url_param pick (call_request (admin_pauseJob i)) ''id'' = i"
    "url_param pick (call_request (admin_resumeJob i)) ''id'' = i"
    "url_param pick (call_request (admin_triggerJob i)) ''id'' = i"
  using id_segments [OF assms(2)]
  by (simp_all add: url_param_dispatch [OF assms(1)] dispatch_by_id [OF assms])
    (simp_all add: request_defs pattern_of_def tables)

lemma cast_id_known: "wd_uuid wd i = Some i \<Longrightarrow> cast_id wd i = i"
  by (simp add: cast_id_def)

section \<open>Properties\<close>

text \<open>C3: From the call to the handler and back.  For a signed-in session whose token the server verifies,
  every function of the API layer runs its handler with what the page passed to it: the id of the path, the
  parameters of the query (also through the encoding of the CSV link), the body, and the user of the token;
  the calls of the administration pages are refused without the role.\<close>

theorem calls_reach_handlers:
  assumes "chi_contract pick" and "url_id i" and "wd_uuid wd i = Some i" and "session b" and "isAuthenticated (auth b)"
    and "verify (js_text (token (auth b))) = Some c"
  shows "let run = (\<lambda>r. api pick verify wd (intercept (local_storage b) r) d);
      mine = (\<lambda>x. Some (for_user wd (cl_user c) x d));
      admins = (\<lambda>x. if cl_role c = ''admin'' then Some x else Some (d, Reply (writeError 403 ''Forbidden'')));
      days = nat_string (case n of None \<Rightarrow> 30 | Some k \<Rightarrow> k);
      which = job_filter wd (case j of None \<Rightarrow> [] | Some k \<Rightarrow> k)
    in list_all (\<lambda>(call, result). run (call_request call) = result)
      [(login e p, Some (d, Reply (UsersApi.Login (wd_same wd) (wd_sign wd) (rq_body (call_request (login e p))) d))),
       (register e p, Some (apsnd Reply (UsersApi.Register (wd_hash wd) (wd_sign wd) (wd_fresh wd) (wd_now wd)
          (rq_body (call_request (register e p))) d))),
       (changePassword p q, mine (DoChangePassword (rq_body (call_request (changePassword p q))))),
       (getJobs, mine DoListJobs),
       (getJob i, mine (DoGetJob i)),
       (createJob x, mine (DoCreateJob (wd_fresh wd) (wd_now wd) (wd_dberr wd) (Some x))),
       (updateJob i x, mine (DoUpdateJob (wd_now wd) i (Some x))),
       (deleteJob i, mine (DoDeleteJob i)),
       (pauseJob i, mine (DoPauseJob (wd_now wd) i)),
       (resumeJob i, mine (DoResumeJob (wd_now wd) i)),
       (triggerJob i, mine (DoTriggerJob i)),
       (getExecutions j l, mine (DoListExecutions which (nat_string (case l of None \<Rightarrow> 50 | Some k \<Rightarrow> k)) [])),
       (getRunningExecutions, mine DoListRunning),
       (getExecution i, mine (DoGetExecution i)),
       (getReportSummary, mine DoReportSummary),
       (getReportTimeline n, mine (DoReportTimeline (wd_recent wd (int (timeline_days days))) (wd_date_back wd) days)),
       (getReportJobs, mine DoReportJobs),
       (admin_getUsers, admins (d, Reply (AdminListUsers d))),
       (admin_createUser x, admins (apsnd Reply (AdminCreateUser (wd_hash wd) (wd_fresh wd) (wd_now wd) (Some x) d))),
       (admin_updateUser i x, admins (apsnd Reply (AdminUpdateUser (wd_hash wd) (Some i) (Some x) d))),
       (admin_deleteUser i, admins (apsnd Reply (AdminDeleteUser (cast_id wd) (cl_user c) i d))),
       (admin_getAllJobs, admins (d, Reply (AdminListJobs d))),
       (admin_createJob x, admins (apsnd Reply (AdminCreateJob (wd_fresh wd) (wd_now wd) (wd_dberr wd) (Some x) d))),
       (admin_updateJob i x, admins (apsnd Reply (AdminUpdateJob (wd_now wd) i (Some x) d))),
       (admin_deleteJob i, admins (apsnd Reply (AdminDeleteJob i d))),
       (admin_pauseJob i, admins (apsnd Reply (AdminPauseJob (wd_now wd) i d))),
       (admin_resumeJob i, admins (apsnd Reply (AdminResumeJob (wd_now wd) i d))),
       (admin_triggerJob i, admins (case AdminTriggerJob i d of (reply, started) \<Rightarrow> (d, Started reply started)))] \<and>
     run (downloadCsv_request j n) = mine (DoReportCSV (wd_recent wd) (wd_rfc wd) (wd_cast wd) days which)"
proof -
  note run = api_session [where verify = verify and wd = wd and d = d, OF assms(4-6)]
  note args = dispatch_fixed [OF assms(1)] dispatch_by_id [OF assms(1,2)] params_of_calls [OF assms(1,2)]
    query_of_calls query_of_csv assms(3) cast_id_known [of wd, OF assms(3)]
  show ?thesis
    by (simp only: Let_def list.pred_inject prod.case simp_thms)
      (intro conjI; (rule trans [OF run], simp add: request_defs, simp add: args, (simp add: request_defs)?))
qed

definition sample_world :: world where
  "sample_world =
     \<lparr>wd_alive = True, wd_fresh = ''9'', wd_now = ''2024-05-03T10:00:00Z'', wd_dberr = ''error'',
      wd_hash = Some, wd_same = (=), wd_sign = cl_user, wd_uuid = Some, wd_recent = (\<lambda>n e. True),
      wd_date_back = (\<lambda>k. ''2024-05-03''), wd_rfc = id, wd_cast = id\<rparr>"

theorem calls_reach_handlers_witness:
  "let b = setAuth (JStr ''tok'') JNull \<lparr>local_storage = Map.empty, auth = init_auth Map.empty\<rparr>;
       c = \<lparr>cl_user = ''1'', cl_email = ''a@b.c'', cl_role = ''user''\<rparr>;
       verify = (\<lambda>t. if t = ''tok'' then Some c else None);
       run = (\<lambda>r. api chi_like verify sample_world (intercept (local_storage b) r) sample_db)
   in run (call_request (deleteJob ''7'')) = Some (sample_db\<lparr>db_jobs := [], db_execs := []\<rparr>, Reply (204, JUndef)) \<and>
      run (call_request admin_getUsers) = Some (sample_db, Reply (writeError 403 ''Forbidden''))"
proof -
  let ?b = "setAuth (JStr ''tok'') JNull \<lparr>local_storage = Map.empty, auth = init_auth Map.empty\<rparr>"
  let ?c = "\<lparr>cl_user = ''1'', cl_email = ''a@b.c'', cl_role = ''user''\<rparr>"
  have s: "session ?b" by (intro session.logged_in session.load) simp
  have a: "isAuthenticated (auth ?b)" by (simp add: isAuthenticated_def)
  have i: "url_id ''7''" by (simp add: url_id_def segment_def)
  have u: "wd_uuid sample_world ''7'' = Some ''7''" by (simp add: sample_world_def)
  have v: "(\<lambda>t. if t = ''tok'' then Some ?c else None) (js_text (token (auth ?b))) = Some ?c" by simp
  have "for_user sample_world ''1'' (DoDeleteJob ''7'') sample_db =
      (sample_db\<lparr>db_jobs := [], db_execs := []\<rparr>, Reply (204, JUndef))"
    by (simp add: for_user_def DeleteJob_def owned_job_def remove_job_def sample_db_def)
  then show ?thesis
    using calls_reach_handlers [where verify = "\<lambda>t. if t = ''tok'' then Some ?c else None" and d = sample_db,
      OF chi_like_contract i u s a v]
    by (simp add: Let_def)
qed

text \<open>What a request of a user without the role gives is what \<open>serve\<close> gives this user.\<close>

lemma handle_for_user:
  assumes "(m, p, h) \<in> set auth_routes"
  shows "\<exists>x. (\<forall>d. handle wd h uid i q body d = for_user wd uid x d) \<and>
    (\<forall>d. wd_fresh wd \<notin> jb_id ` set (db_jobs d) \<longrightarrow> fresh_ok x d)"
  using assms by (auto simp: auth_routes_def; (intro exI conjI allI, rule refl, simp))

lemma dispatch_guard:
  assumes "chi_contract pick" and "dispatch pick r = Some (g, h)"
  shows "case g of
      Public \<Rightarrow> h \<in> {ToHealth, ToRegister, ToLogin}
    | Authenticated \<Rightarrow> \<exists>m p. (m, p, h) \<in> set auth_routes
    | Administrator \<Rightarrow> True"
proof -
  obtain p where "pick (method_table (rq_method r)) (path_segments (url_path (rq_url r))) = Some (p, g, h)"
    using assms(2) by (auto simp: dispatch_def)
  then have "(p, g, h) \<in> set (method_table (rq_method r))"
    using assms(1) unfolding chi_contract_def by (metis (no_types, lifting) option.simps(5))
  then obtain m' p' where "(m', p', g, h) \<in> set api_routes" by (auto simp: method_table_def)
  then show ?thesis by (cases g) (auto simp: api_routes_def public_routes_def)
qed

lemma view_new_users:
  "list_all (\<lambda>a. us_id a \<noteq> u) us \<Longrightarrow> view u (d\<lparr>db_users := db_users d @ us\<rparr>) = view u d"
  by (simp add: view_def user_execs_def filter_empty_conv list_all_iff)

text \<open>What a public route may do to the database: nothing, or add one account with a new id and the
  role \<open>user\<close>.\<close>

definition adds_account :: "world \<Rightarrow> db \<Rightarrow> db \<Rightarrow> bool" where
  "adds_account wd d d' \<longleftrightarrow>
     (\<exists>us. d' = d\<lparr>db_users := db_users d @ us\<rparr> \<and> length us \<le> 1 \<and>
        list_all (\<lambda>a. us_id a = wd_fresh wd \<and> us_role a = ''user'') us)"

lemma adds_none: "adds_account wd d d"
  unfolding adds_account_def by (rule exI [of _ "[]"]) simp

lemma adds_one:
  "us_id a = wd_fresh wd \<Longrightarrow> us_role a = ''user'' \<Longrightarrow> adds_account wd d (d\<lparr>db_users := db_users d @ [a]\<rparr>)"
  unfolding adds_account_def by (rule exI [of _ "[a]"]) simp

lemma public_adds_account:
  "h \<in> {ToHealth, ToRegister, ToLogin} \<Longrightarrow> adds_account wd d (fst (handle wd h uid i q body d))"
  by (auto simp: UsersApi.Register_def Let_def adds_none intro!: adds_one split: option.split)

lemma adds_account_view:
  assumes "adds_account wd d d'" and "wd_fresh wd \<noteq> u"
  shows "view u d' = view u d"
  using assms view_new_users [of u] by (auto simp: adds_account_def list_all_iff)

text \<open>C2: No request crosses the users.  Whatever its method, path, query, body and headers are, a request
  without an administrator's token leaves the account, the jobs and the executions of every user but the
  token's as they are.  On a route that is not public it is answered as on a database with the rows of the
  token's user alone, or refused without any effect; a public route (health, registration, login), whose
  answer does depend on the accounts of others, changes no row and adds at most one account, with the role
  \<open>user\<close>.\<close>

theorem requests_stay_with_user:
  assumes "chi_contract pick" and "db_ok d" and "wd_fresh wd \<notin> insert u (jb_id ` set (db_jobs d))"
    and "api pick verify wd r d = Some (d', v)" and "dispatch pick r = Some (g, h)"
    and "RequireAuth verify (rq_headers r) \<notin> Inr ` {c. cl_role c = ''admin''}"
  shows "(RequireAuth verify (rq_headers r) \<notin> Inr ` {c. cl_user c = u} \<longrightarrow> view u d' = view u d) \<and>
    (if g = Public
     then adds_account wd d d'
     else case RequireAuth verify (rq_headers r) of
       Inl refusal \<Rightarrow> d' = d \<and> v = Reply refusal
     | Inr c \<Rightarrow> api pick verify wd r (view (cl_user c) d) = Some (view (cl_user c) d', v))"
proof (cases "g = Public")
  case True
  then have h: "h \<in> {ToHealth, ToRegister, ToLogin}" using dispatch_guard [OF assms(1,5)] by simp
  have "d' = fst (handle wd h [] (url_param pick r ''id'') (request_query r) (rq_body r) d)"
    using assms(4,5) True by (auto simp: api_def admit_def claimed_def)
  then have "adds_account wd d d'" using public_adds_account [OF h] by simp
  then show ?thesis using True adds_account_view [of wd d d' u] assms(3) by simp
next
  case False
  show ?thesis
  proof (cases "RequireAuth verify (rq_headers r)")
    case (Inl refusal)
    then have "d' = d \<and> v = Reply refusal" using assms(4,5) False by (cases g) (auto simp: api_def admit_def)
    then show ?thesis using Inl False by simp
  next
    case (Inr c)
    then have role: "cl_role c \<noteq> ''admin''" using assms(6) by auto
    show ?thesis
    proof (cases "g = Administrator")
      case True
      then show ?thesis using assms(4,5) Inr role by (auto simp: api_def admit_def RequireAdmin_def)
    next
      case other: False
      then have g: "g = Authenticated" using False by (cases g) auto
      obtain m p where "(m, p, h) \<in> set auth_routes" using dispatch_guard [OF assms(1,5)] g by auto
      from handle_for_user [OF this] obtain x where
        x: "\<And>d. handle wd h (cl_user c) (url_param pick r ''id'') (request_query r) (rq_body r) d = for_user wd (cl_user c) x d"
        and fresh: "fresh_ok x d" using assms(3) by blast
      have run: "api pick verify wd r d = Some (for_user wd (cl_user c) x d)" for d
        using assms(5) Inr g by (simp add: api_def admit_def claimed_def x)
      have "view u d' = view u d" if "cl_user c \<noteq> u"
        using serve_other [OF assms(2) that] run [of d] assms(4) by (simp add: for_user_def) (metis fst_conv)
      moreover have "api pick verify wd r (view (cl_user c) d) = Some (view (cl_user c) d', v)"
        using serve_own [OF assms(2) fresh] run assms(4) by (simp add: for_user_def)
      ultimately show ?thesis using Inr False by auto
    qed
  qed
qed

theorem requests_stay_with_user_witness:
  "let verify = (\<lambda>t. if t = ''tok'' then Some \<lparr>cl_user = ''2'', cl_email = ''b@b.c'', cl_role = ''user''\<rparr> else None);
       r = (call_request (deleteJob ''7''))\<lparr>rq_headers := [(''Authorization'', ''Bearer tok'')]\<rparr>
   in (case api chi_like verify sample_world r sample_db of
         None \<Rightarrow> False | Some (d, v) \<Rightarrow> view ''1'' d = view ''1'' sample_db)"
proof -
  let ?c = "\<lparr>cl_user = ''2'', cl_email = ''b@b.c'', cl_role = ''user''\<rparr>"
  let ?verify = "\<lambda>t. if t = ''tok'' then Some ?c else None"
  let ?r = "(call_request (deleteJob ''7''))\<lparr>rq_headers := [(''Authorization'', ''Bearer tok'')]\<rparr>"
  have i: "url_id ''7''" by (simp add: url_id_def segment_def)
  have "dispatch chi_like ?r = dispatch chi_like (call_request (deleteJob ''7''))" by (simp add: dispatch_def)
  then have d: "dispatch chi_like ?r = Some (Authenticated, ToDeleteJob)"
    using dispatch_by_id(3) [OF chi_like_contract i] by simp
  have c: "RequireAuth ?verify (rq_headers ?r) = Inr ?c" by (simp add: RequireAuth_def Let_def)
  obtain p where "api chi_like ?verify sample_world ?r sample_db = Some p"
    using d c by (simp add: api_def admit_def)
  then obtain d' v where run: "api chi_like ?verify sample_world ?r sample_db = Some (d', v)" by (cases p) simp
  have ok: "db_ok sample_db" by (simp add: db_ok_def sample_db_def)
  have fresh: "wd_fresh sample_world \<notin> insert ''1'' (jb_id ` set (db_jobs sample_db))"
    by (simp add: sample_world_def sample_db_def)
  have user: "RequireAuth ?verify (rq_headers ?r) \<notin> Inr ` {c. cl_role c = ''admin''}" unfolding c by auto
  from requests_stay_with_user [where verify = ?verify, OF chi_like_contract ok fresh run d user] run c show ?thesis
    by (auto simp: Let_def image_iff)
qed

end
