(* ===== verification/Requests.thy ===== *)
theory Requests
  imports Server
begin

text \<open>
  What requests do one after another, and what becomes of a click.  \<open>api_run\<close> is the API over a list of
  requests, each whole handler after the other; the administration keeps an administrator over such a run
  under conditions on its deletions and updates that are stated and needed.  The buttons of a job are
  followed from the markup over the click handler, the request and the router to the database.
\<close>

section \<open>Runs of the API\<close>

text \<open>A request comes with what the handler takes from outside at that moment. An answer of chi itself
  leaves the database.\<close>

definition api_state ::
    "(guard \<times> handler) picker \<Rightarrow> (string \<Rightarrow> claims option) \<Rightarrow> world \<Rightarrow> request \<Rightarrow> db \<Rightarrow> db" where
  "api_state pick verify wd r d = (case api pick verify wd r d of None \<Rightarrow> d | Some (d', v) \<Rightarrow> d')"

fun api_run ::
    "(guard \<times> handler) picker \<Rightarrow> (string \<Rightarrow> claims option) \<Rightarrow> (world \<times> request) list \<Rightarrow> db \<Rightarrow> db" where
  "api_run pick verify [] d = d"
| "api_run pick verify ((wd, r) # rs) d = api_run pick verify rs (api_state pick verify wd r d)"

text \<open>A deletion of an account is made by an account that is an administrator in the database at that time, not
  only in its token, and names an id as the list shows it; an update sets a role that the modal offers, or
  none.  Every other request may be anything.\<close>

definition proper_request ::
    "(guard \<times> handler) picker \<Rightarrow> (string \<Rightarrow> claims option) \<Rightarrow> world \<Rightarrow> request \<Rightarrow> db \<Rightarrow> bool" where
  "proper_request pick verify wd r d =
     (case admit pick verify r of
        Admitted ToAdminUpdateUser c \<Rightarrow>
          decode_ptr ''role'' (rq_body r) \<in> {None, Some None, Some (Some ''user''), Some (Some ''admin'')}
      | Admitted ToAdminDeleteUser c \<Rightarrow>
          is_admin_row (claimed c) d \<and> cast_id wd (url_param pick r ''id'') = url_param pick r ''id''
      | _ \<Rightarrow> True)"

fun proper_run ::
    "(guard \<times> handler) picker \<Rightarrow> (string \<Rightarrow> claims option) \<Rightarrow> (world \<times> request) list \<Rightarrow> db \<Rightarrow> bool" where
  "proper_run pick verify [] d = True"
| "proper_run pick verify ((wd, r) # rs) d =
     (proper_request pick verify wd r d \<and> proper_run pick verify rs (api_state pick verify wd r d))"

text \<open>axios rejects a reply outside of 200 to 299; a rejected query or mutation is an error to the page.\<close>

fun accepted :: "answer \<Rightarrow> bool" where
  "accepted (Reply (status, _)) \<longleftrightarrow> 200 \<le> status \<and> status < 300"
| "accepted (Started (status, _) _) \<longleftrightarrow> 200 \<le> status \<and> status < 300"
| "accepted _ \<longleftrightarrow> True"

lemma accepted_reply: "accepted (Reply r) \<longleftrightarrow> 200 \<le> fst r \<and> fst r < 300"
  by (cases r) simp

section \<open>Administrators over a run\<close>

lemma some_admin_users: "db_users d' = db_users d \<Longrightarrow> some_admin d' = some_admin d"
  by (simp add: some_admin_def)

lemma some_admin_password: "some_admin d \<Longrightarrow> some_admin (update_user i (\<lambda>v. v\<lparr>us_hash := h\<rparr>) d)"
  by (rule some_admin_kept) simp_all

lemmas job_handler_defs = CreateJob_def UpdateJob_def DeleteJob_def PauseJob_def ResumeJob_def setJobStatus_def
  TriggerJob_def AdminCreateJob_def AdminUpdateJob_def AdminDeleteJob_def AdminPauseJob_def AdminResumeJob_def
  adminSetJobStatus_def AdminTriggerJob_def update_job_def remove_job_def cancel_running_def

lemma serve_keeps_admin: "some_admin d \<Longrightarrow> some_admin (fst (for_user wd uid x d))"
  by (cases x)
    (auto simp: for_user_def job_handler_defs Let_def ChangePassword_def some_admin_password
      split: option.split prod.split intro: some_admin_users [THEN iffD2])

lemma handle_keeps_admin:
  assumes "some_admin d" and "h \<notin> {ToAdminUpdateUser, ToAdminDeleteUser}"
  shows "some_admin (fst (handle wd h uid i q body d))"
  using assms serve_keeps_admin [OF assms(1), of wd uid] admin_request_keeps_admin(3) [OF assms(1)]
  by (cases h)
    (auto simp: job_handler_defs UsersApi.Register_def Let_def split: option.split prod.split
      intro: some_admin_users [THEN iffD2] simp: some_admin_def)

lemma proper_keeps_admin:
  assumes "some_admin d" and "proper_request pick verify wd r d"
  shows "some_admin (api_state pick verify wd r d)"
proof (cases "admit pick verify r")
  case (Admitted h c)
  have "some_admin (fst (handle wd h (claimed c) (url_param pick r ''id'') q (rq_body r) d))" for q
  proof (cases "h \<in> {ToAdminUpdateUser, ToAdminDeleteUser}")
    case True
    then show ?thesis
      using assms Admitted by (auto simp: proper_request_def intro!: admin_request_keeps_admin(1,2))
  qed (use handle_keeps_admin [OF assms(1)] in blast)
  then show ?thesis using Admitted by (simp add: api_state_def api_def case_prod_beta')
qed (use assms(1) in \<open>simp_all add: api_state_def api_def\<close>)

section \<open>Properties\<close>

text \<open>C13: The last administrator stays.  Over any sequence of requests to the API, whoever makes them, one
  whole handler after the other: a database with an administrator keeps one, as long as accounts are
  deleted only by accounts that are then administrators in the database, under the id the list shows, and
  updates set no role but the two that the modal offers.\<close>

theorem last_admin_stays:
  assumes "some_admin d" and "proper_run pick verify rs d"
  shows "some_admin (api_run pick verify rs d)"
  using assms by (induction rs arbitrary: d) (auto simp: proper_keeps_admin)

theorem last_admin_stays_witness:
  "let row = (\<lambda>i. \<lparr>us_id = i, us_email = i, us_hash = ''h'', us_role = ''admin'', us_created = ''t''\<rparr>);
       verify = (\<lambda>t. Some \<lparr>cl_user = ''1'', cl_email = ''1'', cl_role = ''admin''\<rparr>);
       send = (\<lambda>call. (sample_world, (call_request call)\<lparr>rq_headers := [(''Authorization'', ''Bearer tok'')]\<rparr>));
       rs = [send (admin_deleteUser ''2''), send (admin_updateUser ''1'' (JObj [(''role'', JStr ''user'')]))]
   in some_admin (api_run chi_like verify rs \<lparr>db_users = [row ''1'', row ''2''], db_jobs = [], db_execs = []\<rparr>)"
proof -
  let ?row = "\<lambda>i. \<lparr>us_id = i, us_email = i, us_hash = ''h'', us_role = ''admin'', us_created = ''t''\<rparr>"
  let ?c = "\<lparr>cl_user = ''1'', cl_email = ''1'', cl_role = ''admin''\<rparr>"
  let ?verify = "\<lambda>t. Some ?c"
  let ?req = "\<lambda>call. (call_request call)\<lparr>rq_headers := [(''Authorization'', ''Bearer tok'')]\<rparr>"
  let ?remove = "?req (admin_deleteUser ''2'')"
  let ?demote = "?req (admin_updateUser ''1'' (JObj [(''role'', JStr ''user'')]))"
  let ?d = "\<lparr>db_users = [?row ''1'', ?row ''2''], db_jobs = [], db_execs = []\<rparr>"
  have i: "url_id ''1''" "url_id ''2''" by (simp_all add: url_id_def segment_def)
  have unchanged: "dispatch chi_like (?req c) = dispatch chi_like (call_request c)"
    "url_param chi_like (?req c) x = url_param chi_like (call_request c) x" for c x
    by (simp_all add: dispatch_def url_param_def)
  have admitted: "RequireAuth ?verify [(''Authorization'', ''Bearer tok'')] = Inr ?c" "RequireAdmin (Some ?c) = None"
    by (simp_all add: RequireAuth_def RequireAdmin_def Let_def)
  have "admit chi_like ?verify ?remove = Admitted ToAdminDeleteUser (Some ?c)"
    "admit chi_like ?verify ?demote = Admitted ToAdminUpdateUser (Some ?c)"
    using dispatch_by_id(9) [OF chi_like_contract i(2)] dispatch_by_id(8) [OF chi_like_contract i(1)]
    by (simp_all add: admit_def unchanged admitted del: request.simps)
  moreover have "cast_id sample_world x = x" for x by (simp add: cast_id_def sample_world_def)
  moreover have "decode_ptr ''role'' (rq_body ?demote) = Some (Some ''user'')"
    by (simp add: request_defs decode_eval)
  ultimately have "proper_run chi_like ?verify [(sample_world, ?remove), (sample_world, ?demote)] ?d"
    by (simp add: proper_request_def is_admin_row_def claimed_def)
  moreover have "some_admin ?d" by (simp add: some_admin_def)
  ultimately show ?thesis unfolding Let_def by (rule last_admin_stays [rotated])
qed

text \<open>C19: The server accepts every action the pages offer. For a job of the signed-in user, a click
  on any button of its card (and the same button of its page) sends one request, a deletion only when it is
  confirmed, and through the router and the middlewares it does what the button says: pausing leaves the job
  paused, resuming leaves it active, deleting removes it, and running starts the job, after the running
  executions are told to stop when its policy is \<open>Replace\<close>, except that with the policy
  \<open>Forbid\<close> it is refused while an execution of the job is running.\<close>

theorem offered_actions_accepted:
  assumes "chi_contract pick" and "url_id i" and "wd_uuid wd i = Some i" and "session b" and "isAuthenticated (auth b)"
    and "verify (js_text (token (auth b))) = Some c" and "owned_job (cl_user c) i d = Some j"
    and "ev \<in> set (events (JobCard (job_json d j)))"
  shows "JobDetail_click ask i (job_json d j) ev = JobCard_click ask (job_json d j) ev \<and>
    ev \<in> set (events (JobDetail fmt i (Some (job_json d j)) False es)) \<and>
    (case map (\<lambda>a. api pick verify wd (intercept (local_storage b) (call_request a)) d)
         (JobCard_click ask (job_json d j) ev) of
       [Some (d', v)] \<Rightarrow>
         (case ev of
            Run \<Rightarrow>
              (if jb_policy j = ''Forbid'' \<and> HasRunning i d
               then d' = d \<and> v = Started (writeError 409 ''Job is already running (Forbid policy)'') []
               else d' = (if jb_policy j = ''Replace'' then cancel_running i d else d) \<and>
                 v = Started (message 200 ''Job triggered'') [j])
          | Pause \<Rightarrow> accepted v \<and> owned_job (cl_user c) i d' = Some (j\<lparr>jb_status := ''paused'', jb_updated := wd_now wd\<rparr>)
          | Resume \<Rightarrow> accepted v \<and> owned_job (cl_user c) i d' = Some (j\<lparr>jb_status := ''active'', jb_updated := wd_now wd\<rparr>)
          | Remove \<Rightarrow> accepted v \<and> any_job i d' = None)
     | calls \<Rightarrow> calls = [] \<and> ev = Remove \<and> \<not> ask (delete_question (job_json d j)))"
proof -
  have id: "job_id (job_json d j) = i"
    using owned_job_json [OF assms(7)] by (simp add: job_id_def job_json_def)
  note run = api_session [where verify = verify and wd = wd and d = d, OF assms(4-6)]
  note args = dispatch_by_id [OF assms(1,2)] params_of_calls [OF assms(1,2)] cast_id_known [of wd, OF assms(3)]
  have calls:
    "api pick verify wd (intercept (local_storage b) (call_request (triggerJob i))) d =
       Some (for_user wd (cl_user c) (DoTriggerJob i) d)"
    "api pick verify wd (intercept (local_storage b) (call_request (pauseJob i))) d =
       Some (for_user wd (cl_user c) (DoPauseJob (wd_now wd) i) d)"
    "api pick verify wd (intercept (local_storage b) (call_request (resumeJob i))) d =
       Some (for_user wd (cl_user c) (DoResumeJob (wd_now wd) i) d)"
    "api pick verify wd (intercept (local_storage b) (call_request (deleteJob i))) d =
       Some (for_user wd (cl_user c) (DoDeleteJob i) d)"
    by (rule trans [OF run], simp add: request_defs, simp add: args)+
  have shown: "ev \<in> set (events (JobDetail fmt i (Some (job_json d j)) False es))"
    using assms(8) by (simp add: events_JobCard events_JobDetail)
  show ?thesis
    using offered_actions_done [OF assms(7,8), of "wd_now wd"] shown
    by (cases ev) (auto simp: id calls accepted_reply for_user_def apsnd_def map_prod_def case_prod_beta')
qed

theorem offered_actions_accepted_witness:
  "let b = setAuth (JStr ''tok'') JNull \<lparr>local_storage = Map.empty, auth = init_auth Map.empty\<rparr>;
       verify = (\<lambda>t. Some \<lparr>cl_user = ''1'', cl_email = ''a@b.c'', cl_role = ''user''\<rparr>);
       j = hd (db_jobs sample_db)
   in (case map (\<lambda>a. api chi_like verify sample_world (intercept (local_storage b) (call_request a)) sample_db)
           (JobCard_click (\<lambda>q. True) (job_json sample_db j) Pause) of
         [Some (d, v)] \<Rightarrow> accepted v \<and> map_option jb_status (owned_job ''1'' ''7'' d) = Some ''paused''
       | calls \<Rightarrow> False)"
proof -
  let ?b = "setAuth (JStr ''tok'') JNull \<lparr>local_storage = Map.empty, auth = init_auth Map.empty\<rparr>"
  let ?c = "\<lparr>cl_user = ''1'', cl_email = ''a@b.c'', cl_role = ''user''\<rparr>"
  let ?verify = "\<lambda>t. Some ?c"
  let ?j = "hd (db_jobs sample_db)"
  have s: "session ?b" by (intro session.logged_in session.load) simp
  have a: "isAuthenticated (auth ?b)" by (simp add: isAuthenticated_def)
  have i: "url_id ''7''" by (simp add: url_id_def segment_def)
  have u: "wd_uuid sample_world ''7'' = Some ''7''" by (simp add: sample_world_def)
  have v: "?verify (js_text (token (auth ?b))) = Some ?c" by simp
  have j: "owned_job (cl_user ?c) ''7'' sample_db = Some ?j" by (simp add: owned_job_def sample_db_def)
  have e: "Pause \<in> set (events (JobCard (job_json sample_db ?j)))"
    by (simp add: events_JobCard offered_def job_json_def sample_db_def)
  show ?thesis
    using offered_actions_accepted [where verify = ?verify and ask = "\<lambda>q. True" and fmt = "\<lparr>ago = js_text, full_date = js_text\<rparr>" and es = None,
      OF chi_like_contract i u s a v j e]
    by (auto simp: Let_def split: list.splits option.splits prod.splits)
qed

end
