(* ===== verification/Executor.thy ===== *)
theory Executor
  imports Executions
begin

text \<open>
  \<open>executor/executor.go\<close>, the same in the API and in the worker: the request a job makes, what becomes of
  the row of its execution, and what the execution table shows of it.  The HTTP client is a parameter:
  its result is an \<open>outcome\<close>.  An UPDATE with a text the database does not accept fails, and the code
  drops the error.
\<close>

section \<open>doRequest\<close>

record http_out =
  ho_method :: string
  ho_url :: string
  ho_headers :: "(string \<times> string) list"
  ho_body :: "string option"
  ho_timeout :: int

definition timeout_of :: "job \<Rightarrow> int" where
  "timeout_of j = (if jb_timeout j = 0 then 30 else jb_timeout j)"

text \<open>Decoding the headers into a map of strings fails as a whole when one value is no string; a
  \<open>null\<close> stands for the empty string.\<close>

fun header_text :: "jsval \<Rightarrow> string option" where
  "header_text (JStr s) = Some s"
| "header_text JNull = Some []"
| "header_text _ = None"

fun header_list :: "jsval \<Rightarrow> (string \<times> string) list" where
  "header_list (JObj ps) =
     (if list_all (\<lambda>(k, v). header_text v \<noteq> None) ps
      then map (\<lambda>(k, v). (k, the (header_text v))) ps else [])"
| "header_list _ = []"

definition build_request :: "job \<Rightarrow> http_out" where
  "build_request j =
     \<lparr>ho_method = map upper_char (jb_method j), ho_url = jb_url j, ho_headers = header_list (jb_headers j),
      ho_body = (case jb_body j of None \<Rightarrow> None | Some b \<Rightarrow> if b = [] then None else Some b),
      ho_timeout = timeout_of j\<rparr>"

text \<open>\<open>Failed\<close> carries the message of the error, and whether it is a cancellation.\<close>

datatype outcome = Failed string bool | Answered nat string

section \<open>run\<close>

definition start_row :: "string \<Rightarrow> string \<Rightarrow> string \<Rightarrow> string \<Rightarrow> execution" where
  "start_row eid jid trigger now =
     \<lparr>ex_id = eid, ex_job = jid, ex_status = ''running'', ex_trigger = trigger, ex_started = now,
      ex_completed = None, ex_duration = None, ex_response = None, ex_body = None, ex_error = None,
      ex_cancel = False\<rparr>"

text \<open>The insertion fails when the job is gone.\<close>

definition begin_run :: "string \<Rightarrow> string \<Rightarrow> string \<Rightarrow> string \<Rightarrow> db \<Rightarrow> db option" where
  "begin_run eid jid trigger now d =
     (if jid \<in> jb_id ` set (db_jobs d)
      then Some (d\<lparr>db_execs := db_execs d @ [start_row eid jid trigger now]\<rparr>) else None)"

text \<open>What a TEXT column accepts: UTF-8 without overlong forms and surrogates, and no NUL.\<close>

definition bad_pair :: "char \<Rightarrow> char \<Rightarrow> bool" where
  "bad_pair c d \<longleftrightarrow> (let m = of_char c :: nat; n = of_char d :: nat in
     m = 0xE0 \<and> n < 0xA0 \<or> m = 0xED \<and> 0x9F < n \<or> m = 0xF0 \<and> n < 0x90 \<or> m = 0xF4 \<and> 0x8F < n)"

definition pg_text :: "string \<Rightarrow> bool" where
  "pg_text s \<longleftrightarrow>
     utf8 s \<and> list_all (\<lambda>c. let k = of_char c :: nat in k \<noteq> 0 \<and> k \<noteq> 0xC0 \<and> k \<noteq> 0xC1 \<and> k < 0xF5) s \<and>
     list_all (\<lambda>(c, d). \<not> bad_pair c d) (zip s (tl s))"

definition int32 :: "int \<Rightarrow> bool" where
  "int32 n \<longleftrightarrow> - (2 ^ 31) \<le> n \<and> n < 2 ^ 31"

definition max_body :: nat where
  "max_body = 10000"

definition http_status_text :: "nat \<Rightarrow> string" where
  "http_status_text n = (if n < 400 then ''success'' else ''failure'')"

fun complete_row :: "string \<Rightarrow> int \<Rightarrow> outcome \<Rightarrow> execution \<Rightarrow> execution" where
  "complete_row now ms (Failed msg canceled) e =
     (let text = (if canceled then ''replaced by newer execution'' else msg) in
      if pg_text text \<and> int32 ms
      then e\<lparr>ex_status := ''failure'', ex_completed := Some now, ex_duration := Some ms, ex_error := Some text\<rparr>
      else e)"
| "complete_row now ms (Answered n body) e =
     (let resp = take max_body body in
      if pg_text resp \<and> int32 ms
      then e\<lparr>ex_status := http_status_text n, ex_completed := Some now, ex_duration := Some ms,
             ex_response := Some (int n), ex_body := Some resp\<rparr>
      else e)"

definition update_exec :: "string \<Rightarrow> (execution \<Rightarrow> execution) \<Rightarrow> db \<Rightarrow> db" where
  "update_exec eid f d = d\<lparr>db_execs := map (\<lambda>e. if ex_id e = eid then f e else e) (db_execs d)\<rparr>"

text \<open>The time of the last run is set when the request was answered, whatever became of the row.\<close>

fun finish_run :: "string \<Rightarrow> string \<Rightarrow> string \<Rightarrow> int \<Rightarrow> outcome \<Rightarrow> db \<Rightarrow> db" where
  "finish_run eid jid now ms (Failed msg canceled) d = update_exec eid (complete_row now ms (Failed msg canceled)) d"
| "finish_run eid jid now ms (Answered n body) d =
     update_job jid (\<lambda>j. j\<lparr>jb_last_run := Some now\<rparr>) (update_exec eid (complete_row now ms (Answered n body)) d)"

section \<open>Facts\<close>

lemma complete_row_keeps [simp]:
  "ex_id (complete_row now ms out e) = ex_id e" "ex_job (complete_row now ms out e) = ex_job e"
  by (cases out; simp add: Let_def)+

lemma pg_text_ascii: "list_all (\<lambda>c. let k = of_char c :: nat in 0 < k \<and> k < 128) s \<Longrightarrow> pg_text s"
proof -
  assume a: "list_all (\<lambda>c. let k = of_char c :: nat in 0 < k \<and> k < 128) s"
  have "utf8 s" using a by (induction s) (auto simp: lead_conts_def Let_def)
  moreover have "\<not> bad_pair c d" if "(c, d) \<in> set (zip s (tl s))" for c d
    using a set_zip_leftD [OF that] by (auto simp: bad_pair_def list_all_iff Let_def)
  ultimately show ?thesis
    using a by (auto simp: pg_text_def list_all_iff Let_def)
qed

lemma pg_text_replaced: "pg_text ''replaced by newer execution''"
  by (rule pg_text_ascii) code_simp

lemma finish_run_execs:
  "db_execs (finish_run eid jid now ms out d) =
     map (\<lambda>e. if ex_id e = eid then complete_row now ms out e else e) (db_execs d)"
  by (cases out) (simp_all add: update_exec_def update_job_def)

text \<open>What the table shows of a row: the colour of its HTTP cell.\<close>

lemma http_cell_status:
  assumes "ex_response e = Some (int n)" and "0 < n"
  shows "http_cell (execution_json d e) =
    [Elem ''span'' [Attr ''className'' (if n < 400 then ''text-green-600 font-mono'' else ''text-red-600 font-mono'')]
      (shown (JNum (int n)))]"
  using assms by (simp add: http_cell_def execution_json_def field_def Let_def)

section \<open>Properties\<close>

text \<open>C25: The outcome of a request is what the execution table shows.  A finished row has ended as a
  success exactly when the answer's status was below 400, and then and only then the table shows the
  status in green; a request without an answer ends as a failure, a cancelled one with the note that it
  was replaced.  At most ten thousand bytes of the answer are kept.\<close>

theorem outcome_shown:
  assumes "ex_status e = ''running''" and "ex_response e = None" and "int32 ms"
  shows "case out of
      Failed msg canceled \<Rightarrow> (canceled \<or> pg_text msg) \<longrightarrow>
        (let r = complete_row now ms out e in
         ex_status r = ''failure'' \<and> ex_completed r = Some now \<and> ex_duration r = Some ms \<and> ex_response r = None \<and>
         ex_error r = Some (if canceled then ''replaced by newer execution'' else msg))
    | Answered n body \<Rightarrow> pg_text (take 10000 body) \<and> 0 < n \<longrightarrow>
        (let r = complete_row now ms out e in
         ex_status r \<in> {''success'', ''failure''} \<and> (ex_status r = ''success'' \<longleftrightarrow> n < 400) \<and>
         ex_completed r = Some now \<and> ex_response r = Some (int n) \<and> (\<exists>b. ex_body r = Some b \<and> length b \<le> 10000) \<and>
         http_cell (execution_json d r) =
           [Elem ''span''
             [Attr ''className''
               (if ex_status r = ''success'' then ''text-green-600 font-mono'' else ''text-red-600 font-mono'')]
             (shown (JNum (int n)) :: 'e node list)])"
proof (cases out)
  case (Failed msg canceled)
  then show ?thesis using assms pg_text_replaced by (auto simp: Let_def)
next
  case (Answered n body)
  show ?thesis
  proof (cases "pg_text (take 10000 body) \<and> 0 < n")
    case True
    let ?r = "complete_row now ms (Answered n body) e"
    have r: "ex_status ?r = http_status_text n" "ex_completed ?r = Some now" "ex_response ?r = Some (int n)"
      "ex_body ?r = Some (take 10000 body)"
      using True assms(3) by (simp_all add: Let_def max_body_def)
    have s: "ex_status ?r = ''success'' \<longleftrightarrow> n < 400" "ex_status ?r \<in> {''success'', ''failure''}"
      using r(1) by (simp_all add: http_status_text_def)
    have "http_cell (execution_json d ?r) =
        [Elem ''span''
          [Attr ''className'' (if ex_status ?r = ''success'' then ''text-green-600 font-mono'' else ''text-red-600 font-mono'')]
          (shown (JNum (int n)) :: 'e node list)]"
      using True r(3) s(1) by (subst http_cell_status) auto
    with r s show ?thesis using Answered True by (simp add: Let_def)
  next
    case False
    then show ?thesis unfolding Answered outcome.case by blast
  qed
qed

text \<open>An answer that is no text is never recorded.  If the kept part of the answer is not valid UTF-8
  or holds a NUL, for instance because the cut at ten thousand bytes splits a character, the row stays
  as it was, running, although the job's last run is set to the time of the answer.\<close>

theorem unstorable_answer_stays_running:
  assumes "\<not> pg_text (take 10000 body)"
  shows "db_execs (finish_run eid jid now ms (Answered n body) d) = db_execs d \<and>
    list_all (\<lambda>j. jb_id j = jid \<longrightarrow> jb_last_run j = Some now) (db_jobs (finish_run eid jid now ms (Answered n body) d)) \<and>
    HasRunning jid (finish_run eid jid now ms (Answered n body) d) = HasRunning jid d"
proof -
  have "db_execs (finish_run eid jid now ms (Answered n body) d) = db_execs d"
  proof -
    have "complete_row now ms (Answered n body) e = e" for e
      using assms by (simp add: max_body_def Let_def)
    then show ?thesis by (simp add: finish_run_execs del: complete_row.simps finish_run.simps cong: if_cong)
  qed
  moreover have "list_all (\<lambda>j. jb_id j = jid \<longrightarrow> jb_last_run j = Some now)
      (db_jobs (update_job jid (\<lambda>j. j\<lparr>jb_last_run := Some now\<rparr>) d'))" for d'
    by (simp add: update_job_def list.pred_map comp_def) (simp add: list_all_iff)
  ultimately show ?thesis
    unfolding HasRunning_def finish_run.simps by simp
qed

theorem outcome_shown_witness:
  "ex_status (complete_row ''now'' 5 (Answered 503 ''busy'') (start_row ''a'' ''7'' ''manual'' ''t'')) = ''failure'' \<and>
   http_cell (execution_json sample_db (complete_row ''now'' 5 (Answered 503 ''busy'') (start_row ''a'' ''7'' ''manual'' ''t''))) =
     [Elem ''span'' [Attr ''className'' ''text-red-600 font-mono''] (shown (JNum 503) :: unit node list)]"
proof -
  let ?e = "start_row ''a'' ''7'' ''manual'' ''t''"
  let ?r = "complete_row ''now'' 5 (Answered 503 ''busy'') ?e"
  have "pg_text (take 10000 ''busy'') \<and> 0 < (503 :: nat)" using pg_text_ascii [of "''busy''"] by simp
  moreover have "ex_status ?e = ''running''" "ex_response ?e = None" "int32 5"
    by (simp_all add: start_row_def int32_def)
  note all = outcome_shown [OF this, where out = "Answered 503 ''busy''" and d = sample_db and ?'e = unit, unfolded outcome.case]
  ultimately have "ex_status ?r \<in> {''success'', ''failure''}" "ex_status ?r \<noteq> ''success''"
    "http_cell (execution_json sample_db ?r) =
      [Elem ''span'' [Attr ''className''
        (if ex_status ?r = ''success'' then ''text-green-600 font-mono'' else ''text-red-600 font-mono'')]
        (shown (JNum (int 503)) :: unit node list)]"
    using all [of "''now''"] unfolding Let_def by simp_all
  then show ?thesis by simp
qed

lemma utf8_ascii_append: "list_all (\<lambda>c. (of_char c :: nat) < 128) s \<Longrightarrow> utf8 (s @ t) = utf8 t"
  by (induction s) (auto simp: lead_conts_def Let_def)

theorem unstorable_answer_stays_running_witness:
  "utf8 (replicate 9999 CHR ''x'' @ [CHR 0xC3, CHR 0xA9]) \<and>
   db_execs (finish_run ''a'' ''7'' ''now'' 5 (Answered 200 (replicate 9999 CHR ''x'' @ [CHR 0xC3, CHR 0xA9])) sample_db) =
     db_execs sample_db"
proof -
  let ?b = "replicate 9999 CHR ''x'' @ [CHR 0xC3, CHR 0xA9]"
  have x: "list_all (\<lambda>c. (of_char c :: nat) < 128) (replicate 9999 CHR ''x'')"
    by (simp add: list_all_iff)
  have "take 10000 ?b = replicate 9999 CHR ''x'' @ [CHR 0xC3]" by simp
  moreover have "\<not> utf8 (replicate 9999 CHR ''x'' @ [CHR 0xC3])"
    unfolding utf8_ascii_append [OF x] by (simp add: lead_conts_def)
  ultimately have "\<not> pg_text (take 10000 ?b)" by (simp only: pg_text_def) simp
  from unstorable_answer_stays_running [OF this, of "''a''" "''7''" "''now''" 5 200 sample_db]
  have "db_execs (finish_run ''a'' ''7'' ''now'' 5 (Answered 200 ?b) sample_db) = db_execs sample_db" by (rule conjunct1)
  moreover have "utf8 ?b" unfolding utf8_ascii_append [OF x] by (simp add: lead_conts_def is_cont_def)
  ultimately show ?thesis by (rule conjI [rotated])
qed

end
