(* ===== verification/QueryCache.thy ===== *)
theory QueryCache
  imports Requests Executor
begin

text \<open>
  What the pages show between two replies: the cache of the query library, filled by the queries the pages
  mount and reset by the effects of their handlers.  The library is a parameter; \<open>query_contract\<close> is what it
  documents of the operations the sources call.  The keys do not name the user, so whose data the cache
  holds, and whether it is told of every change, depends on the order of calls in the sources.
\<close>

section \<open>The query library\<close>

record ('c, 'v) query_lib =
  ql_data :: "'c \<Rightarrow> query_key \<Rightarrow> 'v option"
  ql_invalidated :: "'c \<Rightarrow> query_key \<Rightarrow> bool"
  ql_store :: "query_key \<Rightarrow> 'v \<Rightarrow> 'c \<Rightarrow> 'c"
  ql_invalidate :: "query_key \<Rightarrow> 'c \<Rightarrow> 'c"
  ql_clear :: "'c \<Rightarrow> 'c"
  ql_new :: 'c

text \<open>A successful fetch stores its data and is no longer invalidated;
  \<open>invalidateQueries\<close> marks the queries whose key begins with the given one and keeps their
  data; \<open>clear\<close> empties the cache.\<close>

definition query_contract :: "('c, 'v) query_lib \<Rightarrow> bool" where
  "query_contract lib \<longleftrightarrow>
     (\<forall>k. ql_data lib (ql_new lib) k = None) \<and>
     (\<forall>k v c q. ql_data lib (ql_store lib k v c) q = (if q = k then Some v else ql_data lib c q)) \<and>
     (\<forall>k v c q. ql_invalidated lib (ql_store lib k v c) q = (q \<noteq> k \<and> ql_invalidated lib c q)) \<and>
     (\<forall>k c q. ql_data lib (ql_invalidate lib k c) q = ql_data lib c q) \<and>
     (\<forall>k c q. ql_data lib c q \<noteq> None \<longrightarrow>
        ql_invalidated lib (ql_invalidate lib k c) q = (prefix k q \<or> ql_invalidated lib c q)) \<and>
     (\<forall>c k. ql_data lib (ql_clear lib c) k = None)"

fun run_effect :: "('c, 'v) query_lib \<Rightarrow> effect \<Rightarrow> 'c \<Rightarrow> 'c" where
  "run_effect lib (Invalidate k) c = ql_invalidate lib k c"
| "run_effect lib InvalidateAll c = ql_invalidate lib [] c"
| "run_effect lib ClearCache c = ql_clear lib c"
| "run_effect lib _ c = c"

definition run_effects :: "('c, 'v) query_lib \<Rightarrow> effect list \<Rightarrow> 'c \<Rightarrow> 'c" where
  "run_effects lib es c = fold (run_effect lib) es c"

text \<open>An instance: an entry is its data and whether it was invalidated.\<close>

definition map_cache :: "(query_key \<rightharpoonup> 'v \<times> bool, 'v) query_lib" where
  "map_cache =
     \<lparr>ql_data = (\<lambda>c k. map_option fst (c k)),
      ql_invalidated = (\<lambda>c k. case c k of None \<Rightarrow> False | Some e \<Rightarrow> snd e),
      ql_store = (\<lambda>k v c. c(k \<mapsto> (v, False))),
      ql_invalidate = (\<lambda>k c q. map_option (\<lambda>(v, b). (v, prefix k q \<or> b)) (c q)),
      ql_clear = (\<lambda>c. Map.empty),
      ql_new = Map.empty\<rparr>"

lemma map_cache_contract: "query_contract map_cache"
  by (auto simp: query_contract_def map_cache_def option.map_comp comp_def case_prod_beta' split: option.split)

lemma effect_data:
  assumes "query_contract lib"
  shows "ql_data lib (run_effect lib e c) k = (if e = ClearCache then None else ql_data lib c k)"
  using assms by (cases e) (simp_all add: query_contract_def)

lemma effects_data:
  assumes "query_contract lib"
  shows "ql_data lib (run_effects lib es c) k = (if ClearCache \<in> set es then None else ql_data lib c k)"
  unfolding run_effects_def by (induction es arbitrary: c) (auto simp: effect_data [OF assms] simp del: run_effect.simps)

lemma effects_invalidated:
  assumes "query_contract lib" and "ql_data lib c k \<noteq> None" and "ClearCache \<notin> set es"
  shows "ql_invalidated lib (run_effects lib es c) k = (refreshes es k \<or> ql_invalidated lib c k)"
  using assms(2,3) unfolding run_effects_def
proof (induction es arbitrary: c)
  case (Cons e es)
  have "ql_invalidated lib (run_effect lib e c) k = (invalidates e k \<or> ql_invalidated lib c k)"
    using assms(1) Cons.prems by (cases e) (auto simp: query_contract_def)
  moreover have "ql_data lib (run_effect lib e c) k \<noteq> None"
    using Cons.prems by (auto simp: effect_data [OF assms(1)] simp del: run_effect.simps)
  ultimately show ?case using Cons.IH [of "run_effect lib e c"] Cons.prems by auto
qed simp

section \<open>The queries of the pages\<close>

text \<open>\<open>i\<close> is the id of the path, \<open>n\<close> the period chosen on the report page.\<close>

fun page_queries :: "page \<Rightarrow> string \<Rightarrow> nat \<Rightarrow> (query_key \<times> call) list" where
  "page_queries DashboardPage i n = Dashboard_queries"
| "page_queries JobsPage i n = Jobs_queries"
| "page_queries JobDetailPage i n = JobDetail_queries i"
| "page_queries EditJobPage i n = EditJob_queries i"
| "page_queries ReportPage i n = Report_queries (report_init\<lparr>rp_days := n\<rparr>)"
| "page_queries AdminJobsPage i n = AdminJobs_queries"
| "page_queries AdminUsersPage i n = AdminUsers_queries"
| "page_queries _ i n = []"

lemmas queries_defs = Dashboard_queries_def Jobs_queries_def JobDetail_queries_def EditJob_queries_def
  Report_queries_def AdminJobs_queries_def AdminUsers_queries_def

section \<open>Whose data the cache holds\<close>

text \<open>What the server does with a token: it verifies to the claims it was signed with, or not at all (it may
  have expired).\<close>

definition verifies :: "(string \<Rightarrow> claims) \<Rightarrow> (string \<Rightarrow> claims option) \<Rightarrow> bool" where
  "verifies claims_of verify \<longleftrightarrow> (\<forall>t. verify t \<in> {None, Some (claims_of t)})"

text \<open>One accepted answer to a query of a page: the key it is stored under, the request, the claims
  its token was signed with, and the answer, with the database and the world it was computed from.\<close>

record fetched =
  ft_key :: query_key
  ft_request :: request
  ft_claims :: claims
  ft_world :: world
  ft_db :: db
  ft_answer :: answer

text \<open>A tab and the database of its server. Kept for the statements only: the answers stored since the
  cache was last emptied, the latest first, and whether a sign-in has happened over a live session since
  then.\<close>

record 'c tab =
  tb_browser :: browser
  tb_cache :: 'c
  tb_db :: db
  tb_pending :: "fetched list"
  tb_stored :: "fetched list"
  tb_over :: bool

abbreviation tab_claims :: "(string \<Rightarrow> claims) \<Rightarrow> 'c tab \<Rightarrow> claims" where
  "tab_claims claims_of s \<equiv> claims_of (js_text (token (auth (tb_browser s))))"

text \<open>\<open>clear\<close> empties the cache and drops the queries that are under way.\<close>

definition after_effects :: "('c, answer) query_lib \<Rightarrow> effect list \<Rightarrow> 'c tab \<Rightarrow> 'c tab" where
  "after_effects lib es s =
     (let kept = (ClearCache \<notin> set es) in
      s\<lparr>tb_cache := run_effects lib es (tb_cache s),
        tb_pending := (if kept then tb_pending s else []), tb_stored := (if kept then tb_stored s else []),
        tb_over := (kept \<and> tb_over s)\<rparr>)"

text \<open>What happens in a tab: a mounted query of any page is answered by the server, its answer settles later, a
  handler's effects are run, the user logs out, signs in (the pages for that are open to a signed-in user
  too) or loads the application anew; meanwhile others change the database.\<close>

inductive tab_step ::
    "(guard \<times> handler) picker \<Rightarrow> (string \<Rightarrow> claims) \<Rightarrow> ('c, answer) query_lib \<Rightarrow> 'c tab \<Rightarrow> 'c tab \<Rightarrow> bool"
  for pick claims_of lib where
  ask: "(k, q) \<in> set (page_queries p i n) \<Longrightarrow> url_id i \<Longrightarrow> verifies claims_of verify \<Longrightarrow>
    r = intercept (local_storage (tb_browser s)) (call_request q) \<Longrightarrow>
    api pick verify wd r (tb_db s) = Some (d', v) \<Longrightarrow> accepted v \<Longrightarrow>
    tab_step pick claims_of lib s (s\<lparr>tb_pending := \<lparr>ft_key = k, ft_request = r, ft_claims = tab_claims claims_of s,
      ft_world = wd, ft_db = tb_db s, ft_answer = v\<rparr> # tb_pending s\<rparr>)"
| settle: "f \<in> set (tb_pending s) \<Longrightarrow>
    tab_step pick claims_of lib s (s\<lparr>tb_cache := ql_store lib (ft_key f) (ft_answer f) (tb_cache s),
      tb_pending := remove1 f (tb_pending s), tb_stored := f # tb_stored s\<rparr>)"
| effects: "tab_step pick claims_of lib s (after_effects lib es s)"
| logout: "handleLogout (tb_browser s) = (b', es) \<Longrightarrow>
    tab_step pick claims_of lib s (after_effects lib es (s\<lparr>tb_browser := b'\<rparr>))"
| sign_in: "json_safe u \<Longrightarrow> t \<noteq> [] \<Longrightarrow>
    tab_step pick claims_of lib s (s\<lparr>tb_browser := setAuth (JStr t) u (tb_browser s),
      tb_over := (tb_over s \<or> isAuthenticated (auth (tb_browser s)))\<rparr>)"
| load: "st = local_storage (tb_browser s) \<Longrightarrow>
    tab_step pick claims_of lib s (s\<lparr>tb_browser := \<lparr>local_storage = st, auth = init_auth st\<rparr>,
      tb_cache := ql_new lib, tb_pending := [], tb_stored := [], tb_over := False\<rparr>)"
| others: "db_ok d \<Longrightarrow> tab_step pick claims_of lib s (s\<lparr>tb_db := d\<rparr>)"

definition tab_init :: "('c, answer) query_lib \<Rightarrow> (string \<rightharpoonup> string) \<Rightarrow> db \<Rightarrow> 'c tab" where
  "tab_init lib st d =
     \<lparr>tb_browser = \<lparr>local_storage = st, auth = init_auth st\<rparr>, tb_cache = ql_new lib, tb_db = d,
      tb_pending = [], tb_stored = [], tb_over = False\<rparr>"

text \<open>The answer that a request with these claims gets, and that it belongs to the key and to the
  user: it answers a query some page mounts under the key, and is the answer to the same request on the rows
  of the claims' user alone, but for the two lists of the administration, which need the role.\<close>

definition answered :: "(guard \<times> handler) picker \<Rightarrow> fetched \<Rightarrow> db \<Rightarrow> answer option" where
  "answered pick f d = map_option snd (api pick (\<lambda>t. Some (ft_claims f)) (ft_world f) (ft_request f) d)"

definition own_fetch :: "(guard \<times> handler) picker \<Rightarrow> fetched \<Rightarrow> bool" where
  "own_fetch pick f \<longleftrightarrow>
     (\<exists>p i n q st. (ft_key f, q) \<in> set (page_queries p i n) \<and> ft_request f = intercept st (call_request q)) \<and>
     answered pick f (ft_db f) = Some (ft_answer f) \<and>
     (answered pick f (view (cl_user (ft_claims f)) (ft_db f)) = Some (ft_answer f) \<or>
      cl_role (ft_claims f) = ''admin'' \<and> ft_key f \<in> {[''admin-jobs''], [''admin-users'']})"

definition own_cache ::
    "(guard \<times> handler) picker \<Rightarrow> (string \<Rightarrow> claims) \<Rightarrow> ('c, answer) query_lib \<Rightarrow> 'c tab \<Rightarrow> bool" where
  "own_cache pick claims_of lib s \<longleftrightarrow>
     chi_contract pick \<and> query_contract lib \<and> session (tb_browser s) \<and> db_ok (tb_db s) \<and>
     (\<forall>k. ql_data lib (tb_cache s) k = map_option ft_answer (find (\<lambda>f. ft_key f = k) (tb_stored s))) \<and>
     (\<forall>f \<in> set (tb_pending s @ tb_stored s). own_fetch pick f \<and> isAuthenticated (auth (tb_browser s)) \<and>
        (tb_over s \<or> ft_claims f = tab_claims claims_of s))"

lemma query_headers: "(k, q) \<in> set (page_queries p i n) \<Longrightarrow> rq_headers (call_request q) = client_headers"
  by (cases p) (auto simp: queries_defs request_defs split: if_splits)

lemma query_handlers:
  assumes "chi_contract pick" and "url_id i" and "(k, q) \<in> set (page_queries p i n)"
  shows "\<exists>g h. dispatch pick (call_request q) = Some (g, h) \<and>
    (g = Authenticated \<and> h \<in> {ToListJobs, ToGetJob, ToListExecutions, ToListRunningExecutions, ToReportSummary,
       ToReportTimeline, ToReportJobs} \<or>
     g = Administrator \<and> k \<in> {[''admin-jobs''], [''admin-users'']})"
  using assms(3) dispatch_fixed [OF assms(1)] dispatch_by_id [OF assms(1,2)]
  by (cases p) (auto simp: queries_defs split: if_splits)

lemma query_handlers_own:
  assumes "db_ok d" and "h \<in> {ToListJobs, ToGetJob, ToListExecutions, ToListRunningExecutions, ToReportSummary,
       ToReportTimeline, ToReportJobs}"
  shows "snd (handle wd h uid i q body (view uid d)) = snd (handle wd h uid i q body d)"
proof -
  have own: "snd (for_user wd uid x (view uid d)) = snd (for_user wd uid x d)" if "fresh_ok x d" for x
    using serve_own [OF assms(1) that, of "wd_hash wd" "wd_same wd" uid] by (simp add: for_user_def)
  show ?thesis using assms(2) by (auto simp: own)
qed

lemma fetched_own:
  assumes "chi_contract pick" and "url_id i" and "(k, q) \<in> set (page_queries p i n)" and "session b"
    and "verifies claims_of verify" and "db_ok d" and "accepted v"
    and "api pick verify wd (intercept (local_storage b) (call_request q)) d = Some (d', v)"
  shows "isAuthenticated (auth b)"
    and "own_fetch pick \<lparr>ft_key = k, ft_request = intercept (local_storage b) (call_request q),
      ft_claims = claims_of (js_text (token (auth b))), ft_world = wd, ft_db = d, ft_answer = v\<rparr>"
proof -
  obtain g h where gh: "dispatch pick (call_request q) = Some (g, h)" "g \<noteq> Public"
    and kinds: "g = Authenticated \<and> h \<in> {ToListJobs, ToGetJob, ToListExecutions, ToListRunningExecutions,
        ToReportSummary, ToReportTimeline, ToReportJobs} \<or>
      g = Administrator \<and> k \<in> {[''admin-jobs''], [''admin-users'']}"
    using query_handlers [OF assms(1-3)] by auto
  note h = query_headers [OF assms(3)]
  note admit = admit_session [OF assms(4) h gh(1), of verify]
  show auth: "isAuthenticated (auth b)"
    using assms(7,8) gh(2) by (auto simp: api_def admit writeError_def split: if_splits)
  then have "verify (js_text (token (auth b))) \<noteq> None"
    using assms(7,8) gh(2) by (cases "verify (js_text (token (auth b)))") (auto simp: api_def admit writeError_def)
  then have c: "verify (js_text (token (auth b))) = Some (claims_of (js_text (token (auth b))))"
    using assms(5) unfolding verifies_def by (metis empty_iff insert_iff)
  let ?c = "claims_of (js_text (token (auth b)))"
  let ?h = "handle wd h (cl_user ?c) (url_param pick (call_request q) ''id'') (request_query (call_request q))
        (rq_body (call_request q))"
  note same = api_session [where verify = "\<lambda>t. Some ?c" and c = ?c, OF assms(4) auth refl h]
  have allowed: "g = Administrator \<longrightarrow> cl_role ?c = ''admin''" and v: "v = snd (?h d)"
    using assms(7,8) gh api_session [where verify = verify, OF assms(4) auth c h]
    by (auto simp: writeError_def split: if_splits)
  then have ask: "map_option snd (api pick (\<lambda>t. Some ?c) wd (intercept (local_storage b) (call_request q)) x) =
      Some (snd (?h x))" for x
    using gh allowed by (auto simp: same) (metis prod.collapse)+
  have "snd (?h (view (cl_user ?c) d)) = v \<or> cl_role ?c = ''admin'' \<and> k \<in> {[''admin-jobs''], [''admin-users'']}"
    using kinds allowed v query_handlers_own [OF assms(6)] by blast
  moreover have "\<exists>p i n q' st. (k, q') \<in> set (page_queries p i n) \<and>
      intercept (local_storage b) (call_request q) = intercept st (call_request q')"
    using assms(3) by blast
  ultimately show "own_fetch pick \<lparr>ft_key = k, ft_request = intercept (local_storage b) (call_request q),
      ft_claims = ?c, ft_world = wd, ft_db = d, ft_answer = v\<rparr>"
    using v by (simp add: own_fetch_def answered_def ask)
qed

lemma own_step:
  assumes "tab_step pick claims_of lib s s'" and "own_cache pick claims_of lib s"
  shows "own_cache pick claims_of lib s'"
  using assms
proof (induction rule: tab_step.induct)
  case (ask k q p i n verify r s wd d' v)
  then show ?case
    using fetched_own [of pick i k q p n "tb_browser s" claims_of verify "tb_db s" v wd d'] by (simp add: own_cache_def)
next
  case (settle f s)
  then show ?case by (auto simp: own_cache_def query_contract_def dest!: subsetD [OF set_remove1_subset])
next
  case (effects s es)
  then show ?case by (auto simp: own_cache_def effects_data after_effects_def Let_def)
next
  case (logout s b' es)
  then have "ClearCache \<in> set es" "session b'"
    using session.logged_out [of "tb_browser s"] by (auto simp: own_cache_def handleLogout_def)
  then show ?case using logout by (auto simp: own_cache_def effects_data after_effects_def Let_def)
next
  case (sign_in u t s)
  then have "session (setAuth (JStr t) u (tb_browser s))" "isAuthenticated (auth (setAuth (JStr t) u (tb_browser s)))"
    using session.logged_in [of "tb_browser s" u t] by (simp_all add: own_cache_def setAuth_def isAuthenticated_def)
  then show ?case using sign_in by (auto simp: own_cache_def)
next
  case (load st s)
  then show ?case using session.load by (auto simp: own_cache_def query_contract_def)
next
  case (others d s)
  then show ?case by (auto simp: own_cache_def)
qed

interpretation cached: kept "tab_step pick claims_of lib" "own_cache pick claims_of lib" for pick claims_of lib
  by unfold_locales (rule own_step)

text \<open>C5: Whose data the cache holds.  From the load of the application on, whatever pages are visited, handlers
  run and users sign in and out, and whatever others do to the database: under every key the cache has the
  latest answer stored since it was last emptied, which is the server's answer to a query that a page
  mounts under that key, computed from the rows of the user who asked alone (the lists of the
  administration excepted, which need the role).  Signed out the cache is empty, and as long as nobody has
  signed in over a live session since, every answer was asked for by the user of the current token.\<close>

theorem cached_data_is_own:
  assumes "chi_contract pick" and "query_contract lib" and "db_ok d"
    and "(tab_step pick claims_of lib)\<^sup>*\<^sup>* (tab_init lib st d) s"
  shows "ql_data lib (tb_cache s) k = map_option ft_answer (find (\<lambda>f. ft_key f = k) (tb_stored s)) \<and>
    list_all (own_fetch pick) (tb_stored s) \<and>
    (if isAuthenticated (auth (tb_browser s))
     then tb_over s \<or> list_all (\<lambda>f. ft_claims f = tab_claims claims_of s) (tb_stored s)
     else tb_stored s = [])"
proof -
  have "own_cache pick claims_of lib (tab_init lib st d)"
    using assms(1-3) session.load by (auto simp: own_cache_def query_contract_def tab_init_def)
  from cached.always [OF assms(4) this] show ?thesis
    by (cases "tb_stored s") (auto simp: own_cache_def list_all_iff)
qed

lemma api_getJobs:
  assumes "chi_contract pick" and "session b" and "isAuthenticated (auth b)"
    and "verify (js_text (token (auth b))) = Some c"
  shows "api pick verify wd (intercept (local_storage b) (call_request getJobs)) d = Some (d, Reply (ListJobs (cl_user c) d))"
proof -
  have h: "rq_headers (call_request getJobs) = client_headers" by (simp add: request_defs)
  show ?thesis
    unfolding api_session [where verify = verify, OF assms(2-4) h]
    using dispatch_fixed(4) [OF assms(1)] by (simp add: for_user_def)
qed

lemma sample_db_ok: "db_ok sample_db"
  by (simp add: db_ok_def sample_db_def)

definition sample_claims :: "string \<Rightarrow> claims" where
  "sample_claims t = \<lparr>cl_user = ''1'', cl_email = t, cl_role = ''user''\<rparr>"

theorem cached_data_is_own_witness:
  "let st = [''token'' \<mapsto> ''tok'']; answer = Reply (ListJobs ''1'' sample_db);
       f = \<lparr>ft_key = [''jobs''], ft_request = intercept st (call_request getJobs), ft_claims = sample_claims ''tok'',
         ft_world = sample_world, ft_db = sample_db, ft_answer = answer\<rparr>
   in own_fetch chi_like f \<and>
      ql_data map_cache (ql_store map_cache [''jobs''] answer (ql_new map_cache)) [''jobs''] = Some answer"
proof -
  let ?st = "[''token'' \<mapsto> ''tok'']" and ?v = "Reply (ListJobs ''1'' sample_db)"
  let ?b = "\<lparr>local_storage = ?st, auth = init_auth ?st\<rparr>"
  let ?r = "intercept ?st (call_request getJobs)"
  let ?f = "\<lparr>ft_key = [''jobs''], ft_request = ?r, ft_claims = sample_claims ''tok'', ft_world = sample_world,
    ft_db = sample_db, ft_answer = ?v\<rparr>"
  let ?init = "tab_init map_cache ?st sample_db"
  let ?asked = "?init\<lparr>tb_pending := [?f]\<rparr>"
  let ?done = "?asked\<lparr>tb_cache := ql_store map_cache [''jobs''] ?v (ql_new map_cache), tb_pending := [], tb_stored := [?f]\<rparr>"
  have token: "js_text (token (auth ?b)) = ''tok''" "isAuthenticated (auth ?b)"
    by (simp_all add: init_auth_def getItem_def isAuthenticated_def)
  then have run: "api chi_like (Some \<circ> sample_claims) sample_world ?r (tb_db ?init) = Some (sample_db, ?v)"
    using api_getJobs [OF chi_like_contract session.load [of ?st], where verify = "Some \<circ> sample_claims"]
    by (simp add: sample_claims_def tab_init_def)
  have mounted: "([''jobs''], getJobs) \<in> set (page_queries JobsPage ''7'' 30)" by (simp add: Jobs_queries_def)
  have i: "url_id ''7''" by (simp add: url_id_def segment_def)
  have v: "verifies sample_claims (Some \<circ> sample_claims)" by (simp add: verifies_def)
  have r: "?r = intercept (local_storage (tb_browser ?init)) (call_request getJobs)" by (simp add: tab_init_def)
  have ok: "accepted ?v" by (simp add: accepted_reply ListJobs_def)
  have "tab_step chi_like sample_claims map_cache ?init ?asked"
    using tab_step.ask [OF mounted i v r run ok] token by (simp add: tab_init_def)
  moreover have "tab_step chi_like sample_claims map_cache ?asked ?done"
    using tab_step.settle [of ?f ?asked chi_like sample_claims map_cache] by (simp add: tab_init_def)
  ultimately have "(tab_step chi_like sample_claims map_cache)\<^sup>*\<^sup>* ?init ?done" by (meson converse_rtranclp_into_rtranclp rtranclp.rtrancl_refl)
  from cached_data_is_own [OF chi_like_contract map_cache_contract sample_db_ok this, of "[''jobs'']"]
  show ?thesis using token by (simp add: Let_def tab_init_def)
qed

text \<open>Signing in without a logout before it, which the pages allow (\<open>/login\<close> shows its
  form to a signed-in user too), keeps the cache: the new user sees the data of the one before.\<close>

theorem second_sign_in_keeps_cache:
  assumes "query_contract lib" and "ql_data lib c k = Some v" and "rs_data resp = JObj ps"
    and "field ps ''token'' = JStr t" and "field ps ''user'' = u"
    and "Login_settled (Inl resp) s b = (s', b', es)"
  shows "token (auth b') = JStr t \<and> ql_data lib (run_effects lib es c) k = Some v \<and>
    ql_invalidated lib (run_effects lib es c) k = ql_invalidated lib c k"
  using assms Login_settled_accepted [OF assms(3-5), of s b]
  by (simp add: effects_data effects_invalidated)

section \<open>Which changes the pages are told of\<close>

text \<open>What the server would answer a query now.\<close>

definition answer_to ::
    "(guard \<times> handler) picker \<Rightarrow> (string \<Rightarrow> claims option) \<Rightarrow> world \<Rightarrow> browser \<Rightarrow> call \<Rightarrow> db \<Rightarrow> answer option" where
  "answer_to pick verify wd b q d = map_option snd (api pick verify wd (intercept (local_storage b) (call_request q)) d)"

lemma any_job_update:
  assumes "keeps_owner f"
  shows "any_job x (update_job i f d) = map_option (\<lambda>j. if jb_id j = i then f j else j) (any_job x d)"
proof -
  have "find (\<lambda>j. jb_id j = x) (map (\<lambda>j. if jb_id j = i then f j else j) js) =
      map_option (\<lambda>j. if jb_id j = i then f j else j) (find (\<lambda>j. jb_id j = x) js)" for js
    using assms by (induction js) (auto simp: keeps_owner_def)
  then show ?thesis by (simp add: any_job_def update_job_def)
qed

text \<open>The execution lists do not change when the rows keep what is shown of them.\<close>

lemma execution_lists_same:
  assumes "user_execs uid d' = map g (user_execs uid d)"
    and "\<And>e. ex_job (g e) = ex_job e \<and> ex_status (g e) = ex_status e \<and> execution_json d' (g e) = execution_json d e"
  shows "ListExecutions uid job l off d' = ListExecutions uid job l off d"
    and "ListRunningExecutions uid d' = ListRunningExecutions uid d"
proof -
  have rows: "rows_reply d' (map g es) = rows_reply d es" for es
    using assms(2) by (simp add: rows_reply_def)
  have page: "page_of m n (map g es) = map g (page_of m n es)" for m n es
    by (simp add: page_of_def take_map drop_map)
  show "ListExecutions uid job l off d' = ListExecutions uid job l off d"
    using rows page assms by (simp add: ListExecutions_def filter_map comp_def rev_map Let_def)
  show "ListRunningExecutions uid d' = ListRunningExecutions uid d"
    using rows assms by (simp add: ListRunningExecutions_def filter_map comp_def)
qed

lemma execution_lists_update:
  assumes "keeps_owner f" and "\<And>j. jb_name (f j) = jb_name j"
  shows "ListExecutions uid job l off (update_job i f d) = ListExecutions uid job l off d"
    and "ListRunningExecutions uid (update_job i f d) = ListRunningExecutions uid d"
proof -
  have "execution_json (update_job i f d) e = execution_json d e" for e
    using assms(2) by (simp add: execution_json_def job_name_of_def any_job_update [OF assms(1)] split: option.split)
  then have "\<And>e. ex_job (id e) = ex_job e \<and> ex_status (id e) = ex_status e \<and>
      execution_json (update_job i f d) (id e) = execution_json d e" by simp
  from execution_lists_same [OF _ this] show "ListExecutions uid job l off (update_job i f d) = ListExecutions uid job l off d"
    "ListRunningExecutions uid (update_job i f d) = ListRunningExecutions uid d"
    by (simp_all add: user_execs_update [OF assms(1)])
qed

lemma execution_lists_cancel:
  "ListExecutions uid job l off (cancel_running i d) = ListExecutions uid job l off d"
  "ListRunningExecutions uid (cancel_running i d) = ListRunningExecutions uid d"
  by (rule execution_lists_same [OF user_execs_cancel];
      simp add: execution_json_def job_name_of_def any_job_def cancel_running_def)+

lemma execution_lists_status:
  "ListExecutions uid job l off (fst (setJobStatus new req now u i d)) = ListExecutions uid job l off d"
  "ListRunningExecutions uid (fst (setJobStatus new req now u i d)) = ListRunningExecutions uid d"
  by (auto simp: setJobStatus_def Let_def keeps_owner_def execution_lists_update split: option.split)

lemma execution_lists_trigger:
  "ListExecutions uid job l off (fst (TriggerJob u i d)) = ListExecutions uid job l off d"
  "ListRunningExecutions uid (fst (TriggerJob u i d)) = ListRunningExecutions uid d"
  by (auto simp: TriggerJob_def execution_lists_cancel split: option.split)

lemma action_keeps_lists:
  assumes "chi_contract pick" and "url_id i" and "session b" and "isAuthenticated (auth b)"
    and "verify (js_text (token (auth b))) = Some c"
    and "ev \<in> {Run, Pause, Resume}" and "JobDetail_click ask i job ev = [action]"
    and "api pick verify wd (intercept (local_storage b) (call_request action)) d = Some (d', v)"
  shows "ListExecutions uid k l off d' = ListExecutions uid k l off d"
    and "ListRunningExecutions uid d' = ListRunningExecutions uid d"
proof -
  note run = api_session [where verify = verify, OF assms(3-5)]
  have "d' \<in> {fst (TriggerJob (cl_user c) (cast_id wd i) d), fst (PauseJob (wd_now wd) (cl_user c) (cast_id wd i) d),
      fst (ResumeJob (wd_now wd) (cl_user c) (cast_id wd i) d)}"
    using assms(6-8) dispatch_by_id [OF assms(1,2)] params_of_calls [OF assms(1,2)]
    by (auto simp: run request_defs for_user_def apsnd_def map_prod_def split: prod.splits)
  then show "ListExecutions uid k l off d' = ListExecutions uid k l off d"
    "ListRunningExecutions uid d' = ListRunningExecutions uid d"
    by (auto simp: PauseJob_def ResumeJob_def execution_lists_status execution_lists_trigger)
qed

text \<open>C20: A change of a job's status is followed by a new fetch of what it changed.  After a job was paused or
  resumed (on its card or its page), every cached query of the dashboard, the list, the detail and the edit
  pages, of this or another job, whose answer the server would now give differently has been invalidated.\<close>

theorem changed_jobs_refetched:
  assumes "chi_contract pick" and "query_contract lib" and "url_id i" and "session b" and "isAuthenticated (auth b)"
    and "verify (js_text (token (auth b))) = Some c"
    and "ev \<in> {Pause, Resume}" and "JobDetail_click ask i job ev = [action]"
    and "api pick verify wd (intercept (local_storage b) (call_request action)) d = Some (d', v)"
    and "(k, q) \<in> set (Dashboard_queries @ Jobs_queries @ JobDetail_queries j @ EditJob_queries j)"
    and "answer_to pick verify wd' b q d' \<noteq> answer_to pick verify wd' b q d" and "ql_data lib cache k \<noteq> None"
  shows "ql_invalidated lib (run_effects lib (JobCard_onSuccess ev) cache) k \<and>
    ql_invalidated lib (run_effects lib (JobDetail_onSuccess i ev) cache) k"
proof -
  have "prefix [''jobs''] k"
  proof (rule ccontr)
    assume "\<not> prefix [''jobs''] k"
    then have q: "q \<in> {getExecutions None (Some 10), getRunningExecutions, getExecutions (Some j) None}"
      using assms(10) by (auto simp: queries_defs split: if_splits)
    then have "rq_headers (call_request q) = client_headers" by (auto simp: request_defs)
    then have "answer_to pick verify wd' b q d' = answer_to pick verify wd' b q d"
      using q action_keeps_lists [OF assms(1,3-6) _ assms(8,9)] assms(7) dispatch_fixed [OF assms(1)]
      by (auto simp: answer_to_def api_session [where verify = verify, OF assms(4-6)] for_user_def)
    then show False using assms(11) by contradiction
  qed
  moreover have "refreshes (JobCard_onSuccess ev) k" "refreshes (JobDetail_onSuccess i ev) k"
    "ClearCache \<notin> set (JobCard_onSuccess ev)" "ClearCache \<notin> set (JobDetail_onSuccess i ev)"
    using calculation assms(7) by (auto simp: JobCard_onSuccess_def)
  ultimately show ?thesis by (simp add: effects_invalidated [OF assms(2,12)])
qed

theorem changed_jobs_refetched_witness:
  "let cache = ql_store map_cache [''jobs''] (Reply (ListJobs ''1'' sample_db)) (ql_new map_cache) in
     \<not> ql_invalidated map_cache cache [''jobs''] \<and>
     ql_invalidated map_cache (run_effects map_cache (JobDetail_onSuccess ''7'' Pause) cache) [''jobs'']"
proof -
  let ?st = "[''token'' \<mapsto> ''tok'']" and ?verify = "Some \<circ> sample_claims"
  let ?b = "\<lparr>local_storage = ?st, auth = init_auth ?st\<rparr>"
  let ?cache = "ql_store map_cache [''jobs''] (Reply (ListJobs ''1'' sample_db)) (ql_new map_cache)"
  let ?d = "fst (PauseJob ''2024-05-03T10:00:00Z'' ''1'' ''7'' sample_db)"
  let ?v = "Reply (snd (PauseJob ''2024-05-03T10:00:00Z'' ''1'' ''7'' sample_db))"
  have s: "session ?b" by (rule session.load)
  have token: "js_text (token (auth ?b)) = ''tok''" and a: "isAuthenticated (auth ?b)"
    by (simp_all add: init_auth_def getItem_def isAuthenticated_def)
  then have c: "?verify (js_text (token (auth ?b))) = Some (sample_claims ''tok'')" by simp
  have i: "url_id ''7''" by (simp add: url_id_def segment_def)
  have click: "JobDetail_click (\<lambda>x. True) ''7'' [] Pause = [pauseJob ''7'']" by simp
  note run = api_session [where verify = ?verify, OF s a c]
  have paused: "api chi_like ?verify sample_world (intercept (local_storage ?b) (call_request (pauseJob ''7''))) sample_db =
      Some (?d, ?v)"
  proof -
    have h: "rq_headers (call_request (pauseJob ''7'')) = client_headers" by (simp add: request_defs)
    have "cast_id sample_world ''7'' = ''7''" "wd_now sample_world = ''2024-05-03T10:00:00Z''" by (simp_all add: sample_world_def cast_id_def)
    then show ?thesis
      unfolding run [OF h]
      using dispatch_by_id(4) [OF chi_like_contract i] params_of_calls(4) [OF chi_like_contract i]
      by (simp add: for_user_def sample_claims_def apsnd_def map_prod_def case_prod_beta')
  qed
  have listed: "answer_to chi_like ?verify sample_world ?b getJobs x = Some (Reply (ListJobs ''1'' x))" for x
    unfolding answer_to_def api_getJobs [where verify = ?verify, OF chi_like_contract s a c] by (simp add: sample_claims_def)
  have "ListJobs ''1'' ?d \<noteq> ListJobs ''1'' sample_db"
    by (simp add: ListJobs_def PauseJob_def setJobStatus_def owned_job_def update_job_def sample_db_def job_json_def
        job_execs_def Let_def)
  then have differ: "answer_to chi_like ?verify sample_world ?b getJobs ?d \<noteq>
      answer_to chi_like ?verify sample_world ?b getJobs sample_db" by (simp add: listed)
  have mounted: "([''jobs''], getJobs) \<in> set (Dashboard_queries @ Jobs_queries @ JobDetail_queries ''7'' @ EditJob_queries ''7'')"
    by (simp add: Jobs_queries_def)
  from changed_jobs_refetched [where verify = ?verify and ev = Pause and cache = ?cache,
      OF chi_like_contract map_cache_contract i s a c _ click paused mounted differ]
  show ?thesis by (simp add: Let_def map_cache_def)
qed

text \<open>Not so for a run.  The request itself changes nothing that is shown; the row that the started run inserts
  afterwards changes the two execution lists of the dashboard, and neither the card nor the page
  invalidates them, the card not even the list of the job: they change with the next interval or mount.\<close>

theorem started_run_not_refetched:
  assumes "owned_job uid i d = Some j" and "begin_run eid i ''manual'' now d = Some d'" and "i \<noteq> ''running''"
  shows "ListRunningExecutions uid d' \<noteq> ListRunningExecutions uid d \<and>
    list_all (\<lambda>es. \<not> refreshes es [''executions''] \<and> \<not> refreshes es [''executions'', ''running''])
      [JobCard_onSuccess Run, JobDetail_onSuccess i Run] \<and>
    \<not> refreshes (JobCard_onSuccess Run) [''executions'', i] \<and> refreshes (JobDetail_onSuccess i Run) [''executions'', i]"
proof -
  have j: "j \<in> set (db_jobs d)" "jb_user j = Some uid" "jb_id j = i" using owned_Some [OF assms(1)] by auto
  have d': "d' = d\<lparr>db_execs := db_execs d @ [start_row eid i ''manual'' now]\<rparr>"
    using assms(2) by (simp add: begin_run_def split: if_splits)
  have "user_execs uid d' = user_execs uid d @ [start_row eid i ''manual'' now]"
    using j by (auto simp: d' user_execs_def list_ex_iff start_row_def)
  then have "length (filter (\<lambda>e. ex_status e = ''running'') (user_execs uid d')) =
      Suc (length (filter (\<lambda>e. ex_status e = ''running'') (user_execs uid d)))"
    by (simp add: start_row_def)
  then have "ListRunningExecutions uid d' \<noteq> ListRunningExecutions uid d"
    unfolding ListRunningExecutions_def rows_reply_def by (auto dest: arg_cong [where f = length])
  then show ?thesis using assms(3) by (simp add: JobCard_onSuccess_def)
qed

text \<open>Not so after a deletion on the job's page, which only goes to the list: the list mounted there
  still has the deleted job, in data that count as fresh. A deletion on the card invalidates it.\<close>

theorem deleted_job_stays_listed:
  assumes "query_contract lib" and "owned_job uid i d = Some j" and "DeleteJob uid i d = (d', reply)"
    and "ql_data lib cache [''jobs''] = Some (Reply (ListJobs uid d))" and "\<not> ql_invalidated lib cache [''jobs'']"
  shows "let left = run_effects lib (JobDetail_onSuccess i Remove) cache in
    ql_data lib left [''jobs''] = Some (Reply (ListJobs uid d)) \<and> \<not> ql_invalidated lib left [''jobs''] \<and>
    ListJobs uid d \<noteq> ListJobs uid d' \<and>
    ql_invalidated lib (run_effects lib (JobCard_onSuccess Remove) cache) [''jobs'']"
proof -
  have j: "j \<in> set (db_jobs d)" "jb_user j = Some uid" "jb_id j = i" using owned_Some [OF assms(2)] by auto
  have "filter (\<lambda>k. jb_user k = Some uid) (db_jobs d') =
      filter (\<lambda>k. jb_id k \<noteq> i) (filter (\<lambda>k. jb_user k = Some uid) (db_jobs d))"
    using assms(2,3) by (auto simp: DeleteJob_def remove_job_def conj_commute)
  moreover have "length (filter (\<lambda>k. jb_id k \<noteq> i) (filter (\<lambda>k. jb_user k = Some uid) (db_jobs d))) <
      length (filter (\<lambda>k. jb_user k = Some uid) (db_jobs d))"
    using j by (intro length_filter_less [of j]) auto
  ultimately have "ListJobs uid d \<noteq> ListJobs uid d'"
    unfolding ListJobs_def by (metis (no_types, lifting) jsval.inject(5) length_map length_rev nat_less_le prod.inject)
  then show ?thesis
    using assms(4,5) by (simp add: Let_def effects_data [OF assms(1)] effects_invalidated [OF assms(1)] JobCard_onSuccess_def)
qed

text \<open>Nor after the deletion of an account, which deletes the account's jobs: the list of all jobs is
  not told.\<close>

theorem deleted_users_jobs_stay_listed:
  assumes "query_contract lib" and "AdminDeleteUser uuid me i d = (d', (204, v))" and "uuid i = i"
    and "j \<in> set (db_jobs d)" and "jb_user j = Some i"
    and "ql_data lib cache [''admin-jobs''] = Some (Reply (AdminListJobs d))"
    and "\<not> ql_invalidated lib cache [''admin-jobs'']"
  shows "let left = run_effects lib AdminUsers_deleted cache in
    ql_data lib left [''admin-jobs''] = Some (Reply (AdminListJobs d)) \<and> \<not> ql_invalidated lib left [''admin-jobs''] \<and>
    AdminListJobs d \<noteq> AdminListJobs d'"
proof -
  have "db_jobs d' = filter (\<lambda>k. jb_user k \<noteq> Some i) (db_jobs d)"
    using assms(2,3) by (auto simp: AdminDeleteUser_def remove_user_def writeError_def Let_def split: option.splits if_splits)
  moreover have "length (filter (\<lambda>k. jb_user k \<noteq> Some i) (db_jobs d)) < length (db_jobs d)"
    using assms(4,5) by (intro length_filter_less [of j]) auto
  ultimately have "AdminListJobs d \<noteq> AdminListJobs d'"
    unfolding AdminListJobs_def by (metis (no_types, lifting) jsval.inject(5) length_map length_rev nat_less_le prod.inject)
  then show ?thesis
    using assms(6,7) by (simp add: Let_def effects_data [OF assms(1)] effects_invalidated [OF assms(1)] AdminUsers_deleted_def)
qed

end
