(* ===== verification/Scheduler.thy ===== *)
theory Scheduler
  imports JobFlows Executor ReportApi
begin

text \<open>
  The worker's scheduler, \<open>scheduler/scheduler.go\<close>: the table of scheduled jobs, its reconciliation with
  the database and the callback that enforces the concurrency policy.  The cron library is a parameter:
  a state with the registered functions, read as the jobs whose runner they are, and the operations the
  scheduler calls.  A context is a number; cancelling it puts it on the list of cancelled contexts.
  \<open>time\<close> is the instant a timestamp of the database stands for.  Logging is left out.
\<close>

section \<open>The cron library\<close>

record 'c cron_lib =
  cl_jobs :: "'c \<Rightarrow> nat \<rightharpoonup> string \<times> job"
  cl_parses :: "string \<Rightarrow> bool"
  cl_add :: "'c \<Rightarrow> string \<Rightarrow> job \<Rightarrow> (nat \<times> 'c) option"
  cl_remove :: "'c \<Rightarrow> nat \<Rightarrow> 'c"
  cl_new :: 'c

text \<open>What is documented of it: \<open>AddFunc\<close> fails for an expression that does not parse and otherwise
  registers the function under a new id, which is never 0; \<open>Remove\<close> takes an id out.\<close>

definition cron_contract :: "'c cron_lib \<Rightarrow> bool" where
  "cron_contract lib \<longleftrightarrow>
     cl_jobs lib (cl_new lib) = Map.empty \<and>
     (\<forall>c i. cl_jobs lib (cl_remove lib c i) = (cl_jobs lib c)(i := None)) \<and>
     (\<forall>c x j. cl_add lib c x j = None \<longleftrightarrow> \<not> cl_parses lib x) \<and>
     (\<forall>c x j i c'. cl_add lib c x j = Some (i, c') \<longrightarrow>
        i \<noteq> 0 \<and> cl_jobs lib c i = None \<and> cl_jobs lib c' = (cl_jobs lib c)(i \<mapsto> (x, j)))"

section \<open>State\<close>

record entry =
  en_cron :: nat
  en_at :: int
  en_cancel :: "nat option"

record run =
  rn_job :: job
  rn_ctx :: "nat option"
  rn_trigger :: string

text \<open>\<open>wk_fired\<close> holds the callbacks the library has started and that have not taken
  effect yet, \<open>wk_pending\<close> the goroutines that have not inserted their row,
  \<open>wk_live\<close> those that have.\<close>

record 'c worker =
  wk_entries :: "string \<rightharpoonup> entry"
  wk_cron :: 'c
  wk_ctx :: nat
  wk_cancelled :: "nat list"
  wk_fired :: "job list"
  wk_pending :: "run list"
  wk_live :: "(string \<times> run) list"

definition New :: "'c cron_lib \<Rightarrow> 'c worker" where
  "New lib = \<lparr>wk_entries = Map.empty, wk_cron = cl_new lib, wk_ctx = 0, wk_cancelled = [], wk_fired = [],
     wk_pending = [], wk_live = []\<rparr>"

section \<open>sync\<close>

definition cancel :: "nat option \<Rightarrow> 'c worker \<Rightarrow> 'c worker" where
  "cancel c w = (case c of None \<Rightarrow> w | Some n \<Rightarrow> w\<lparr>wk_cancelled := n # wk_cancelled w\<rparr>)"

definition drop_entry :: "'c cron_lib \<Rightarrow> string \<Rightarrow> 'c worker \<Rightarrow> 'c worker" where
  "drop_entry lib i w =
     (case wk_entries w i of
        None \<Rightarrow> w
      | Some e \<Rightarrow> (cancel (en_cancel e) w)
          \<lparr>wk_cron := cl_remove lib (wk_cron w) (en_cron e), wk_entries := (wk_entries w)(i := None)\<rparr>)"

text \<open>The loop over the map visits the ids in some \<open>order\<close>.\<close>

definition sync_remove :: "'c cron_lib \<Rightarrow> string list \<Rightarrow> string list \<Rightarrow> 'c worker \<Rightarrow> 'c worker" where
  "sync_remove lib active order w =
     fold (\<lambda>i w. if i \<in> set active then w else drop_entry lib i w) order w"

definition cron_expr :: "job \<Rightarrow> string" where
  "cron_expr j = ''CRON_TZ='' @ jb_timezone j @ '' '' @ jb_cron j"

definition add_entry :: "'c cron_lib \<Rightarrow> int \<Rightarrow> job \<Rightarrow> 'c worker \<Rightarrow> 'c worker" where
  "add_entry lib now j w =
     (case cl_add lib (wk_cron w) (cron_expr j) j of
        None \<Rightarrow> w
      | Some (i, c) \<Rightarrow>
          w\<lparr>wk_cron := c, wk_entries := (wk_entries w)(jb_id j \<mapsto> \<lparr>en_cron = i, en_at = now, en_cancel = None\<rparr>)\<rparr>)"

definition up_to_date :: "(string \<Rightarrow> int) \<Rightarrow> job \<Rightarrow> 'c worker \<Rightarrow> bool" where
  "up_to_date time j w \<longleftrightarrow>
     (case wk_entries w (jb_id j) of None \<Rightarrow> False | Some e \<Rightarrow> \<not> en_at e < time (jb_updated j))"

definition sync_one :: "'c cron_lib \<Rightarrow> (string \<Rightarrow> int) \<Rightarrow> int \<Rightarrow> job \<Rightarrow> 'c worker \<Rightarrow> 'c worker" where
  "sync_one lib time now j w =
     (if up_to_date time j w then w else add_entry lib now j (drop_entry lib (jb_id j) w))"

definition active_jobs :: "db \<Rightarrow> job list" where
  "active_jobs d = filter (\<lambda>j. jb_status j = ''active'') (db_jobs d)"

text \<open>\<open>now k\<close> is the time when the loop schedules the \<open>k\<close>-th job.\<close>

definition sync ::
    "'c cron_lib \<Rightarrow> (string \<Rightarrow> int) \<Rightarrow> string list \<Rightarrow> (nat \<Rightarrow> int) \<Rightarrow> job list \<Rightarrow> 'c worker \<Rightarrow> 'c worker" where
  "sync lib time order now jobs w =
     fold (\<lambda>(k, j). sync_one lib time (now k) j) (enumerate 0 jobs)
       (sync_remove lib (map jb_id jobs) order w)"

section \<open>makeRunner\<close>

definition zero_time :: int where
  "zero_time = - 62135596800000000"

definition spawn :: "job \<Rightarrow> nat option \<Rightarrow> string \<Rightarrow> 'c worker \<Rightarrow> 'c worker" where
  "spawn j c trigger w = w\<lparr>wk_pending := wk_pending w @ [\<lparr>rn_job = j, rn_ctx = c, rn_trigger = trigger\<rparr>]\<rparr>"

text \<open>A missing entry reads as the zero value of its type and is stored again.\<close>

definition entry_or_zero :: "string \<Rightarrow> 'c worker \<Rightarrow> entry" where
  "entry_or_zero i w =
     (case wk_entries w i of None \<Rightarrow> \<lparr>en_cron = 0, en_at = zero_time, en_cancel = None\<rparr> | Some e \<Rightarrow> e)"

definition makeRunner :: "job \<Rightarrow> 'c worker \<times> db \<Rightarrow> 'c worker \<times> db" where
  "makeRunner j s =
     (case s of (w, d) \<Rightarrow>
       if jb_policy j = ''Forbid'' then
         (if HasRunning (jb_id j) d then (w, d) else (spawn j None ''schedule'' w, d))
       else if jb_policy j = ''Replace'' then
         (let e = entry_or_zero (jb_id j) w; c = wk_ctx w in
          (spawn j (Some c) ''schedule''
             ((cancel (en_cancel e) w)
               \<lparr>wk_ctx := c + 1, wk_entries := (wk_entries w)(jb_id j \<mapsto> e\<lparr>en_cancel := Some c\<rparr>)\<rparr>),
           cancel_running (jb_id j) d))
       else (spawn j None ''schedule'' w, d))"

section \<open>The table and the library\<close>

text \<open>Every registered function belongs to the entry of its job, and every entry but one that a late
  callback stored without a registration has its function.\<close>

definition table_ok :: "'c cron_lib \<Rightarrow> 'c worker \<Rightarrow> bool" where
  "table_ok lib w \<longleftrightarrow>
     cl_jobs lib (wk_cron w) 0 = None \<and>
     (\<forall>n x j. cl_jobs lib (wk_cron w) n = Some (x, j) \<longrightarrow>
        x = cron_expr j \<and> (\<exists>e. wk_entries w (jb_id j) = Some e \<and> en_cron e = n)) \<and>
     (\<forall>i e. wk_entries w i = Some e \<longrightarrow> en_cron e = 0 \<or>
        (\<exists>x j. cl_jobs lib (wk_cron w) (en_cron e) = Some (x, j) \<and> jb_id j = i))"

lemma cancel_sel [simp]:
  "wk_entries (cancel c w) = wk_entries w" "wk_cron (cancel c w) = wk_cron w" "wk_ctx (cancel c w) = wk_ctx w"
  "wk_fired (cancel c w) = wk_fired w" "wk_pending (cancel c w) = wk_pending w" "wk_live (cancel c w) = wk_live w"
  by (simp_all add: cancel_def split: option.split)

lemma drop_entry_entries [simp]: "wk_entries (drop_entry lib i w) = (wk_entries w)(i := None)"
  by (auto simp: drop_entry_def split: option.split)

lemma drop_entry_runs [simp]:
  "wk_ctx (drop_entry lib i w) = wk_ctx w" "wk_fired (drop_entry lib i w) = wk_fired w"
  "wk_pending (drop_entry lib i w) = wk_pending w" "wk_live (drop_entry lib i w) = wk_live w"
  by (simp_all add: drop_entry_def split: option.split)

lemma add_entry_runs [simp]:
  "wk_ctx (add_entry lib now j w) = wk_ctx w" "wk_fired (add_entry lib now j w) = wk_fired w"
  "wk_pending (add_entry lib now j w) = wk_pending w" "wk_live (add_entry lib now j w) = wk_live w"
  "wk_cancelled (add_entry lib now j w) = wk_cancelled w"
  by (simp_all add: add_entry_def split: option.split prod.split)

lemma table_ok_New: "cron_contract lib \<Longrightarrow> table_ok lib (New lib)"
  by (simp add: table_ok_def New_def cron_contract_def)

lemma table_okD:
  assumes "table_ok lib w"
  shows "cl_jobs lib (wk_cron w) 0 = None"
    and "cl_jobs lib (wk_cron w) n = Some (x, j) \<Longrightarrow> x = cron_expr j"
    and "cl_jobs lib (wk_cron w) n = Some (x, j) \<Longrightarrow> \<exists>e. wk_entries w (jb_id j) = Some e \<and> en_cron e = n"
    and "wk_entries w i = Some e \<Longrightarrow> en_cron e \<noteq> 0 \<Longrightarrow>
      \<exists>x j. cl_jobs lib (wk_cron w) (en_cron e) = Some (x, j) \<and> jb_id j = i"
  using assms unfolding table_ok_def by (blast, blast, blast, metis)

lemma table_okI:
  assumes "cl_jobs lib (wk_cron w) 0 = None"
    and "\<And>n x j. cl_jobs lib (wk_cron w) n = Some (x, j) \<Longrightarrow>
      x = cron_expr j \<and> (\<exists>e. wk_entries w (jb_id j) = Some e \<and> en_cron e = n)"
    and "\<And>i e. wk_entries w i = Some e \<Longrightarrow> en_cron e \<noteq> 0 \<Longrightarrow>
      \<exists>x j. cl_jobs lib (wk_cron w) (en_cron e) = Some (x, j) \<and> jb_id j = i"
  shows "table_ok lib w"
  using assms unfolding table_ok_def by blast

text \<open>Two entries never share a registration.\<close>

lemma entries_apart:
  assumes "table_ok lib w" and "wk_entries w i = Some e" and "wk_entries w k = Some f" and "i \<noteq> k"
    and "en_cron f \<noteq> 0"
  shows "en_cron e \<noteq> en_cron f"
  using table_okD(4) [OF assms(1,2)] table_okD(4) [OF assms(1,3,5)] assms(4,5) by fastforce

lemma drop_entry_jobs:
  assumes "cron_contract lib"
  shows "cl_jobs lib (wk_cron (drop_entry lib i w)) =
    (case wk_entries w i of None \<Rightarrow> cl_jobs lib (wk_cron w)
     | Some e \<Rightarrow> (cl_jobs lib (wk_cron w))(en_cron e := None))"
  using assms by (simp add: drop_entry_def cron_contract_def split: option.split)

lemma drop_entry_cron:
  assumes "cron_contract lib" and "table_ok lib w" and "wk_entries w k = Some f" and "k \<noteq> i"
  shows "cl_jobs lib (wk_cron (drop_entry lib i w)) (en_cron f) = cl_jobs lib (wk_cron w) (en_cron f)"
  using entries_apart [OF assms(2) _ assms(3), of i] table_okD(1) [OF assms(2)] assms(4)
  by (cases "en_cron f = 0") (auto simp: drop_entry_jobs [OF assms(1)] split: option.split)

lemma table_ok_drop:
  assumes "cron_contract lib" and "table_ok lib w"
  shows "table_ok lib (drop_entry lib i w)"
proof (rule table_okI)
  let ?w = "drop_entry lib i w"
  have old: "cl_jobs lib (wk_cron w) n = Some p" "\<forall>e. wk_entries w i = Some e \<longrightarrow> n \<noteq> en_cron e"
    if "cl_jobs lib (wk_cron ?w) n = Some p" for n p
    using that by (auto simp: drop_entry_jobs [OF assms(1)] split: option.splits if_splits)
  show "cl_jobs lib (wk_cron ?w) 0 = None"
    using old(1) [of 0] table_okD(1) [OF assms(2)] by (cases "cl_jobs lib (wk_cron ?w) 0") auto
  show "x = cron_expr j \<and> (\<exists>e. wk_entries ?w (jb_id j) = Some e \<and> en_cron e = n)"
    if here: "cl_jobs lib (wk_cron ?w) n = Some (x, j)" for n x j
  proof -
    obtain e where e: "wk_entries w (jb_id j) = Some e" "en_cron e = n"
      using table_okD(3) [OF assms(2) old(1) [OF here]] by blast
    then have "jb_id j \<noteq> i" using old(2) [OF here] by auto
    then show ?thesis using e table_okD(2) [OF assms(2) old(1) [OF here]] by simp
  qed
  show "\<exists>x j. cl_jobs lib (wk_cron ?w) (en_cron e) = Some (x, j) \<and> jb_id j = k"
    if "wk_entries ?w k = Some e" "en_cron e \<noteq> 0" for k e
  proof -
    have "k \<noteq> i" "wk_entries w k = Some e" using that(1) by (auto split: if_splits)
    then show ?thesis
      using drop_entry_cron [OF assms, of k e i] table_okD(4) [OF assms(2) _ that(2)] by simp
  qed
qed

lemma add_entry_cases:
  assumes "cron_contract lib"
  obtains "\<not> cl_parses lib (cron_expr j)" "add_entry lib now j w = w"
  | n c where "cl_parses lib (cron_expr j)" "n \<noteq> 0" "cl_jobs lib (wk_cron w) n = None"
      "cl_jobs lib c = (cl_jobs lib (wk_cron w))(n \<mapsto> (cron_expr j, j))"
      "add_entry lib now j w = w\<lparr>wk_cron := c,
         wk_entries := (wk_entries w)(jb_id j \<mapsto> \<lparr>en_cron = n, en_at = now, en_cancel = None\<rparr>)\<rparr>"
proof (cases "cl_add lib (wk_cron w) (cron_expr j) j")
  case None
  then show ?thesis using assms that(1) by (simp add: add_entry_def cron_contract_def)
next
  case (Some p)
  obtain n c where p: "p = (n, c)" by (cases p)
  have "n \<noteq> 0" "cl_jobs lib (wk_cron w) n = None"
    "cl_jobs lib c = (cl_jobs lib (wk_cron w))(n \<mapsto> (cron_expr j, j))"
    using assms Some unfolding p cron_contract_def by blast+
  moreover have "cl_parses lib (cron_expr j)"
    using assms Some unfolding cron_contract_def by (metis option.distinct(1))
  ultimately show ?thesis using that(2) Some by (simp add: add_entry_def p)
qed

lemma table_ok_add:
  assumes "cron_contract lib" and "table_ok lib w" and "wk_entries w (jb_id j) = None"
  shows "table_ok lib (add_entry lib now j w)"
proof (rule add_entry_cases [OF assms(1), of j now w])
  fix n c
  assume n: "n \<noteq> 0" "cl_jobs lib (wk_cron w) n = None"
    "cl_jobs lib c = (cl_jobs lib (wk_cron w))(n \<mapsto> (cron_expr j, j))"
    and w: "add_entry lib now j w = w\<lparr>wk_cron := c,
         wk_entries := (wk_entries w)(jb_id j \<mapsto> \<lparr>en_cron = n, en_at = now, en_cancel = None\<rparr>)\<rparr>"
  have other: "jb_id k \<noteq> jb_id j" if "cl_jobs lib (wk_cron w) m = Some (x, k)" for m x k
    using table_okD(3) [OF assms(2) that] assms(3) by auto
  show ?thesis
    unfolding w
  proof (rule table_okI, goal_cases)
    case 1
    then show ?case using n table_okD(1) [OF assms(2)] by simp
  next
    case (2 m x k)
    show ?case
    proof (cases "m = n")
      case True
      then show ?thesis using 2 n by auto
    next
      case False
      then have old: "cl_jobs lib (wk_cron w) m = Some (x, k)" using 2 n by simp
      then show ?thesis using table_okD(2,3) [OF assms(2) old] other [OF old] by auto
    qed
  next
    case (3 i e)
    show ?case
    proof (cases "i = jb_id j")
      case True
      then show ?thesis using 3 n by auto
    next
      case False
      then obtain x k where "cl_jobs lib (wk_cron w) (en_cron e) = Some (x, k)" "jb_id k = i"
        using 3 table_okD(4) [OF assms(2), of i e] by auto
      moreover then have "en_cron e \<noteq> n" using n(2) by auto
      ultimately show ?thesis using n by simp
    qed
  qed
qed (simp add: assms(2))

lemma add_entry_other:
  assumes "cron_contract lib" and "k \<noteq> jb_id j"
  shows "wk_entries (add_entry lib now j w) k = wk_entries w k"
    and "cl_jobs lib (wk_cron w) n = Some p \<Longrightarrow> cl_jobs lib (wk_cron (add_entry lib now j w)) n = Some p"
  by (rule add_entry_cases [OF assms(1), of j now w]; use assms(2) in auto)+

section \<open>What a step of sync leaves alone\<close>

definition same_at :: "'c cron_lib \<Rightarrow> string \<Rightarrow> 'c worker \<Rightarrow> 'c worker \<Rightarrow> bool" where
  "same_at lib k w w' \<longleftrightarrow>
     wk_entries w' k = wk_entries w k \<and>
     (\<forall>f. wk_entries w k = Some f \<longrightarrow>
        cl_jobs lib (wk_cron w') (en_cron f) = cl_jobs lib (wk_cron w) (en_cron f))"

definition scheduled :: "'c cron_lib \<Rightarrow> (nat \<Rightarrow> int) \<Rightarrow> job \<Rightarrow> 'c worker \<Rightarrow> bool" where
  "scheduled lib now j w \<longleftrightarrow>
     (case wk_entries w (jb_id j) of
        None \<Rightarrow> False
      | Some e \<Rightarrow> cl_jobs lib (wk_cron w) (en_cron e) = Some (cron_expr j, j) \<and> en_at e \<in> range now)"

lemma same_at_refl [simp]: "same_at lib k w w"
  by (simp add: same_at_def)

lemma same_at_trans: "same_at lib k w w' \<Longrightarrow> same_at lib k w' w'' \<Longrightarrow> same_at lib k w w''"
  by (simp add: same_at_def)

lemma same_at_up_to_date: "same_at lib (jb_id j) w w' \<Longrightarrow> up_to_date time j w' = up_to_date time j w"
  by (simp add: same_at_def up_to_date_def)

lemma same_at_scheduled: "same_at lib (jb_id j) w w' \<Longrightarrow> scheduled lib now j w \<Longrightarrow> scheduled lib now j w'"
  by (auto simp: same_at_def scheduled_def split: option.splits)

lemma same_at_drop:
  "cron_contract lib \<Longrightarrow> table_ok lib w \<Longrightarrow> k \<noteq> i \<Longrightarrow> same_at lib k w (drop_entry lib i w)"
  by (simp add: same_at_def drop_entry_cron)

lemma same_at_add:
  assumes "cron_contract lib" and "table_ok lib w" and "k \<noteq> jb_id j"
  shows "same_at lib k w (add_entry lib now j w)"
proof (rule add_entry_cases [OF assms(1), of j now w])
  fix n c
  assume n: "n \<noteq> 0" "cl_jobs lib (wk_cron w) n = None"
    "cl_jobs lib c = (cl_jobs lib (wk_cron w))(n \<mapsto> (cron_expr j, j))"
    and w: "add_entry lib now j w = w\<lparr>wk_cron := c,
         wk_entries := (wk_entries w)(jb_id j \<mapsto> \<lparr>en_cron = n, en_at = now, en_cancel = None\<rparr>)\<rparr>"
  have "en_cron f \<noteq> n" if "wk_entries w k = Some f" for f
    using table_okD(4) [OF assms(2) that] n(1,2) by (cases "en_cron f = 0") auto
  then show ?thesis using n(3) assms(3) by (simp add: same_at_def w)
qed simp

lemma add_entry_own:
  assumes "cron_contract lib" and "wk_entries w (jb_id j) = None"
  shows "if cl_parses lib (cron_expr j) then scheduled lib now' j (add_entry lib (now' k) j w)
    else wk_entries (add_entry lib (now' k) j w) (jb_id j) = None"
  by (rule add_entry_cases [OF assms(1), of j "now' k" w]) (simp_all add: scheduled_def assms(2))

lemma up_to_date_entry:
  "up_to_date time j w \<longleftrightarrow> (\<exists>e. wk_entries w (jb_id j) = Some e \<and> time (jb_updated j) \<le> en_at e)"
  by (auto simp: up_to_date_def split: option.split)

text \<open>One job: what becomes of its entry.\<close>

definition settled :: "'c cron_lib \<Rightarrow> (string \<Rightarrow> int) \<Rightarrow> (nat \<Rightarrow> int) \<Rightarrow> 'c worker \<Rightarrow> 'c worker \<Rightarrow> job \<Rightarrow> bool" where
  "settled lib time now w w' j \<longleftrightarrow>
     (if up_to_date time j w then same_at lib (jb_id j) w w'
      else if cl_parses lib (cron_expr j) then scheduled lib now j w'
      else wk_entries w' (jb_id j) = None)"

lemma sync_one_facts:
  assumes "cron_contract lib" and "table_ok lib w"
  shows "table_ok lib (sync_one lib time (now k) j w)"
    and "i \<noteq> jb_id j \<Longrightarrow> same_at lib i w (sync_one lib time (now k) j w)"
    and "settled lib time now w (sync_one lib time (now k) j w) j"
proof -
  note drop = table_ok_drop [OF assms, of "jb_id j"]
  show "table_ok lib (sync_one lib time (now k) j w)"
    using assms table_ok_add [OF assms(1) drop] by (simp add: sync_one_def)
  show "same_at lib i w (sync_one lib time (now k) j w)" if "i \<noteq> jb_id j"
    using same_at_trans [OF same_at_drop [OF assms that] same_at_add [OF assms(1) drop that]]
    by (simp add: sync_one_def)
  show "settled lib time now w (sync_one lib time (now k) j w) j"
    using add_entry_own [OF assms(1), of "drop_entry lib (jb_id j) w" j now k]
    by (simp add: settled_def sync_one_def)
qed

lemma settled_same:
  assumes "settled lib time now w w' j" and "same_at lib (jb_id j) w' w''"
  shows "settled lib time now w w'' j"
  using assms same_at_trans [of lib "jb_id j" w w' w''] same_at_scheduled [of lib j w' w'' now]
  by (auto simp: settled_def same_at_def split: if_splits)

lemma sync_loop:
  assumes "cron_contract lib" and "table_ok lib w" and "distinct (map jb_id jobs)"
  shows "let w' = fold (\<lambda>(k, j). sync_one lib time (now k) j) (enumerate m jobs) w in
    table_ok lib w' \<and> (\<forall>i. i \<notin> jb_id ` set jobs \<longrightarrow> same_at lib i w w') \<and>
    (\<forall>j \<in> set jobs. settled lib time now w w' j)"
  using assms(2,3)
proof (induction jobs arbitrary: m w)
  case (Cons j jobs)
  let ?w1 = "sync_one lib time (now m) j w"
  let ?w' = "fold (\<lambda>(k, j). sync_one lib time (now k) j) (enumerate (Suc m) jobs) ?w1"
  note one = sync_one_facts [OF assms(1) Cons.prems(1), where time = time and now = now and k = m and j = j]
  have dist: "jb_id j \<notin> jb_id ` set jobs" "distinct (map jb_id jobs)" using Cons.prems(2) by auto
  have "table_ok lib ?w'" and same: "\<And>i. i \<notin> jb_id ` set jobs \<Longrightarrow> same_at lib i ?w1 ?w'"
    and rest: "\<And>k. k \<in> set jobs \<Longrightarrow> settled lib time now ?w1 ?w' k"
    using Cons.IH [OF one(1) dist(2), of "Suc m"] unfolding Let_def by blast+
  moreover have "settled lib time now w ?w' j"
    by (rule settled_same [OF one(3) same [OF dist(1)]])
  moreover have "settled lib time now w ?w' k" if "k \<in> set jobs" for k
  proof -
    have "jb_id k \<noteq> jb_id j" using that dist(1) by (metis imageI)
    from one(2) [OF this] rest [OF that] show ?thesis
      using same_at_trans [of lib "jb_id k" w ?w1 ?w'] same_at_up_to_date [of lib k w ?w1 time]
      by (auto simp: settled_def)
  qed
  moreover have "same_at lib i w ?w'" if "i \<notin> jb_id ` set (j # jobs)" for i
    using that one(2) [of i] same [of i] same_at_trans [of lib i w ?w1 ?w'] by simp
  ultimately show ?case by (simp add: Let_def)
qed simp

lemma sync_remove_facts:
  assumes "cron_contract lib" and "table_ok lib w"
  shows "table_ok lib (sync_remove lib active order w)"
    and "i \<in> set active \<Longrightarrow> same_at lib i w (sync_remove lib active order w)"
    and "wk_entries (sync_remove lib active order w) =
      (\<lambda>i. if i \<in> set order \<and> i \<notin> set active then None else wk_entries w i)"
proof -
  have "table_ok lib (sync_remove lib active order w) \<and>
      (i \<in> set active \<longrightarrow> same_at lib i w (sync_remove lib active order w)) \<and>
      wk_entries (sync_remove lib active order w) =
        (\<lambda>i. if i \<in> set order \<and> i \<notin> set active then None else wk_entries w i)"
    using assms(2)
  proof (induction order arbitrary: w)
    case (Cons k order)
    let ?w = "if k \<in> set active then w else drop_entry lib k w"
    have ok: "table_ok lib ?w" using table_ok_drop [OF assms(1) Cons.prems] Cons.prems by simp
    have "i \<in> set active \<Longrightarrow> same_at lib i w ?w"
      using same_at_drop [OF assms(1) Cons.prems, of i k] by auto
    moreover have "sync_remove lib active (k # order) w = sync_remove lib active order ?w"
      by (simp add: sync_remove_def)
    ultimately show ?case
      using Cons.IH [OF ok] same_at_trans [of lib i w ?w] by (auto simp: fun_eq_iff)
  qed (simp add: sync_remove_def)
  then show "table_ok lib (sync_remove lib active order w)"
    and "i \<in> set active \<Longrightarrow> same_at lib i w (sync_remove lib active order w)"
    and "wk_entries (sync_remove lib active order w) =
      (\<lambda>i. if i \<in> set order \<and> i \<notin> set active then None else wk_entries w i)"
    by blast+
qed

lemma sync_facts:
  assumes "cron_contract lib" and "table_ok lib w" and "distinct (map jb_id jobs)"
  shows "table_ok lib (sync lib time order now jobs w)"
    and "dom (wk_entries w) \<subseteq> set order \<Longrightarrow> dom (wk_entries (sync lib time order now jobs w)) \<subseteq> jb_id ` set jobs"
    and "j \<in> set jobs \<Longrightarrow> settled lib time now w (sync lib time order now jobs w) j"
proof -
  let ?w1 = "sync_remove lib (map jb_id jobs) order w"
  let ?w' = "sync lib time order now jobs w"
  note removed = sync_remove_facts [OF assms(1,2), where active = "map jb_id jobs" and order = order]
  have loop: "table_ok lib ?w'" "\<And>i. i \<notin> jb_id ` set jobs \<Longrightarrow> same_at lib i ?w1 ?w'"
    "\<And>j. j \<in> set jobs \<Longrightarrow> settled lib time now ?w1 ?w' j"
    using sync_loop [OF assms(1) removed(1) assms(3), of time now 0] unfolding Let_def sync_def by blast+
  show "table_ok lib ?w'" by (rule loop(1))
  show "dom (wk_entries ?w') \<subseteq> jb_id ` set jobs" if "dom (wk_entries w) \<subseteq> set order"
  proof (rule subsetI, rule ccontr)
    fix i
    assume i: "i \<in> dom (wk_entries ?w')" "i \<notin> jb_id ` set jobs"
    then have "wk_entries ?w' i = wk_entries ?w1 i" using loop(2) by (simp add: same_at_def)
    moreover have "wk_entries ?w1 i = None" using removed(3) i(2) that by (auto simp: dom_def)
    ultimately show False using i(1) by auto
  qed
  show "settled lib time now w ?w' j" if "j \<in> set jobs"
    using loop(3) [OF that] removed(2) [where i = "jb_id j"] that
      same_at_trans [of lib "jb_id j" w ?w1 ?w'] same_at_up_to_date [of lib j w ?w1 time]
    by (auto simp: settled_def)
qed

section \<open>An instance of the library\<close>

definition list_cron :: "(string \<Rightarrow> bool) \<Rightarrow> (nat \<times> string \<times> job) list cron_lib" where
  "list_cron parses =
     \<lparr>cl_jobs = map_of, cl_parses = parses,
      cl_add = (\<lambda>c x j. if parses x then let n = Suc (fold max (map fst c) 0) in Some (n, (n, x, j) # c) else None),
      cl_remove = (\<lambda>c i. filter (\<lambda>(n, p). n \<noteq> i) c), cl_new = []\<rparr>"

lemma list_cron_contract: "cron_contract (list_cron parses)"
proof -
  have "map_of (filter (\<lambda>(n, p). n \<noteq> i) c) = (map_of c)(i := None)" for c :: "(nat \<times> string \<times> job) list" and i
    by (induction c) (auto simp: fun_eq_iff)
  moreover have "map_of c (Suc (fold max (map fst c) 0)) = None" for c :: "(nat \<times> string \<times> job) list"
    using fold_max_ge(2) [of _ "map fst c" 0] by (fastforce simp: map_of_eq_None_iff)
  ultimately show ?thesis
    by (auto simp: cron_contract_def list_cron_def Let_def split: if_splits)
qed

section \<open>Properties\<close>

text \<open>C10: A sync makes the schedule match the active jobs.  Whatever was scheduled before, afterwards only
  active jobs are; a job whose entry was made at the time of its last change or later keeps its entry and
  function as they were; every other active job is scheduled with its present expression and data, or not
  at all if the expression does not parse; and table and library stay consistent, one function per entry.\<close>

theorem sync_reconciles:
  assumes "cron_contract lib" and "table_ok lib w" and "distinct (map jb_id (db_jobs d))"
    and "dom (wk_entries w) \<subseteq> set order"
  shows "let w' = sync lib time order now (active_jobs d) w in
    table_ok lib w' \<and>
    (\<forall>n x j. cl_jobs lib (wk_cron w') n = Some (x, j) \<longrightarrow> jb_id j \<in> jb_id ` set (active_jobs d)) \<and>
    (\<forall>j \<in> set (active_jobs d).
       if \<exists>e. wk_entries w (jb_id j) = Some e \<and> time (jb_updated j) \<le> en_at e then same_at lib (jb_id j) w w'
       else if cl_parses lib (cron_expr j) then scheduled lib now j w'
       else jb_id j \<notin> dom (wk_entries w'))"
proof -
  let ?w' = "sync lib time order now (active_jobs d) w"
  have dist: "distinct (map jb_id (active_jobs d))"
    using assms(3) by (simp add: active_jobs_def distinct_map_filter_id)
  note facts = sync_facts [OF assms(1,2) dist, where time = time and order = order and now = now]
  have "jb_id j \<in> jb_id ` set (active_jobs d)" if "cl_jobs lib (wk_cron ?w') n = Some (x, j)" for n x j
    using table_okD(3) [OF facts(1) that] facts(2) [OF assms(4)] by (auto simp: dom_def)
  moreover have "if \<exists>e. wk_entries w (jb_id j) = Some e \<and> time (jb_updated j) \<le> en_at e then same_at lib (jb_id j) w ?w'
       else if cl_parses lib (cron_expr j) then scheduled lib now j ?w'
       else jb_id j \<notin> dom (wk_entries ?w')" if "j \<in> set (active_jobs d)" for j
    using facts(3) [OF that] by (simp add: settled_def dom_def up_to_date_entry)
  ultimately show ?thesis using facts(1) unfolding Let_def by blast
qed

theorem sync_reconciles_witness:
  "let lib = list_cron (\<lambda>x. True); j = hd (db_jobs example_db);
       w = sync lib (\<lambda>t. 0) [] (\<lambda>k. 1) (active_jobs example_db) (New lib)
   in table_ok lib w \<and> scheduled lib (\<lambda>k. 1) j w"
proof -
  let ?lib = "list_cron (\<lambda>x. True)"
  have j: "hd (db_jobs example_db) \<in> set (active_jobs example_db)"
    by (simp add: active_jobs_def example_db_def example_job_def)
  have "distinct (map jb_id (db_jobs example_db))" "dom (wk_entries (New ?lib)) \<subseteq> set []"
    by (simp_all add: example_db_def New_def)
  note all = sync_reconciles [OF list_cron_contract table_ok_New [OF list_cron_contract] this,
    where time = "\<lambda>t. 0" and now = "\<lambda>k. 1", unfolded Let_def]
  have "wk_entries (New ?lib) = Map.empty" by (simp add: New_def)
  moreover have "cl_parses ?lib (cron_expr (hd (db_jobs example_db)))" by (simp add: list_cron_def)
  ultimately show ?thesis
    using all [THEN conjunct1] bspec [OF all [THEN conjunct2, THEN conjunct2] j] unfolding Let_def by simp
qed

text \<open>An edit made during a sync goes unnoticed.  An entry remembers the time it was made, not the
  version of the job it was made from: if a job is scheduled by a sync and its row is changed with a
  timestamp that is not later than that time, the next sync keeps running the old version.\<close>

theorem edit_during_sync_missed:
  assumes "cron_contract lib" and "table_ok lib w"
    and "distinct (map jb_id jobs)" and "j \<in> set jobs"
    and "\<not> up_to_date time j w" and "cl_parses lib (cron_expr j)"
    and "distinct (map jb_id jobs')" and "j' \<in> set jobs'" and "jb_id j' = jb_id j"
    and "\<And>k. time (jb_updated j') \<le> now k"
  shows "\<exists>n. cl_jobs lib (wk_cron (sync lib time order' now' jobs' (sync lib time order now jobs w))) n =
    Some (cron_expr j, j)"
proof -
  let ?w1 = "sync lib time order now jobs w"
  let ?w2 = "sync lib time order' now' jobs' ?w1"
  note first = sync_facts [OF assms(1,2,3), where time = time and order = order and now = now]
  have "scheduled lib now j ?w1" using first(3) [OF assms(4)] assms(5,6) by (simp add: settled_def)
  then obtain e where e: "wk_entries ?w1 (jb_id j) = Some e" "en_at e \<in> range now"
      "cl_jobs lib (wk_cron ?w1) (en_cron e) = Some (cron_expr j, j)"
    by (auto simp: scheduled_def split: option.splits)
  have "up_to_date time j' ?w1"
    using e(1,2) assms(9,10) by (auto simp: up_to_date_def not_less)
  then have "same_at lib (jb_id j) ?w1 ?w2"
    using sync_facts(3) [OF assms(1) first(1) assms(7,8), where time = time and order = order' and now = now'] assms(9)
    by (simp add: settled_def)
  then have "cl_jobs lib (wk_cron ?w2) (en_cron e) = Some (cron_expr j, j)"
    using e by (simp add: same_at_def)
  then show ?thesis by blast
qed

theorem edit_during_sync_missed_witness:
  "let lib = list_cron (\<lambda>x. True); j' = example_job\<lparr>jb_url := ''http://new'', jb_updated := ''u''\<rparr>
   in \<exists>n. cl_jobs lib (wk_cron (sync lib (\<lambda>t. if t = ''u'' then 5 else 0) [''7''] (\<lambda>k. 66) [j']
        (sync lib (\<lambda>t. if t = ''u'' then 5 else 0) [] (\<lambda>k. 6) [example_job] (New lib)))) n =
      Some (cron_expr example_job, example_job) \<and> jb_url j' \<noteq> jb_url example_job"
proof -
  let ?lib = "list_cron (\<lambda>x. True)"
  let ?time = "\<lambda>t. if t = ''u'' then 5 else (0 :: int)"
  let ?j' = "example_job\<lparr>jb_url := ''http://new'', jb_updated := ''u''\<rparr>"
  have "\<not> up_to_date ?time example_job (New ?lib)" by (simp add: up_to_date_def New_def)
  moreover have "cl_parses ?lib (cron_expr example_job)" by (simp add: list_cron_def)
  moreover have "jb_url ?j' \<noteq> jb_url example_job" by (simp add: example_job_def)
  ultimately show ?thesis
    using edit_during_sync_missed [OF list_cron_contract table_ok_New [OF list_cron_contract], of "[example_job]"
        example_job ?time "\<lambda>x. True" "[?j']" ?j' "\<lambda>k. 6" "[''7'']" "\<lambda>k. 66" "[]"]
    unfolding Let_def by simp
qed

end
