(* ===== verification/WorkerRuns.thy ===== *)
theory WorkerRuns
  imports Scheduler
begin

text \<open>
  The running system: requests at the API, syncs and callbacks of the worker, the goroutines of the
  executors and restarts, as a step relation over the worker's state and the database.  The goroutines
  an API trigger starts are listed with those of the worker; their trigger tells them apart.
\<close>

section \<open>Steps\<close>

text \<open>A request ends as cancelled only if its context was cancelled or its row asks for it.\<close>

definition may_cancel :: "string \<Rightarrow> run \<Rightarrow> 'c worker \<Rightarrow> db \<Rightarrow> bool" where
  "may_cancel eid r w d \<longleftrightarrow>
     (case rn_ctx r of None \<Rightarrow> False | Some c \<Rightarrow> c \<in> set (wk_cancelled w)) \<or>
     list_ex (\<lambda>e. ex_id e = eid \<and> ex_cancel e) (db_execs d)"

fun is_cancelled :: "outcome \<Rightarrow> bool" where
  "is_cancelled (Failed msg canceled) = canceled"
| "is_cancelled (Answered n body) = False"

inductive sys_step :: "'c cron_lib \<Rightarrow> (string \<Rightarrow> int) \<Rightarrow> 'c worker \<times> db \<Rightarrow> 'c worker \<times> db \<Rightarrow> bool"
  for lib time
where
  request: "jobs_step d d' \<Longrightarrow> sys_step lib time (w, d) (w, d')"
| trigger: "TriggerJob uid i d = (d', r, js) \<Longrightarrow>
    sys_step lib time (w, d) (fold (\<lambda>j. spawn j None ''manual'') js w, d')"
| admin_trigger: "AdminTriggerJob i d = (r, js) \<Longrightarrow>
    sys_step lib time (w, d) (fold (\<lambda>j. spawn j None ''manual'') js w, d)"
| sync: "dom (wk_entries w) \<subseteq> set order \<Longrightarrow>
    sys_step lib time (w, d) (sync lib time order now (active_jobs d) w, d)"
| fire: "cl_jobs lib (wk_cron w) n = Some (x, j) \<Longrightarrow>
    sys_step lib time (w, d) (w\<lparr>wk_fired := wk_fired w @ [j]\<rparr>, d)"
| callback: "wk_fired w = js @ j # ks \<Longrightarrow>
    sys_step lib time (w, d) (makeRunner j (w\<lparr>wk_fired := js @ ks\<rparr>, d))"
| insert: "wk_pending w = rs @ r # qs \<Longrightarrow> eid \<notin> ex_id ` set (db_execs d) \<Longrightarrow> eid \<notin> fst ` set (wk_live w) \<Longrightarrow>
    begin_run eid (jb_id (rn_job r)) (rn_trigger r) now d = Some d' \<Longrightarrow>
    sys_step lib time (w, d) (w\<lparr>wk_pending := rs @ qs, wk_live := wk_live w @ [(eid, r)]\<rparr>, d')"
| insert_failed: "wk_pending w = rs @ r # qs \<Longrightarrow>
    sys_step lib time (w, d) (w\<lparr>wk_pending := rs @ qs\<rparr>, d)"
| finish: "wk_live w = ls @ (eid, r) # ks \<Longrightarrow> (is_cancelled out \<longrightarrow> may_cancel eid r w d) \<Longrightarrow>
    sys_step lib time (w, d)
      (w\<lparr>wk_live := ls @ ks\<rparr>, finish_run eid (jb_id (rn_job r)) now ms out d)"
| restart_worker: "sys_step lib time (w, d)
    (w\<lparr>wk_entries := Map.empty, wk_cron := cl_new lib, wk_fired := [],
       wk_pending := filter (\<lambda>r. rn_trigger r \<noteq> ''schedule'') (wk_pending w),
       wk_live := filter (\<lambda>(eid, r). rn_trigger r \<noteq> ''schedule'') (wk_live w)\<rparr>, d)"
| restart_api: "sys_step lib time (w, d)
    (w\<lparr>wk_pending := filter (\<lambda>r. rn_trigger r \<noteq> ''manual'') (wk_pending w),
       wk_live := filter (\<lambda>(eid, r). rn_trigger r \<noteq> ''manual'') (wk_live w)\<rparr>, d)"

inductive_cases sys_stepE: "sys_step lib time s s'"

section \<open>The table of the scheduler\<close>

lemma spawn_sel [simp]:
  "wk_entries (spawn j c t w) = wk_entries w" "wk_cron (spawn j c t w) = wk_cron w"
  "wk_ctx (spawn j c t w) = wk_ctx w" "wk_cancelled (spawn j c t w) = wk_cancelled w"
  "wk_live (spawn j c t w) = wk_live w" "wk_fired (spawn j c t w) = wk_fired w"
  "wk_pending (spawn j c t w) = wk_pending w @ [\<lparr>rn_job = j, rn_ctx = c, rn_trigger = t\<rparr>]"
  by (simp_all add: spawn_def)

lemma spawns_sel [simp]:
  "wk_entries (fold (\<lambda>j. spawn j None t) js w) = wk_entries w"
  "wk_cron (fold (\<lambda>j. spawn j None t) js w) = wk_cron w"
  "wk_ctx (fold (\<lambda>j. spawn j None t) js w) = wk_ctx w"
  "wk_cancelled (fold (\<lambda>j. spawn j None t) js w) = wk_cancelled w"
  "wk_live (fold (\<lambda>j. spawn j None t) js w) = wk_live w"
  "wk_pending (fold (\<lambda>j. spawn j None t) js w) =
     wk_pending w @ map (\<lambda>j. \<lparr>rn_job = j, rn_ctx = None, rn_trigger = t\<rparr>) js"
  by (induction js arbitrary: w) simp_all

lemma table_ok_same:
  "table_ok lib w \<Longrightarrow> wk_entries w' = wk_entries w \<Longrightarrow> wk_cron w' = wk_cron w \<Longrightarrow> table_ok lib w'"
  by (simp add: table_ok_def)

lemma table_ok_store:
  assumes "table_ok lib w"
  shows "table_ok lib (w\<lparr>wk_entries := (wk_entries w)(i \<mapsto> (entry_or_zero i w)\<lparr>en_cancel := c\<rparr>)\<rparr>)"
proof (rule table_okI, goal_cases)
  case 1
  then show ?case using table_okD(1) [OF assms] by simp
next
  case (2 n x j)
  then have old: "cl_jobs lib (wk_cron w) n = Some (x, j)" by simp
  obtain e where "wk_entries w (jb_id j) = Some e" "en_cron e = n" using table_okD(3) [OF assms old] by blast
  then show ?case using table_okD(2) [OF assms old] by (auto simp: entry_or_zero_def)
next
  case (3 k e)
  show ?case
  proof (cases "k = i")
    case True
    then show ?thesis using 3 table_okD(4) [OF assms, of i]
      by (cases "wk_entries w i") (auto simp: entry_or_zero_def)
  next
    case False
    then show ?thesis using 3 table_okD(4) [OF assms, of k e] by simp
  qed
qed

lemma makeRunner_table:
  assumes "table_ok lib w" and "makeRunner j (w, d) = (w', d')"
  shows "table_ok lib w'"
proof (cases "jb_policy j = ''Replace''")
  case True
  then have "wk_entries w' = (wk_entries w)(jb_id j \<mapsto> (entry_or_zero (jb_id j) w)\<lparr>en_cancel := Some (wk_ctx w)\<rparr>)"
    "wk_cron w' = wk_cron w"
    using assms(2) by (auto simp: makeRunner_def Let_def)
  then show ?thesis
    by (intro table_ok_same [OF table_ok_store [OF assms(1), of "jb_id j" "Some (wk_ctx w)"]]) simp_all
next
  case False
  then have "wk_entries w' = wk_entries w" "wk_cron w' = wk_cron w"
    using assms(2) by (auto simp: makeRunner_def split: if_splits)
  then show ?thesis by (intro table_ok_same [OF assms(1)])
qed

text \<open>Job ids stay unique when the database draws new ones.\<close>

definition ids_ok :: "db \<Rightarrow> bool" where
  "ids_ok d \<longleftrightarrow> distinct (map jb_id (db_jobs d))"

inductive sys_run :: "'c cron_lib \<Rightarrow> (string \<Rightarrow> int) \<Rightarrow> 'c worker \<times> db \<Rightarrow> 'c worker \<times> db \<Rightarrow> bool"
  for lib time
where
  none: "sys_run lib time s s"
| more: "sys_run lib time s s' \<Longrightarrow> sys_step lib time s' s'' \<Longrightarrow> ids_ok (snd s'') \<Longrightarrow> sys_run lib time s s''"

lemma run_steps: "sys_run lib time s s' \<Longrightarrow> (sys_step lib time)\<^sup>*\<^sup>* s s'"
  by (induction rule: sys_run.induct) (auto intro: rtranclp.rtrancl_into_rtrancl)

lemma step_table_ok:
  assumes "sys_step lib time s s'" and "cron_contract lib" and "table_ok lib (fst s)" and "ids_ok (snd s)"
  shows "table_ok lib (fst s')"
  using assms(1)
proof cases
  case (sync w order d now)
  have "distinct (map jb_id (active_jobs d))"
    using assms(4) sync by (simp add: ids_ok_def active_jobs_def distinct_map_filter_id)
  from sync_facts(1) [OF assms(2) _ this] show ?thesis using assms(3) sync by simp
next
  case (callback w js j ks d)
  have "table_ok lib w" using assms(3) callback by simp
  then have "table_ok lib (w\<lparr>wk_fired := js @ ks\<rparr>)" by (rule table_ok_same) simp_all
  moreover have "makeRunner j (w\<lparr>wk_fired := js @ ks\<rparr>, d) = (fst s', snd s')" using callback by simp
  ultimately show ?thesis by (rule makeRunner_table)
next
  case (restart_worker w d)
  show ?thesis
    by (rule table_ok_same [OF table_ok_New [OF assms(2)]]) (simp_all add: restart_worker New_def)
qed (rule table_ok_same [OF assms(3)]; simp)+

lemma run_table_ok:
  assumes "sys_run lib time s s'" and "cron_contract lib" and "table_ok lib (fst s)" and "ids_ok (snd s)"
  shows "table_ok lib (fst s') \<and> ids_ok (snd s')"
  using assms by (induction rule: sys_run.induct) (auto dest: step_table_ok)

section \<open>Contexts\<close>

text \<open>A context is cancelled or it is the one the entry of its job can cancel.\<close>

definition tracked :: "nat \<Rightarrow> string \<Rightarrow> 'c worker \<Rightarrow> bool" where
  "tracked c i w \<longleftrightarrow>
     c \<in> set (wk_cancelled w) \<or> (\<exists>e. wk_entries w i = Some e \<and> en_cancel e = Some c)"

definition runs :: "'c worker \<Rightarrow> run list" where
  "runs w = wk_pending w @ map snd (wk_live w)"

definition users_of :: "nat \<Rightarrow> 'c worker \<Rightarrow> nat" where
  "users_of c w = length (filter (\<lambda>r. rn_ctx r = Some c) (runs w))"

definition runs_ok :: "'c worker \<Rightarrow> bool" where
  "runs_ok w \<longleftrightarrow>
     (\<forall>r \<in> set (runs w). \<forall>c. rn_ctx r = Some c \<longrightarrow>
        c < wk_ctx w \<and> rn_trigger r = ''schedule'' \<and> tracked c (jb_id (rn_job r)) w) \<and>
     (\<forall>c. users_of c w \<le> 1)"

lemma runs_okI:
  assumes "\<And>r c. r \<in> set (runs w) \<Longrightarrow> rn_ctx r = Some c \<Longrightarrow>
      c < wk_ctx w \<and> rn_trigger r = ''schedule'' \<and> tracked c (jb_id (rn_job r)) w"
    and "\<And>c. users_of c w \<le> 1"
  shows "runs_ok w"
  using assms by (simp add: runs_ok_def)

lemma runs_okD:
  assumes "runs_ok w"
  shows "r \<in> set (runs w) \<Longrightarrow> rn_ctx r = Some c \<Longrightarrow> c < wk_ctx w"
    and "r \<in> set (runs w) \<Longrightarrow> rn_ctx r = Some c \<Longrightarrow> rn_trigger r = ''schedule''"
    and "r \<in> set (runs w) \<Longrightarrow> rn_ctx r = Some c \<Longrightarrow> tracked c (jb_id (rn_job r)) w"
    and "users_of c w \<le> 1"
  using assms by (simp_all add: runs_ok_def)

text \<open>What keeps the invariant: no run is added and no context loses its holder.\<close>

lemma runs_ok_fewer:
  assumes "runs_ok w" and "set (runs w') \<subseteq> set (runs w)" and "\<And>c. users_of c w' \<le> users_of c w"
    and "wk_ctx w \<le> wk_ctx w'"
    and "\<And>c r. r \<in> set (runs w') \<Longrightarrow> rn_ctx r = Some c \<Longrightarrow> tracked c (jb_id (rn_job r)) w \<Longrightarrow>
      tracked c (jb_id (rn_job r)) w'"
  shows "runs_ok w'"
proof (rule runs_okI)
  fix r c
  assume r: "r \<in> set (runs w')" "rn_ctx r = Some c"
  then have "r \<in> set (runs w)" using assms(2) by blast
  then show "c < wk_ctx w' \<and> rn_trigger r = ''schedule'' \<and> tracked c (jb_id (rn_job r)) w'"
    using runs_okD(1-3) [OF assms(1) _ r(2)] assms(4) assms(5) [OF r] by fastforce
next
  show "users_of c w' \<le> 1" for c
    using runs_okD(4) [OF assms(1), of c] assms(3) [of c] by simp
qed

lemma runs_ok_same:
  assumes "runs_ok w" and "runs w' = runs w" and "wk_ctx w' = wk_ctx w"
    and "\<And>c i. tracked c i w \<Longrightarrow> tracked c i w'"
  shows "runs_ok w'"
  using assms(2-4) by (intro runs_ok_fewer [OF assms(1)]) (simp_all add: users_of_def)

lemma tracked_drop: "tracked c i w \<Longrightarrow> tracked c i (drop_entry lib k w)"
  by (auto simp: tracked_def drop_entry_def cancel_def split: option.split)

lemma tracked_add: "wk_entries w (jb_id j) = None \<Longrightarrow> tracked c i w \<Longrightarrow> tracked c i (add_entry lib now j w)"
  by (auto simp: tracked_def add_entry_def split: option.split)

lemma sync_one_runs [simp]:
  "runs (sync_one lib time now j w) = runs w" "wk_ctx (sync_one lib time now j w) = wk_ctx w"
  by (simp_all add: sync_one_def runs_def)

lemma tracked_sync_one: "tracked c i w \<Longrightarrow> tracked c i (sync_one lib time now j w)"
  by (simp add: sync_one_def tracked_add tracked_drop)

lemma sync_remove_runs:
  "runs (sync_remove lib active order w) = runs w \<and> wk_ctx (sync_remove lib active order w) = wk_ctx w \<and>
   (tracked c i w \<longrightarrow> tracked c i (sync_remove lib active order w))"
proof (induction order arbitrary: w)
  case (Cons k order)
  have "sync_remove lib active (k # order) w =
      sync_remove lib active order (if k \<in> set active then w else drop_entry lib k w)"
    by (simp add: sync_remove_def)
  then show ?case using Cons.IH tracked_drop [of c i w lib k] by (simp add: runs_def)
qed (simp add: sync_remove_def)

lemma sync_loop_runs:
  "runs (fold (\<lambda>(k, j). sync_one lib time (now k) j) kjs w) = runs w \<and>
   wk_ctx (fold (\<lambda>(k, j). sync_one lib time (now k) j) kjs w) = wk_ctx w \<and>
   (tracked c i w \<longrightarrow> tracked c i (fold (\<lambda>(k, j). sync_one lib time (now k) j) kjs w))"
  by (induction kjs arbitrary: w) (auto simp: tracked_sync_one)

lemma sync_runs:
  "runs (sync lib time order now jobs w) = runs w" "wk_ctx (sync lib time order now jobs w) = wk_ctx w"
  "tracked c i w \<Longrightarrow> tracked c i (sync lib time order now jobs w)"
  using sync_remove_runs [of lib "map jb_id jobs" order w c i]
    sync_loop_runs [of lib time now "enumerate 0 jobs" "sync_remove lib (map jb_id jobs) order w" c i]
  by (simp_all add: sync_def)

text \<open>A new goroutine.\<close>

lemma runs_spawn: "set (runs (spawn j c t w)) = insert \<lparr>rn_job = j, rn_ctx = c, rn_trigger = t\<rparr> (set (runs w))"
  by (auto simp: runs_def)

lemma users_spawn: "users_of c (spawn j c' t w) = users_of c w + (if c' = Some c then 1 else 0)"
  by (simp add: users_of_def runs_def)

lemma tracked_spawn [simp]: "tracked c i (spawn j c' t w) = tracked c i w"
  by (simp add: tracked_def)

lemma runs_ok_spawn:
  assumes "runs_ok w"
  shows "runs_ok (spawn j None t w)"
  by (rule runs_okI) (use runs_okD [OF assms] in \<open>auto simp: runs_spawn users_spawn\<close>)

lemma runs_ok_spawns: "runs_ok w \<Longrightarrow> runs_ok (fold (\<lambda>j. spawn j None t) js w)"
  by (induction js arbitrary: w) (simp_all add: runs_ok_spawn)

lemma runs_ok_new:
  assumes "runs_ok w" and "runs w' = runs w" and "wk_ctx w' = Suc (wk_ctx w)"
    and "\<And>c i. tracked c i w \<Longrightarrow> tracked c i w'" and "tracked (wk_ctx w) (jb_id j) w'"
  shows "runs_ok (spawn j (Some (wk_ctx w)) ''schedule'' w')"
proof (rule runs_okI)
  fix r c
  assume r: "r \<in> set (runs (spawn j (Some (wk_ctx w)) ''schedule'' w'))" "rn_ctx r = Some c"
  show "c < wk_ctx (spawn j (Some (wk_ctx w)) ''schedule'' w') \<and> rn_trigger r = ''schedule'' \<and>
      tracked c (jb_id (rn_job r)) (spawn j (Some (wk_ctx w)) ''schedule'' w')"
  proof (cases "r \<in> set (runs w)")
    case True
    then show ?thesis
      using runs_okD(1-3) [OF assms(1) True r(2)] assms(3) assms(4) [of c] by simp
  next
    case False
    then show ?thesis using r assms(2,3,5) by (auto simp: runs_spawn)
  qed
next
  have "users_of (wk_ctx w) w = 0"
    using runs_okD(1) [OF assms(1)] by (fastforce simp: users_of_def filter_empty_conv)
  moreover have "users_of c w' = users_of c w" for c by (simp add: users_of_def assms(2))
  ultimately show "users_of c (spawn j (Some (wk_ctx w)) ''schedule'' w') \<le> 1" for c
    using runs_okD(4) [OF assms(1), of c] by (auto simp: users_spawn)
qed

lemma runs_ok_replace:
  assumes "runs_ok w"
  shows "runs_ok (spawn j (Some (wk_ctx w)) ''schedule''
     ((cancel (en_cancel (entry_or_zero (jb_id j) w)) w)\<lparr>wk_ctx := wk_ctx w + 1,
        wk_entries := (wk_entries w)(jb_id j \<mapsto> (entry_or_zero (jb_id j) w)\<lparr>en_cancel := Some (wk_ctx w)\<rparr>)\<rparr>))"
  by (rule runs_ok_new [OF assms])
    (auto simp: runs_def tracked_def cancel_def entry_or_zero_def split: option.splits)

lemma makeRunner_runs:
  assumes "runs_ok w" and "makeRunner j (w, d) = (w', d')"
  shows "runs_ok w'"
proof (cases "jb_policy j = ''Replace''")
  case True
  then have "w' = spawn j (Some (wk_ctx w)) ''schedule''
     ((cancel (en_cancel (entry_or_zero (jb_id j) w)) w)\<lparr>wk_ctx := wk_ctx w + 1,
        wk_entries := (wk_entries w)(jb_id j \<mapsto> (entry_or_zero (jb_id j) w)\<lparr>en_cancel := Some (wk_ctx w)\<rparr>)\<rparr>)"
    using assms(2) by (simp add: makeRunner_def Let_def)
  then show ?thesis by (simp only: runs_ok_replace [OF assms(1)])
next
  case False
  then have "w' = w \<or> w' = spawn j None ''schedule'' w"
    using assms(2) by (auto simp: makeRunner_def split: if_splits)
  then show ?thesis using assms(1) runs_ok_spawn by blast
qed

lemma filter_filter_le: "length (filter P (filter Q xs)) \<le> length (filter P xs)"
  by (induction xs) simp_all

lemma map_filter_le: "length (filter P (map f (filter Q xs))) \<le> length (filter P (map f xs))"
  by (induction xs) simp_all

lemma step_runs_ok:
  assumes "sys_step lib time s s'" and "runs_ok (fst s)"
  shows "runs_ok (fst s')"
  using assms(1)
proof cases
  case (sync w order d now)
  have "runs_ok w" using assms(2) sync(1) by simp
  then have "runs_ok (sync lib time order now (active_jobs d) w)"
    by (rule runs_ok_same) (rule sync_runs | assumption)+
  then show ?thesis using sync(2) by simp
next
  case (fire w n x j d)
  show ?thesis
    by (rule runs_ok_same [of w]) (use assms(2) fire in \<open>simp_all add: runs_def tracked_def\<close>)
next
  case (callback w js j ks d)
  have "runs_ok (w\<lparr>wk_fired := js @ ks\<rparr>)"
    by (rule runs_ok_same [of w]) (use assms(2) callback in \<open>simp_all add: runs_def tracked_def\<close>)
  moreover have "makeRunner j (w\<lparr>wk_fired := js @ ks\<rparr>, d) = (fst s', snd s')" using callback by simp
  ultimately show ?thesis by (rule makeRunner_runs)
next
  case (insert w rs r qs eid d now d')
  show ?thesis
    by (rule runs_ok_fewer [of w]) (use assms(2) insert in \<open>auto simp: runs_def users_of_def tracked_def\<close>)
next
  case (insert_failed w rs r qs d)
  show ?thesis
    by (rule runs_ok_fewer [of w]) (use assms(2) insert_failed in \<open>auto simp: runs_def users_of_def tracked_def\<close>)
next
  case (finish w ls eid r ks out d now ms)
  show ?thesis
    by (rule runs_ok_fewer [of w]) (use assms(2) finish in \<open>auto simp: runs_def users_of_def tracked_def\<close>)
next
  case (restart_worker w d)
  have "rn_ctx r = None" if "r \<in> set (runs (fst s'))" for r
  proof -
    have "r \<in> set (runs (fst s)) \<and> rn_trigger r \<noteq> ''schedule''"
      using that restart_worker by (force simp: runs_def)
    then show ?thesis using runs_okD(2) [OF assms(2), of r] by (cases "rn_ctx r") auto
  qed
  then show ?thesis
    by (intro runs_okI) (auto simp: users_of_def filter_empty_conv)
next
  case (restart_api w d)
  show ?thesis
    by (rule runs_ok_fewer [of w]) (use assms(2) filter_filter_le map_filter_le restart_api in \<open>auto simp: runs_def users_of_def tracked_def intro!: add_mono\<close>)
qed (use assms(2) in \<open>simp_all add: runs_ok_spawns\<close>)

interpretation contexts: kept "sys_step lib time" "\<lambda>s. runs_ok (fst s)" for lib time
  by unfold_locales (rule step_runs_ok)

lemma run_runs_ok: "sys_run lib time s s' \<Longrightarrow> runs_ok (fst s) \<Longrightarrow> runs_ok (fst s')"
  using contexts.always [OF run_steps] by blast

lemma runs_ok_New: "runs_ok (New lib)"
  by (simp add: runs_ok_def runs_def users_of_def New_def)

section \<open>Rows without a goroutine\<close>

lemma sync_remove_live: "wk_live (sync_remove lib active order w) = wk_live w"
proof (induction order arbitrary: w)
  case (Cons k order)
  have "sync_remove lib active (k # order) w =
      sync_remove lib active order (if k \<in> set active then w else drop_entry lib k w)"
    by (simp add: sync_remove_def)
  then show ?case using Cons.IH by simp
qed (simp add: sync_remove_def)

lemma sync_live: "wk_live (sync lib time order now jobs w) = wk_live w"
proof -
  have "wk_live (fold (\<lambda>(k, j). sync_one lib time (now k) j) kjs w) = wk_live w" for kjs w
    by (induction kjs arbitrary: w) (auto simp: sync_one_def)
  then show ?thesis by (simp add: sync_def sync_remove_live)
qed

text \<open>A running row that no goroutine will finish.\<close>

definition orphan :: "string \<Rightarrow> string \<Rightarrow> 'c worker \<times> db \<Rightarrow> bool" where
  "orphan eid i s \<longleftrightarrow>
     eid \<in> ex_id ` set (db_execs (snd s)) \<and>
     (\<forall>e \<in> set (db_execs (snd s)). ex_id e = eid \<longrightarrow> ex_job e = i \<and> ex_status e = ''running'') \<and>
     eid \<notin> fst ` set (wk_live (fst s))"

text \<open>Whatever the handlers do to the executions, a row they leave keeps its id, job and status.\<close>

definition rows_kept :: "db \<Rightarrow> db \<Rightarrow> bool" where
  "rows_kept d d' \<longleftrightarrow>
     (\<forall>e' \<in> set (db_execs d'). \<exists>e \<in> set (db_execs d).
        ex_id e' = ex_id e \<and> ex_job e' = ex_job e \<and> ex_status e' = ex_status e)"

lemma rows_kept_refl [simp]: "db_execs d' = db_execs d \<Longrightarrow> rows_kept d d'"
  by (auto simp: rows_kept_def)

lemma rows_kept_statements [simp]:
  "rows_kept d (update_job i f d)" "rows_kept d (remove_job i d)" "rows_kept d (cancel_running i d)"
  "rows_kept d (UsersApi.update_user i g d)" "rows_kept d (remove_user i d)"
  by (auto simp: rows_kept_def update_job_def remove_job_def cancel_running_def update_user_def remove_user_def Let_def)

lemma rows_kept_step: "jobs_step d d' \<Longrightarrow> rows_kept d d'"
  by (induction rule: jobs_step.induct)
    (auto simp: CreateJob_def UpdateJob_def DeleteJob_def PauseJob_def ResumeJob_def setJobStatus_def
      TriggerJob_def AdminCreateJob_def AdminUpdateJob_def AdminDeleteJob_def AdminPauseJob_def
      AdminResumeJob_def adminSetJobStatus_def Register_def ChangePassword_def AdminCreateUser_def
      AdminUpdateUser_def AdminDeleteUser_def Let_def split: option.split)

lemma rows_kept_trigger: "TriggerJob uid i d = (d', r, js) \<Longrightarrow> rows_kept d d'"
  by (auto simp: TriggerJob_def split: option.splits if_splits)

lemma rows_kept_runner: "makeRunner j (w, d) = (w', d') \<Longrightarrow> rows_kept d d'"
  by (auto simp: makeRunner_def Let_def split: if_splits)

lemma runner_live: "makeRunner j (w, d) = (w', d') \<Longrightarrow> wk_live w' = wk_live w"
  by (auto simp: makeRunner_def Let_def split: if_splits)

lemma orphan_kept:
  assumes "orphan eid i (w, d)" and "rows_kept d d'" and "eid \<in> ex_id ` set (db_execs d')"
    and "fst ` set (wk_live w') \<subseteq> fst ` set (wk_live w)"
  shows "orphan eid i (w', d')"
  using assms unfolding orphan_def rows_kept_def fst_conv snd_conv by (metis subsetD)

lemma orphan_step:
  assumes "sys_step lib time s s'" and "orphan eid i s" and "eid \<in> ex_id ` set (db_execs (snd s'))"
  shows "orphan eid i s'"
  using assms(1)
proof cases
  case (request d d' w)
  then show ?thesis using orphan_kept [of eid i w d d' w] assms(2,3) rows_kept_step by simp
next
  case (trigger uid j d d' r js w)
  then show ?thesis
    using orphan_kept [of eid i w d d' "fold (\<lambda>j. spawn j None ''manual'') js w"] assms(2,3)
      rows_kept_trigger [OF trigger(3)] by simp
next
  case (sync w order d now)
  have "wk_live (sync lib time order now (active_jobs d) w) = wk_live w"
    by (rule sync_live)
  then show ?thesis using assms(2) sync by (simp add: orphan_def)
next
  case (callback w js j ks d)
  let ?w = "w\<lparr>wk_fired := js @ ks\<rparr>"
  have eq: "makeRunner j (?w, d) = (fst s', snd s')" using callback by simp
  have "orphan eid i (?w, d)" using assms(2) callback by (simp add: orphan_def)
  from orphan_kept [OF this rows_kept_runner [OF eq] assms(3), of "fst s'"] runner_live [OF eq]
  show ?thesis by simp
next
  case (insert w rs r qs x d now d')
  then have "x \<noteq> eid" using assms(2) by (auto simp: orphan_def)
  then show ?thesis
    using insert assms(2) by (auto simp: orphan_def begin_run_def start_row_def split: if_splits)
next
  case (finish w ls x r ks out d now ms)
  then have "x \<noteq> eid" using assms(2) by (auto simp: orphan_def)
  then show ?thesis
    using finish assms(2) by (auto simp: orphan_def finish_run_execs)
qed (use assms(2) in \<open>auto simp: orphan_def\<close>)

interpretation orphans: kept "\<lambda>s s'. sys_step lib time s s' \<and> eid \<in> ex_id ` set (db_execs (snd s'))" "orphan eid i"
  for lib time eid i
  by unfold_locales (auto intro: orphan_step)

lemma orphan_running: "orphan eid i (w, d) \<Longrightarrow> HasRunning i d"
  by (auto simp: orphan_def HasRunning_def list_ex_iff)

section \<open>Properties\<close>

text \<open>C9: A job is never scheduled twice.  However requests, syncs, callbacks, runs and restarts follow
  each other, the cron library never holds two functions of the same job.\<close>

theorem one_schedule_per_job:
  assumes "cron_contract lib" and "sys_run lib time (New lib, d0) (w, d)" and "ids_ok d0"
    and "cl_jobs lib (wk_cron w) m = Some (x, j)" and "cl_jobs lib (wk_cron w) n = Some (y, k)"
    and "jb_id j = jb_id k"
  shows "m = n \<and> x = y \<and> j = k"
proof -
  have ok: "table_ok lib w"
    using run_table_ok [OF assms(2,1)] table_ok_New [OF assms(1)] assms(3) by simp
  obtain e f where "wk_entries w (jb_id j) = Some e" "en_cron e = m" "wk_entries w (jb_id k) = Some f" "en_cron f = n"
    using table_okD(3) [OF ok assms(4)] table_okD(3) [OF ok assms(5)] by blast
  then show ?thesis using assms(4-6) by simp
qed

text \<open>An instance: the first sync of a worker that finds one active job.\<close>

definition one_job_db :: "job \<Rightarrow> db" where
  "one_job_db j = \<lparr>db_users = [], db_jobs = [j], db_execs = []\<rparr>"

definition synced :: "job \<Rightarrow> (nat \<times> string \<times> job) list worker" where
  "synced j =
     \<lparr>wk_entries = [jb_id j \<mapsto> \<lparr>en_cron = 1, en_at = 1, en_cancel = None\<rparr>], wk_cron = [(1, cron_expr j, j)],
      wk_ctx = 0, wk_cancelled = [], wk_fired = [], wk_pending = [], wk_live = []\<rparr>"

abbreviation every_cron :: "(nat \<times> string \<times> job) list cron_lib" where
  "every_cron \<equiv> list_cron (\<lambda>x. True)"

lemma sync_first: "sync every_cron (\<lambda>t. 0) [] (\<lambda>k. 1) [j] (New every_cron) = synced j"
  by (simp add: sync_def sync_remove_def sync_one_def up_to_date_def add_entry_def drop_entry_def New_def
      list_cron_def synced_def)

lemma run_synced:
  assumes "jb_status j = ''active''"
  shows "sys_run every_cron (\<lambda>t. 0) (New every_cron, one_job_db j) (synced j, one_job_db j)"
proof (rule sys_run.more [OF sys_run.none])
  have "active_jobs (one_job_db j) = [j]" by (simp add: active_jobs_def one_job_db_def assms)
  then show "sys_step every_cron (\<lambda>t. 0) (New every_cron, one_job_db j) (synced j, one_job_db j)"
    using sys_step.sync [of "New every_cron" "[]" every_cron "\<lambda>t. 0" "one_job_db j" "\<lambda>k. 1"] sync_first [of j]
    by (simp add: New_def)
qed (simp add: ids_ok_def one_job_db_def)

theorem one_schedule_per_job_witness:
  "cl_jobs every_cron (wk_cron (synced example_job)) (en_cron (the (wk_entries (synced example_job) ''7''))) =
     Some (cron_expr example_job, example_job) \<and>
   en_cron (the (wk_entries (synced example_job) ''7'')) = 1"
proof -
  have run: "sys_run every_cron (\<lambda>t. 0) (New every_cron, one_job_db example_job) (synced example_job, one_job_db example_job)"
    by (rule run_synced) (simp add: example_job_def)
  have ids: "ids_ok (one_job_db example_job)" by (simp add: ids_ok_def one_job_db_def)
  have own: "cl_jobs every_cron (wk_cron (synced example_job)) (en_cron (the (wk_entries (synced example_job) ''7''))) =
      Some (cron_expr example_job, example_job)"
    by (simp add: synced_def list_cron_def example_job_def)
  moreover have "cl_jobs every_cron (wk_cron (synced example_job)) 1 = Some (cron_expr example_job, example_job)"
    by (simp add: synced_def list_cron_def)
  ultimately show ?thesis
    using one_schedule_per_job [OF list_cron_contract run ids own] by blast
qed

text \<open>C8: Under the policy \<open>Replace\<close> the worker keeps one run per job. At every moment,
  whatever has happened, among the goroutines the worker has started for a job under a context of their own
  at most one is not cancelled.\<close>

theorem replace_single_run:
  assumes "sys_run lib time (New lib, d0) (w, d)"
  shows "length (filter (\<lambda>r. jb_id (rn_job r) = i \<and>
    (case rn_ctx r of None \<Rightarrow> False | Some c \<Rightarrow> c \<notin> set (wk_cancelled w))) (runs w)) \<le> 1"
proof -
  let ?P = "\<lambda>r. jb_id (rn_job r) = i \<and> (case rn_ctx r of None \<Rightarrow> False | Some c \<Rightarrow> c \<notin> set (wk_cancelled w))"
  have ok: "runs_ok w" using run_runs_ok [OF assms] by (simp add: runs_ok_New)
  show ?thesis
  proof (cases "filter ?P (runs w)")
    case (Cons r rs)
    then have r: "r \<in> set (runs w)" "?P r"
      using filter_eq_ConsD [OF Cons] by auto
    then obtain c where c: "rn_ctx r = Some c" "c \<notin> set (wk_cancelled w)" by (auto split: option.splits)
    then obtain e where e: "wk_entries w i = Some e" "en_cancel e = Some c"
      using runs_okD(3) [OF ok r(1) c(1)] r(2) by (auto simp: tracked_def)
    have "rn_ctx q = Some c" if "q \<in> set (runs w)" "?P q" for q
      using that e runs_okD(3) [OF ok that(1)] by (auto simp: tracked_def split: option.splits)
    then have "filter ?P (runs w) = filter ?P (filter (\<lambda>q. rn_ctx q = Some c) (runs w))"
      unfolding filter_filter by (intro filter_cong) auto
    then have "length (filter ?P (runs w)) \<le> users_of c w"
      by (simp only: users_of_def length_filter_le)
    with runs_okD(4) [OF ok, of c] show ?thesis by simp
  qed simp
qed

theorem replace_single_run_witness:
  "let j = example_job\<lparr>jb_policy := ''Replace''\<rparr>;
       fired = (\<lambda>w. w\<lparr>wk_fired := []\<rparr>);
       (w1, d1) = makeRunner j (fired (synced j), one_job_db j);
       (w2, d2) = makeRunner j (fired w1, d1)
   in length (runs w2) = 2 \<and>
      length (filter (\<lambda>r. jb_id (rn_job r) = ''7'' \<and>
        (case rn_ctx r of None \<Rightarrow> False | Some c \<Rightarrow> c \<notin> set (wk_cancelled w2))) (runs w2)) \<le> 1"
proof -
  let ?j = "example_job\<lparr>jb_policy := ''Replace''\<rparr>"
  let ?s1 = "makeRunner ?j (synced ?j\<lparr>wk_fired := []\<rparr>, one_job_db ?j)"
  let ?s2 = "makeRunner ?j ((fst ?s1)\<lparr>wk_fired := []\<rparr>, snd ?s1)"
  have round: "sys_run every_cron (\<lambda>t. 0) s (makeRunner ?j ((fst s')\<lparr>wk_fired := []\<rparr>, snd s'))"
    if run: "sys_run every_cron (\<lambda>t. 0) s s'" and ok: "wk_fired (fst s') = []" "wk_cron (fst s') = [(1, cron_expr ?j, ?j)]"
      and ids: "ids_ok (snd s')" "ids_ok (snd (makeRunner ?j ((fst s')\<lparr>wk_fired := []\<rparr>, snd s')))" for s s'
  proof -
    obtain w d where s': "s' = (w, d)" by (cases s')
    have "sys_step every_cron (\<lambda>t. 0) (w, d) (w\<lparr>wk_fired := wk_fired w @ [?j]\<rparr>, d)"
      by (rule sys_step.fire [of _ _ 1 "cron_expr ?j"]) (use ok s' in \<open>simp add: list_cron_def\<close>)
    then have "sys_run every_cron (\<lambda>t. 0) s (w\<lparr>wk_fired := [?j]\<rparr>, d)"
      using run ok(1) ids(1) s' by (auto intro: sys_run.more)
    moreover have "sys_step every_cron (\<lambda>t. 0) (w\<lparr>wk_fired := [?j]\<rparr>, d)
        (makeRunner ?j (w\<lparr>wk_fired := []\<rparr>, d))"
      using sys_step.callback [of "w\<lparr>wk_fired := [?j]\<rparr>" "[]" ?j "[]" every_cron "\<lambda>t. 0" d] by simp
    ultimately show ?thesis using ids(2) s' by (auto intro: sys_run.more)
  qed
  have eval: "wk_fired (fst ?s1) = []" "wk_cron (fst ?s1) = [(1, cron_expr ?j, ?j)]" "ids_ok (one_job_db ?j)"
    "wk_fired (synced ?j) = []" "wk_cron (synced ?j) = [(1, cron_expr ?j, ?j)]"
    "ids_ok (snd ?s1)" "ids_ok (snd ?s2)" "length (runs (fst ?s2)) = 2"
    by (simp_all add: makeRunner_def Let_def ids_ok_def one_job_db_def cancel_running_def synced_def runs_def)
  have "sys_run every_cron (\<lambda>t. 0) (New every_cron, one_job_db ?j) (synced ?j, one_job_db ?j)"
    by (rule run_synced) (simp add: example_job_def)
  from round [OF this] have "sys_run every_cron (\<lambda>t. 0) (New every_cron, one_job_db ?j) ?s1"
    using eval by (simp del: spawn_sel)
  from round [OF this] have "sys_run every_cron (\<lambda>t. 0) (New every_cron, one_job_db ?j) (fst ?s2, snd ?s2)"
    using eval by (simp del: spawn_sel)
  from replace_single_run [OF this, of "''7''"] eval(8) show ?thesis
    unfolding Let_def case_prod_beta' by blast
qed

text \<open>C11: A run lost to a restart blocks a \<open>Forbid\<close> job for good. Once a running row has
  no goroutine, it stays running through every further step that does not delete it with its job, and as
  long as it does no callback and no trigger of the owner starts the job.\<close>

theorem lost_run_blocks_forbid:
  assumes "orphan eid i (w, d)"
    and "(\<lambda>s s'. sys_step lib time s s' \<and> eid \<in> ex_id ` set (db_execs (snd s')))\<^sup>*\<^sup>* (w, d) (w', d')"
    and "jb_id j = i" and "jb_policy j = ''Forbid''"
  shows "orphan eid i (w', d') \<and> makeRunner j (w', d') = (w', d') \<and>
    (owned_job uid i d' = Some j \<longrightarrow> TriggerJob uid i d' = (d', writeError 409 ''Job is already running (Forbid policy)'', []))"
proof -
  have o: "orphan eid i (w', d')" using assms(2,1) by (rule orphans.always)
  then show ?thesis
    using orphan_running [OF o] assms(3,4) by (simp add: makeRunner_def TriggerJob_def)
qed

theorem lost_run_blocks_forbid_witness:
  "orphan ''e'' ''7'' (New every_cron, example_db) \<and> jb_policy example_job = ''Forbid'' \<and>
   makeRunner example_job (New every_cron, example_db) = (New every_cron, example_db)"
proof -
  have o: "orphan ''e'' ''7'' (New every_cron, example_db)"
    by (simp add: orphan_def example_db_def New_def)
  have j: "jb_id example_job = ''7''" "jb_policy example_job = ''Forbid''" by (simp_all add: example_job_def)
  show ?thesis
    using lost_run_blocks_forbid [OF o _ j, of every_cron "\<lambda>t. 0" "New every_cron" example_db] o j(2) by blast
qed

text \<open>\<open>Forbid\<close> does not exclude overlapping runs. The check for a running row and the
  insertion of the new row are apart: two triggers of an idle job, one after the other, both pass the check
  before either goroutine inserts its row, and then two executions of the job run.\<close>

theorem forbid_can_overlap:
  "\<exists>w d. sys_run every_cron (\<lambda>t. 0) (New every_cron, one_job_db example_job) (w, d) \<and>
     jb_policy example_job = ''Forbid'' \<and>
     map ex_job (filter (\<lambda>e. ex_status e = ''running'') (db_execs d)) = [''7'', ''7''] \<and> length (wk_live w) = 2"
proof -
  let ?r = "\<lparr>rn_job = example_job, rn_ctx = None, rn_trigger = ''manual''\<rparr>"
  let ?d0 = "one_job_db example_job"
  let ?d1 = "?d0\<lparr>db_execs := [start_row ''a'' ''7'' ''manual'' ''t'']\<rparr>"
  let ?d2 = "?d0\<lparr>db_execs := [start_row ''a'' ''7'' ''manual'' ''t'', start_row ''b'' ''7'' ''manual'' ''u'']\<rparr>"
  let ?w = "\<lambda>p l. (New every_cron)\<lparr>wk_pending := p, wk_live := l\<rparr>"
  have trig: "TriggerJob ''1'' ''7'' ?d0 = (?d0, message 200 ''Job triggered'', [example_job])"
    by (simp add: TriggerJob_def owned_job_def one_job_db_def HasRunning_def) (simp add: example_job_def)
  have spawn: "fold (\<lambda>j. spawn j None ''manual'') [example_job] (?w p []) = ?w (p @ [?r]) []" for p
    by (simp add: spawn_def)
  have start: "sys_run every_cron (\<lambda>t. 0) (New every_cron, ?d0) (?w [] [], ?d0)"
  proof -
    have "?w [] [] = New every_cron" by (simp add: New_def)
    then show ?thesis by (simp add: sys_run.none)
  qed
  have more: "sys_run every_cron (\<lambda>t. 0) (New every_cron, ?d0) (?w (p @ [?r]) [], ?d0)"
    if "sys_run every_cron (\<lambda>t. 0) (New every_cron, ?d0) (?w p [], ?d0)" for p
    using sys_run.more [OF that sys_step.trigger [OF trig]] unfolding spawn
    by (simp add: ids_ok_def one_job_db_def)
  have "sys_run every_cron (\<lambda>t. 0) (New every_cron, ?d0) (?w [?r, ?r] [], ?d0)"
    using more [OF more [OF start]] by simp
  moreover have "sys_step every_cron (\<lambda>t. 0) (?w [?r, ?r] [], ?d0) (?w [?r] [(''a'', ?r)], ?d1)"
    using sys_step.insert [of "?w [?r, ?r] []" "[]" ?r "[?r]" "''a''" ?d0 "''t''" ?d1 every_cron "\<lambda>t. 0"]
    by (simp add: begin_run_def one_job_db_def example_job_def)
  moreover have "sys_step every_cron (\<lambda>t. 0) (?w [?r] [(''a'', ?r)], ?d1) (?w [] [(''a'', ?r), (''b'', ?r)], ?d2)"
    using sys_step.insert [of "?w [?r] [(''a'', ?r)]" "[]" ?r "[]" "''b''" ?d1 "''u''" ?d2 every_cron "\<lambda>t. 0"]
    by (simp add: begin_run_def one_job_db_def example_job_def start_row_def)
  moreover have "ids_ok ?d1" "ids_ok ?d2" by (simp_all add: ids_ok_def one_job_db_def)
  ultimately have "sys_run every_cron (\<lambda>t. 0) (New every_cron, ?d0) (?w [] [(''a'', ?r), (''b'', ?r)], ?d2)"
    by (elim sys_run.more [OF sys_run.more]) (simp_all only: snd_conv)
  moreover have "map ex_job (filter (\<lambda>e. ex_status e = ''running'') (db_execs ?d2)) = [''7'', ''7'']"
    "length (wk_live (?w [] [(''a'', ?r), (''b'', ?r)])) = 2" "jb_policy example_job = ''Forbid''"
    by (simp_all add: start_row_def example_job_def)
  ultimately show ?thesis
    by (intro exI conjI) (rule asm_rl, assumption)+
qed

end
