(* ===== verification/JobLife.thy ===== *)
theory JobLife
  imports WorkerRuns
begin

text \<open>
  The life of a job across the parts of the system: from the form of the new-job page to the table and
  on to the cron library, out of the library when the job is paused or deleted, and from a trigger to
  the row the pages show.
\<close>

section \<open>The new-job page\<close>

text \<open>The job as the user left it in the form of the new-job page.\<close>

definition entered :: "(form_event \<times> string) list \<Rightarrow> job_input" where
  "entered es =
     \<lparr>in_name = written es ''name'' [], in_description = written es ''description'' [],
      in_cron = written es ''cron_expression'' ''0 * * * *'', in_url = written es ''url'' [],
      in_method = written es ''method'' ''GET'', in_headers = None, in_body = Some (written es ''body'' []),
      in_timezone = written es ''timezone'' ''UTC'', in_timeout = 30,
      in_policy = written es ''concurrency_policy'' ''Allow''\<rparr>"

lemma defaults_decode:
  "decode_fields form_defaults empty_input =
     Some \<lparr>in_name = [], in_description = [], in_cron = ''0 * * * *'', in_url = [], in_method = ''GET'',
       in_headers = None, in_body = Some [], in_timezone = ''UTC'', in_timeout = 30, in_policy = ''Allow''\<rparr>"
  by code_simp

lemma form_init_new: "form_init [] = form_defaults"
  by (simp add: form_init_def spread_def)

lemma new_decodes:
  assumes "offered_run es" and "last_write es ''timeout_seconds'' = None"
  shows "decode_job (Some (JObj (run_form c es (form_init [])))) = Some (entered es)"
proof -
  have "lower_keys form_defaults" by code_simp
  from overwritten_decodes [OF assms defaults_decode distinct_form_defaults this]
  have "decode_fields (run_form c es form_defaults) empty_input = Some (overwritten es
     \<lparr>in_name = [], in_description = [], in_cron = ''0 * * * *'', in_url = [], in_method = ''GET'',
       in_headers = None, in_body = Some [], in_timezone = ''UTC'', in_timeout = 30, in_policy = ''Allow''\<rparr>)"
    by simp
  then show ?thesis
    by (simp add: form_init_new overwritten_def entered_def written_def split: option.split)
qed

section \<open>The table and the schedule\<close>

lemma active_ids: "distinct (map jb_id (db_jobs d)) \<Longrightarrow> distinct (map jb_id (active_jobs d))"
  by (simp add: active_jobs_def distinct_map_filter_id)

text \<open>After a sync the library has a function of a job only if a row with its id is active.\<close>

lemma synced_active:
  assumes "cron_contract lib" and "table_ok lib w" and "distinct (map jb_id (db_jobs d))"
    and "dom (wk_entries w) \<subseteq> set order"
    and "cl_jobs lib (wk_cron (sync lib time order now (active_jobs d) w)) n = Some (x, k)"
  shows "jb_id k \<in> jb_id ` set (active_jobs d)"
proof -
  note facts = sync_facts(1,2) [OF assms(1,2) active_ids [OF assms(3)], where time = time and order = order and now = now]
  obtain e where "wk_entries (sync lib time order now (active_jobs d) w) (jb_id k) = Some e"
    using table_okD(3) [OF facts(1) assms(5)] by blast
  then show ?thesis using facts(2) [OF assms(4)] by blast
qed

lemma update_job_ids: "(\<And>j. jb_id (f j) = jb_id j) \<Longrightarrow> map jb_id (db_jobs (update_job i f d)) = map jb_id (db_jobs d)"
  by (simp add: update_job_def)

lemma mem_filter_map: "x \<in> set (filter P (map g xs)) \<Longrightarrow> P x \<and> (\<exists>k. x = g k)"
  by auto

lemma update_job_sel: "db_jobs (update_job i f d) = map (\<lambda>j. if jb_id j = i then f j else j) (db_jobs d)"
  by (simp add: update_job_def)

lemma paused_inactive:
  "i \<notin> jb_id ` set (active_jobs (update_job i (\<lambda>k. k\<lparr>jb_status := ''paused'', jb_updated := now\<rparr>) d))"
    (is "_ \<notin> jb_id ` set (active_jobs (update_job i ?f d))")
proof (rule notI, elim imageE)
  fix x
  assume x: "i = jb_id x" "x \<in> set (active_jobs (update_job i ?f d))"
  then obtain k where k: "x = (if jb_id k = i then ?f k else k)" "jb_status x = ''active''"
    using mem_filter_map [OF x(2) [unfolded active_jobs_def update_job_sel]] by (elim conjE exE) rule
  show False
  proof (cases "jb_id k = i")
    case True
    then have "x = ?f k" using k(1) by (simp only: if_True simp_thms)
    with k(2) show False by simp
  next
    case False
    then have "x = k" using k(1) by (simp only: if_False simp_thms)
    with False x(1) show False by blast
  qed
qed

lemma removed_inactive: "i \<notin> jb_id ` set (active_jobs (remove_job i d))"
  by (auto simp: active_jobs_def remove_job_def)

lemma remove_job_ids: "distinct (map jb_id (db_jobs d)) \<Longrightarrow> distinct (map jb_id (db_jobs (remove_job i d)))"
  by (simp add: remove_job_def distinct_map_filter_id)

text \<open>A job without an entry is new to a sync.\<close>

lemma sync_new_job:
  assumes "cron_contract lib" and "table_ok lib w" and "distinct (map jb_id (db_jobs d))"
    and "j \<in> set (active_jobs d)" and "wk_entries w (jb_id j) = None" and "cl_parses lib (cron_expr j)"
  shows "\<exists>n. cl_jobs lib (wk_cron (sync lib time order now (active_jobs d) w)) n = Some (cron_expr j, j)"
proof -
  have "\<not> up_to_date time j w" by (simp add: up_to_date_def assms(5))
  then have "scheduled lib now j (sync lib time order now (active_jobs d) w)"
    using sync_facts(3) [OF assms(1,2) active_ids [OF assms(3)] assms(4), where time = time and order = order and now = now] assms(6)
    by (simp add: settled_def)
  then show ?thesis by (auto simp: scheduled_def split: option.splits)
qed

lemma sync_refused_job:
  assumes "cron_contract lib" and "table_ok lib w" and "distinct (map jb_id (db_jobs d))"
    and "j \<in> set (active_jobs d)" and "wk_entries w (jb_id j) = None" and "\<not> cl_parses lib (cron_expr j)"
    and "cl_jobs lib (wk_cron (sync lib time order now (active_jobs d) w)) n = Some (x, k)"
  shows "jb_id k \<noteq> jb_id j"
proof
  assume same: "jb_id k = jb_id j"
  have "\<not> up_to_date time j w" by (simp add: up_to_date_def assms(5))
  then have "wk_entries (sync lib time order now (active_jobs d) w) (jb_id j) = None"
    using sync_facts(3) [OF assms(1,2) active_ids [OF assms(3)] assms(4), where time = time and order = order and now = now] assms(6)
    by (simp add: settled_def)
  then show False
    using table_okD(3) [OF sync_facts(1) [OF assms(1,2) active_ids [OF assms(3)]] assms(7)] same by auto
qed

section \<open>Properties\<close>

text \<open>C14: A new job goes from the form into the schedule. When the user fills in the form of the
  new-job page, leaving the timeout alone, and the values fit the columns, the server accepts it; the new
  row holds, in each of its columns, what was entered, with the defaults of the form where nothing was and
  those of the server where it was emptied, and comes first in the user's list; and the next sync of the
  worker hands exactly this row to the cron library under the entered expression in the entered time zone.
  If the library cannot read the expression the job is in the list all the same, and never
  scheduled.\<close>

theorem new_job_scheduled:
  assumes "offered_run es" and "last_write es ''timeout_seconds'' = None"
    and "fits_schema (applyDefaults (entered es))" and "uid \<in> us_id ` set (db_users d)"
    and "fresh \<notin> jb_id ` set (db_jobs d)" and "distinct (map jb_id (db_jobs d))"
    and "snd (form_step False Submit v (run_form False es (form_init []))) = [OnSubmit payload]"
    and "CreateJob fresh now dberr uid (rq_body (call_request (NewJob_onSubmit payload))) d = (d', reply)"
    and "cron_contract lib" and "table_ok lib w" and "wk_entries w fresh = None"
  shows "fst reply = 201 \<and>
    (\<exists>j rest. ListJobs uid d' = (200, JArr (JObj (job_json d' j) # rest)) \<and>
      j = \<lparr>jb_id = fresh, jb_user = Some uid, jb_name = written es ''name'' [],
        jb_description = written es ''description'' [], jb_cron = written es ''cron_expression'' ''0 * * * *'',
        jb_url = written es ''url'' [],
        jb_method = (if written es ''method'' ''GET'' = [] then ''GET'' else written es ''method'' ''GET''),
        jb_headers = JObj [], jb_body = Some (written es ''body'' []), jb_status = ''active'',
        jb_timezone = (if written es ''timezone'' ''UTC'' = [] then ''UTC'' else written es ''timezone'' ''UTC''),
        jb_timeout = 30,
        jb_policy = (if written es ''concurrency_policy'' ''Allow'' = [] then ''Allow''
          else written es ''concurrency_policy'' ''Allow''),
        jb_last_run = None, jb_created = now, jb_updated = now\<rparr> \<and>
      db_jobs d' = db_jobs d @ [j] \<and>
      (if cl_parses lib (cron_expr j)
       then \<exists>n. cl_jobs lib (wk_cron (sync lib time order clock (active_jobs d') w)) n =
         Some (''CRON_TZ='' @ jb_timezone j @ '' '' @ jb_cron j, j)
       else \<forall>n x k. cl_jobs lib (wk_cron (sync lib time order clock (active_jobs d') w)) n = Some (x, k) \<longrightarrow> jb_id k \<noteq> fresh))"
proof -
  have p: "payload = run_form False es (form_init [])" using assms(7) by simp
  have dec: "decode_job (rq_body (call_request (NewJob_onSubmit payload))) = Some (entered es)"
    using new_decodes [OF assms(1,2)] by (simp add: NewJob_onSubmit_def createJob_def data_of_def client_def p)
  let ?j = "new_job fresh uid now (applyDefaults (entered es))"
  have r: "d' = d\<lparr>db_jobs := db_jobs d @ [?j]\<rparr>" "reply = (201, JObj (job_json d' ?j))"
    using assms(3,4,8) unfolding CreateJob_def dec by (auto simp: Let_def)
  have ids: "distinct (map jb_id (db_jobs d'))" using assms(5,6) by (simp add: r(1) new_job_def)
  have act: "?j \<in> set (active_jobs d')" by (simp add: active_jobs_def r(1) new_job_def)
  have j: "jb_id ?j = fresh" "jb_user ?j = Some uid" by (simp_all add: new_job_def)
  have none: "wk_entries w (jb_id ?j) = None" using assms(11) j by simp
  have list: "ListJobs uid d' = (200, JArr (JObj (job_json d' ?j) #
      map (\<lambda>j. JObj (job_json d' j)) (rev (filter (\<lambda>j. jb_user j = Some uid) (db_jobs d)))))"
    unfolding ListJobs_def r(1) by (simp add: j)
  have row: "?j = \<lparr>jb_id = fresh, jb_user = Some uid, jb_name = written es ''name'' [],
        jb_description = written es ''description'' [], jb_cron = written es ''cron_expression'' ''0 * * * *'',
        jb_url = written es ''url'' [],
        jb_method = (if written es ''method'' ''GET'' = [] then ''GET'' else written es ''method'' ''GET''),
        jb_headers = JObj [], jb_body = Some (written es ''body'' []), jb_status = ''active'',
        jb_timezone = (if written es ''timezone'' ''UTC'' = [] then ''UTC'' else written es ''timezone'' ''UTC''),
        jb_timeout = 30,
        jb_policy = (if written es ''concurrency_policy'' ''Allow'' = [] then ''Allow''
          else written es ''concurrency_policy'' ''Allow''),
        jb_last_run = None, jb_created = now, jb_updated = now\<rparr>"
    unfolding new_job_def by (simp add: applyDefaults_def entered_def headersJSON_def)
  have "db_jobs d' = db_jobs d @ [?j]" by (simp add: r(1))
  moreover have "if cl_parses lib (cron_expr ?j)
       then \<exists>n. cl_jobs lib (wk_cron (sync lib time order clock (active_jobs d') w)) n =
         Some (''CRON_TZ='' @ jb_timezone ?j @ '' '' @ jb_cron ?j, ?j)
       else \<forall>n x k. cl_jobs lib (wk_cron (sync lib time order clock (active_jobs d') w)) n = Some (x, k) \<longrightarrow> jb_id k \<noteq> fresh"
    using sync_new_job [OF assms(9,10) ids act none, where time = time and order = order and now = clock]
      sync_refused_job [OF assms(9,10) ids act none, where time = time and order = order and now = clock] j(1)
    by (auto simp: cron_expr_def)
  ultimately show ?thesis using r(2) list row by (intro conjI exI [of _ ?j] exI) simp_all
qed

theorem new_job_scheduled_witness:
  "let es = [(Change ''name'', ''n''), (Change ''url'', ''http://x''), (Preset ''0 9 * * 1'', []),
         (Change ''method'', ''POST''), (Change ''timezone'', ''Asia/Tokyo'')];
       d = \<lparr>db_users = [\<lparr>us_id = ''1'', us_email = ''a'', us_hash = ''h'', us_role = ''user'', us_created = ''t''\<rparr>],
            db_jobs = [], db_execs = []\<rparr>;
       payload = run_form False es (form_init []);
       d' = fst (CreateJob ''8'' ''t'' ''err'' ''1'' (rq_body (call_request (NewJob_onSubmit payload))) d)
   in \<exists>n j. cl_jobs every_cron (wk_cron (sync every_cron (\<lambda>t. 0) [] (\<lambda>k. 1) (active_jobs d') (New every_cron))) n =
        Some (''CRON_TZ=Asia/Tokyo 0 9 * * 1'', j) \<and> jb_id j = ''8'' \<and> jb_name j = ''n'' \<and> jb_method j = ''POST''"
proof -
  let ?es = "[(Change ''name'', ''n''), (Change ''url'', ''http://x''), (Preset ''0 9 * * 1'', []),
         (Change ''method'', ''POST''), (Change ''timezone'', ''Asia/Tokyo'')]"
  let ?d = "\<lparr>db_users = [\<lparr>us_id = ''1'', us_email = ''a'', us_hash = ''h'', us_role = ''user'', us_created = ''t''\<rparr>],
            db_jobs = [], db_execs = []\<rparr>"
  let ?p = "run_form False ?es (form_init [])"
  let ?r = "CreateJob ''8'' ''t'' ''err'' ''1'' (rq_body (call_request (NewJob_onSubmit ?p))) ?d"
  have off: "offered_run ?es" by (simp add: offered_run_def events_JobForm PRESETS_def)
  have lw: "last_write ?es ''timeout_seconds'' = None" "written ?es ''name'' [] = ''n''" "written ?es ''url'' [] = ''http://x''"
    "written ?es ''cron_expression'' ''0 * * * *'' = ''0 9 * * 1''"
    "written ?es ''method'' ''GET'' = ''POST''" "written ?es ''timezone'' ''UTC'' = ''Asia/Tokyo''"
    by (simp_all add: written_def last_write_def List.map_filter_def)
  have fit: "fits_schema (applyDefaults (entered ?es))"
    by (simp add: fits_schema_def applyDefaults_def entered_def written_def last_write_def List.map_filter_def
        varchar_def char_count_def is_cont_def headersJSON_def)
  have user: "''1'' \<in> us_id ` set (db_users ?d)" "''8'' \<notin> jb_id ` set (db_jobs ?d)" "distinct (map jb_id (db_jobs ?d))"
    by simp_all
  have submit: "snd (form_step False Submit [] ?p) = [OnSubmit ?p]" by simp
  have r: "?r = (fst ?r, snd ?r)" by simp
  have w: "wk_entries (New every_cron) ''8'' = None" by (simp add: New_def)
  have parses: "cl_parses every_cron x" for x by (simp add: list_cron_def)
  from new_job_scheduled [OF off lw(1) fit user submit r list_cron_contract table_ok_New [OF list_cron_contract] w,
      where time = "\<lambda>t. 0" and order = "[]" and clock = "\<lambda>k. 1"]
  obtain j n where j: "cl_jobs every_cron
        (wk_cron (sync every_cron (\<lambda>t. 0) [] (\<lambda>k. 1) (active_jobs (fst ?r)) (New every_cron))) n =
         Some (''CRON_TZ='' @ jb_timezone j @ '' '' @ jb_cron j, j)" "jb_id j = ''8''" "jb_name j = ''n''"
      "jb_method j = ''POST''" "jb_cron j = ''0 9 * * 1''" "jb_timezone j = ''Asia/Tokyo''"
    unfolding lw(2-) using parses by auto
  then have "cl_jobs every_cron
        (wk_cron (sync every_cron (\<lambda>t. 0) [] (\<lambda>k. 1) (active_jobs (fst ?r)) (New every_cron))) n =
         Some (''CRON_TZ=Asia/Tokyo 0 9 * * 1'', j)" by simp
  with j(2-4) show ?thesis unfolding Let_def by blast
qed

text \<open>C15: A job that is paused or deleted is out of the schedule after the next sync.  Wherever the system
  is, once the owner's request is accepted and the worker has synced, the cron library has no function of
  the job, and every goroutine the worker started for it under a context of its own is cancelled.\<close>

theorem stopped_job_unscheduled:
  assumes "cron_contract lib" and "sys_run lib time (New lib, d0) (w, d)" and "ids_ok d0"
    and "PauseJob now uid i d = (d', reply) \<or> DeleteJob uid i d = (d', reply)" and "fst reply < 400"
    and "dom (wk_entries w) \<subseteq> set order" and "w' = sync lib time order clock (active_jobs d') w"
  shows "(\<forall>n x k. cl_jobs lib (wk_cron w') n = Some (x, k) \<longrightarrow> jb_id k \<noteq> i) \<and>
    (\<forall>r c. r \<in> set (runs w') \<longrightarrow> jb_id (rn_job r) = i \<longrightarrow> rn_ctx r = Some c \<longrightarrow> c \<in> set (wk_cancelled w'))"
proof -
  have ok: "table_ok lib w" "ids_ok d" "runs_ok w"
    using run_table_ok [OF assms(2,1)] run_runs_ok [OF assms(2)] table_ok_New [OF assms(1)] runs_ok_New [of lib] assms(3)
    by simp_all
  have "d' = update_job i (\<lambda>k. k\<lparr>jb_status := ''paused'', jb_updated := now\<rparr>) d \<or> d' = remove_job i d"
    using assms(4,5) by (auto simp: PauseJob_def setJobStatus_def DeleteJob_def writeError_def Let_def
        split: option.splits if_splits)
  then have ids: "distinct (map jb_id (db_jobs d'))" and out: "i \<notin> jb_id ` set (active_jobs d')"
    using ok(2) paused_inactive [of i now d] removed_inactive [of i d]
    by (elim disjE; simp add: update_job_ids remove_job_ids ids_ok_def)+
  note facts = sync_facts(1,2) [OF assms(1) ok(1) active_ids [OF ids], where time = time and order = order and now = clock]
  have none: "wk_entries w' i = None" using facts(2) [OF assms(6)] out assms(7) by blast
  have "jb_id k \<noteq> i" if "cl_jobs lib (wk_cron w') n = Some (x, k)" for n x k
    using synced_active [OF assms(1) ok(1) ids assms(6), of time clock n x k] that out assms(7) by auto
  moreover have "c \<in> set (wk_cancelled w')" if "r \<in> set (runs w')" "jb_id (rn_job r) = i" "rn_ctx r = Some c" for r c
  proof -
    have "tracked c i w" using runs_okD(3) [OF ok(3), of r c] that by (simp add: assms(7) sync_runs(1))
    then have "tracked c i w'" unfolding assms(7) by (rule sync_runs(3))
    then show ?thesis using none by (simp add: tracked_def)
  qed
  ultimately show ?thesis by blast
qed

theorem stopped_job_unscheduled_witness:
  "let (d', reply) = PauseJob ''u'' ''1'' ''7'' (one_job_db example_job);
       w' = sync every_cron (\<lambda>t. 0) [''7''] (\<lambda>k. 2) (active_jobs d') (synced example_job)
   in fst reply = 200 \<and> cl_jobs every_cron (wk_cron (synced example_job)) 1 \<noteq> None \<and>
      (case cl_jobs every_cron (wk_cron w') 1 of None \<Rightarrow> True | Some (x, k) \<Rightarrow> jb_id k \<noteq> ''7'')"
proof -
  let ?r = "PauseJob ''u'' ''1'' ''7'' (one_job_db example_job)"
  have run: "sys_run every_cron (\<lambda>t. 0) (New every_cron, one_job_db example_job) (synced example_job, one_job_db example_job)"
    by (rule run_synced) (simp add: example_job_def)
  have ids: "ids_ok (one_job_db example_job)" by (simp add: ids_ok_def one_job_db_def)
  have r: "fst (snd ?r) = 200"
    by (simp add: PauseJob_def setJobStatus_def owned_job_def one_job_db_def Let_def example_job_def)
  have "dom (wk_entries (synced example_job)) \<subseteq> set [''7'']" by (auto simp: synced_def example_job_def)
  with stopped_job_unscheduled [OF list_cron_contract run ids, of "''u''" "''1''" "''7''" "fst ?r" "snd ?r" "[''7'']" _ "\<lambda>k. 2"] r
  have "\<forall>n x k. cl_jobs every_cron (wk_cron (sync every_cron (\<lambda>t. 0) [''7''] (\<lambda>k. 2) (active_jobs (fst ?r)) (synced example_job))) n =
      Some (x, k) \<longrightarrow> jb_id k \<noteq> ''7''"
    by simp
  moreover have "cl_jobs every_cron (wk_cron (synced example_job)) 1 \<noteq> None" by (simp add: synced_def list_cron_def)
  ultimately show ?thesis using r by (simp add: case_prod_beta' Let_def split: option.split)
qed

end
