(* ===== verification/RunLife.thy ===== *)
theory RunLife
  imports JobLife Isolation
begin

text \<open>
  The life of one run: from the owner's trigger through the goroutine of the executor to the lists the
  pages show, and what the runs of one user's jobs leave alone.
\<close>

section \<open>One run\<close>

lemma owned_same_jobs: "db_jobs d' = db_jobs d \<Longrightarrow> owned_job uid i d' = owned_job uid i d"
  by (simp add: owned_job_def)

lemma TriggerJob_accepted:
  assumes "TriggerJob uid i d = (d', reply, [j])"
  shows "owned_job uid i d = Some j" "db_jobs d' = db_jobs d" "map ex_id (db_execs d') = map ex_id (db_execs d)"
  using assms by (auto simp: TriggerJob_def cancel_running_def split: option.splits if_splits)

lemma begin_run_owned:
  assumes "owned_job uid i d = Some j"
  shows "begin_run eid i trigger now d = Some (d\<lparr>db_execs := db_execs d @ [start_row eid i trigger now]\<rparr>)"
  using owned_job_json [OF assms] by (auto simp: begin_run_def)

lemma finish_run_jobs:
  "db_jobs (finish_run eid i now ms (Answered n body) d) =
     map (\<lambda>j. if jb_id j = i then j\<lparr>jb_last_run := Some now\<rparr> else j) (db_jobs d)"
  by (simp add: update_job_def update_exec_def)

lemma map_other_rows: "eid \<notin> ex_id ` set es \<Longrightarrow> map (\<lambda>e. if ex_id e = eid then f e else e) es = es"
  by (rule map_idI) auto

text \<open>The row of a finished run comes after the rows there were when it was inserted.\<close>

lemma finish_run_last:
  assumes "eid \<notin> ex_id ` set (db_execs d)"
  shows "db_execs (finish_run eid i now ms out (d\<lparr>db_execs := db_execs d @ [start_row eid i trigger t0]\<rparr>)) =
    db_execs d @ [complete_row now ms out (start_row eid i trigger t0)]"
  unfolding finish_run_execs using map_other_rows [OF assms] by (simp add: start_row_def)

lemma start_row_sel [simp]:
  "ex_id (start_row eid i trigger t0) = eid" "ex_job (start_row eid i trigger t0) = i"
  "ex_status (start_row eid i trigger t0) = ''running''" "ex_trigger (start_row eid i trigger t0) = trigger"
  by (simp_all add: start_row_def)

lemma complete_row_sel [simp]:
  "ex_id (complete_row now ms out e) = ex_id e" "ex_job (complete_row now ms out e) = ex_job e"
  "ex_trigger (complete_row now ms out e) = ex_trigger e"
  by (cases out; simp add: Let_def)+

lemma served_job_list:
  assumes "owned_job uid i d = Some j" and "i \<noteq> []"
  shows "serve_executions uid d (call_request (getExecutions (Some i) None)) = rows_reply d (take 50 (rev (job_execs d j)))"
proof -
  have "call_request (getExecutions (Some i) None) = call_request (getExecutions (Some i) (Some 50))"
    by (simp add: getExecutions_def)
  then show ?thesis using serve_getExecutions(1) [of 50 uid d i] assms(2) by (simp add: filter_user_execs [OF assms(1)])
qed

lemma running_last:
  assumes "owned_job uid i d = Some j" and "db_execs d = es @ [e]" and "ex_job e = i" and "ex_status e = ''running''"
  shows "\<exists>rs. ListRunningExecutions uid d = rows_reply d (rs @ [e])"
proof -
  have "list_ex (\<lambda>j. jb_id j = ex_job e \<and> jb_user j = Some uid) (db_jobs d)"
    using owned_job_json [OF assms(1)] assms(3) by (auto simp: list_ex_iff)
  then show ?thesis using assms(2,4) by (simp add: ListRunningExecutions_def user_execs_def) blast
qed

section \<open>The rows of the goroutines\<close>

text \<open>The row a goroutine will finish is a row of its job.\<close>

definition live_ok :: "'c worker \<times> db \<Rightarrow> bool" where
  "live_ok s \<longleftrightarrow> list_all (\<lambda>(eid, r). list_all (\<lambda>e. ex_id e = eid \<longrightarrow> ex_job e = jb_id (rn_job r)) (db_execs (snd s)))
     (wk_live (fst s))"

lemma live_okI:
  assumes "\<And>eid r e. (eid, r) \<in> set (wk_live w) \<Longrightarrow> e \<in> set (db_execs d) \<Longrightarrow> ex_id e = eid \<Longrightarrow> ex_job e = jb_id (rn_job r)"
  shows "live_ok (w, d)"
  using assms by (auto simp: live_ok_def list_all_iff)

lemma live_okD:
  assumes "live_ok (w, d)" and "(eid, r) \<in> set (wk_live w)" and "e \<in> set (db_execs d)" and "ex_id e = eid"
  shows "ex_job e = jb_id (rn_job r)"
  using assms by (auto simp: live_ok_def list_all_iff)

lemma live_ok_fewer:
  assumes "live_ok (w, d)" and "rows_kept d d'" and "set (wk_live w') \<subseteq> set (wk_live w)"
  shows "live_ok (w', d')"
proof (rule live_okI)
  fix eid r e'
  assume r: "(eid, r) \<in> set (wk_live w')" "e' \<in> set (db_execs d')" "ex_id e' = eid"
  then obtain e where "e \<in> set (db_execs d)" "ex_id e = eid" "ex_job e' = ex_job e"
    using assms(2) unfolding rows_kept_def by metis
  with live_okD [OF assms(1), of eid r e] r(1) assms(3) show "ex_job e' = jb_id (rn_job r)" by auto
qed

lemma step_live_ok:
  assumes "sys_step lib time s s'" and "live_ok s"
  shows "live_ok s'"
  using assms(1)
proof cases
  case (request d d' w)
  then show ?thesis using live_ok_fewer [of w d d' w] assms(2) rows_kept_step by simp
next
  case (trigger uid j d d' r js w)
  then show ?thesis
    using live_ok_fewer [of w d d' "fold (\<lambda>j. spawn j None ''manual'') js w"] assms(2) rows_kept_trigger [OF trigger(3)]
    by simp
next
  case (sync w order d now)
  then show ?thesis using live_ok_fewer [of w d d "sync lib time order now (active_jobs d) w"] assms(2) by (simp add: sync_live)
next
  case (callback w js j ks d)
  have eq: "makeRunner j (w\<lparr>wk_fired := js @ ks\<rparr>, d) = (fst s', snd s')" using callback by simp
  have "wk_live (fst s') = wk_live w" using runner_live [OF eq] by simp
  then show ?thesis
    using live_ok_fewer [of w d "snd s'" "fst s'"] assms(2) callback(1) rows_kept_runner [OF eq] by simp
next
  case (insert w rs r qs eid d now d')
  have d': "db_execs d' = db_execs d @ [start_row eid (jb_id (rn_job r)) (rn_trigger r) now]"
    using insert(6) by (auto simp: begin_run_def split: if_splits)
  have ok: "live_ok (w, d)" using assms(2) insert(1) by simp
  have "live_ok (w\<lparr>wk_pending := rs @ qs, wk_live := wk_live w @ [(eid, r)]\<rparr>, d')"
  proof (rule live_okI)
    fix x q e
    assume q: "(x, q) \<in> set (wk_live (w\<lparr>wk_pending := rs @ qs, wk_live := wk_live w @ [(eid, r)]\<rparr>))"
      and e: "e \<in> set (db_execs d')" "ex_id e = x"
    show "ex_job e = jb_id (rn_job q)"
    proof (cases "x = eid")
      case True
      then have "e = start_row eid (jb_id (rn_job r)) (rn_trigger r) now" using e d' insert(4) by auto
      moreover have "q = r" using q True insert(5) by force
      ultimately show ?thesis by simp
    next
      case False
      then show ?thesis using q e d' live_okD [OF ok, of x q e] by auto
    qed
  qed
  then show ?thesis using insert(2) by simp
next
  case (finish w ls eid r ks out d now ms)
  have "live_ok (w, d)" using assms(2) finish(1) by simp
  then have "live_ok (w\<lparr>wk_live := ls @ ks\<rparr>, d)" by (rule live_ok_fewer) (use finish in auto)
  then have "live_ok (w\<lparr>wk_live := ls @ ks\<rparr>, finish_run eid (jb_id (rn_job r)) now ms out d)"
    unfolding live_ok_def fst_conv snd_conv finish_run_execs list.pred_map comp_def
    by (rule list.pred_mono_strong) (auto simp: list_all_iff)
  then show ?thesis using finish(2) by simp
qed (use assms(2) in \<open>auto intro: live_ok_fewer simp: live_ok_def list_all_iff\<close>)

interpretation live: kept "sys_step lib time" live_ok for lib time
  by unfold_locales (rule step_live_ok)

lemma run_live_ok: "sys_run lib time s s' \<Longrightarrow> live_ok s \<Longrightarrow> live_ok s'"
  using live.always [OF run_steps] by blast

lemma live_ok_New: "live_ok (New lib, d)"
  by (simp add: live_ok_def New_def)

text \<open>What the steps of a run do to the view of a user whose job it is not.\<close>

lemma view_begin_run:
  assumes "owned_job uid i d = None" and "begin_run eid i trigger t0 d = Some d'"
  shows "view uid d' = view uid d"
proof -
  have "\<not> list_ex (\<lambda>j. jb_id j = i \<and> jb_user j = Some uid) (db_jobs d)"
    using assms(1) by (auto simp: owned_None list_ex_iff)
  then show ?thesis using assms(2) by (auto simp: begin_run_def view_def user_execs_def split: if_splits)
qed

lemma view_makeRunner:
  assumes "owned_job uid (jb_id j) d = None"
  shows "view uid (snd (makeRunner j (w, d))) = view uid d"
  using view_other(3) [OF assms] by (simp add: makeRunner_def Let_def)

lemma view_finish_run:
  assumes "owned_job uid i d = None" and "\<And>e. e \<in> set (db_execs d) \<Longrightarrow> ex_id e = eid \<Longrightarrow> ex_job e = i"
  shows "view uid (finish_run eid i now ms out d) = view uid d"
proof -
  have "map (\<lambda>e. if ex_id e = eid then f e else e) (user_execs uid d) = user_execs uid d" for f
    by (rule map_idI) (use assms not_own_exec [OF assms(1)] in \<open>auto simp: user_execs_def\<close>)
  moreover have "user_execs uid (update_exec eid (complete_row now ms out) d) =
      map (\<lambda>e. if ex_id e = eid then complete_row now ms out e else e) (user_execs uid d)"
    unfolding user_execs_def update_exec_def by (simp, rule filter_map_keep) simp
  ultimately have exec: "view uid (update_exec eid (complete_row now ms out) d) = view uid d"
    by (simp add: view_def) (simp add: update_exec_def)
  show ?thesis
  proof (cases out)
    case (Answered n body)
    have "owned_job uid i (update_exec eid (complete_row now ms out) d) = None"
      using assms(1) owned_same_jobs [of "update_exec eid (complete_row now ms out) d" d] by (simp add: update_exec_def)
    from view_other(1) [OF this, of "\<lambda>j. j\<lparr>jb_last_run := Some now\<rparr>"] exec Answered
    show ?thesis by (simp add: keeps_owner_def)
  qed (use exec in simp)
qed

section \<open>Properties\<close>

text \<open>A job's newest execution, once it is answered: the job's last run, and the list of the job's page.\<close>

lemma finished_listed:
  assumes "owned_job uid i d = Some j" and "i \<noteq> []" and "eid \<notin> ex_id ` set (db_execs d)"
    and "d2 = d\<lparr>db_execs := db_execs d @ [start_row eid i trigger t0]\<rparr>" and "d3 = finish_run eid i t1 ms (Answered n body) d2"
  shows "owned_job uid i d3 = Some (j\<lparr>jb_last_run := Some t1\<rparr>)"
    and "serve_executions uid d3 (call_request (getExecutions (Some i) None)) =
      rows_reply d3 (complete_row t1 ms (Answered n body) (start_row eid i trigger t0)
        # take 49 (rev (filter (\<lambda>e. ex_job e = i) (db_execs d))))"
proof -
  have j: "jb_id j = i" by (rule owned_job_json(1) [OF assms(1)])
  let ?k = "j\<lparr>jb_last_run := Some t1\<rparr>"
  have own2: "owned_job uid i d2 = Some j" using assms(1,4) owned_same_jobs [of d2 d] by simp
  show own3: "owned_job uid i d3 = Some ?k"
  proof -
    have "owned_job uid i (update_job i (\<lambda>j. j\<lparr>jb_last_run := Some t1\<rparr>) d2) = Some ?k"
      by (rule owned_after_update [OF own2]) simp
    then show ?thesis by (rule back_subst [of "\<lambda>x. x = Some ?k"])
      (rule owned_same_jobs, simp add: assms(5) update_job_def update_exec_def)
  qed
  have "job_execs d3 ?k = filter (\<lambda>e. ex_job e = i) (db_execs d) @ [complete_row t1 ms (Answered n body) (start_row eid i trigger t0)]"
    unfolding job_execs_def assms(4,5) finish_run_last [OF assms(3)] by (simp add: j del: complete_row.simps)
  then show "serve_executions uid d3 (call_request (getExecutions (Some i) None)) =
      rows_reply d3 (complete_row t1 ms (Answered n body) (start_row eid i trigger t0)
        # take 49 (rev (filter (\<lambda>e. ex_job e = i) (db_execs d))))"
    using served_job_list [OF own3 assms(2)] by (simp add: numeral_eq_Suc del: complete_row.simps)
qed

text \<open>C17: A triggered run reaches the pages.  Whenever the owner's trigger of a job is accepted, the system
  can go on, whatever else it is doing, so that the new execution is the last of the running ones in the
  banner; and, once the request is answered with storable text, so that it heads the job page's list, as a
  success or a failure by the status of the answer and with the kept part of the body, the job's last run
  is the time of the answer, and the goroutine is gone.\<close>

theorem triggered_run_shown:
  assumes "TriggerJob uid i d = (d1, reply, [j])" and "i \<noteq> []"
    and "eid \<notin> ex_id ` set (db_execs d)" and "eid \<notin> fst ` set (wk_live w)"
    and "pg_text (take 10000 body)" and "int32 ms"
  shows "\<exists>w1 d2 w' d' rs e es. (sys_step lib time)\<^sup>*\<^sup>* (w, d) (w1, d2) \<and>
    ListRunningExecutions uid d2 = rows_reply d2 (rs @ [start_row eid i ''manual'' t0]) \<and>
    (sys_step lib time)\<^sup>*\<^sup>* (w1, d2) (w', d') \<and>
    serve_executions uid d' (call_request (getExecutions (Some i) None)) = rows_reply d' (e # es) \<and>
    ex_id e = eid \<and> ex_status e = (if n < 400 then ''success'' else ''failure'') \<and> ex_response e = Some (int n) \<and>
    ex_body e = Some (take 10000 body) \<and>
    (\<exists>k. owned_job uid i d' = Some k \<and> jb_last_run k = Some t1) \<and> wk_live w' = wk_live w"
proof -
  note acc = TriggerJob_accepted [OF assms(1)]
  have own1: "owned_job uid i d1 = Some j" using acc(1) owned_same_jobs [OF acc(2)] by simp
  have j: "jb_id j = i" by (rule owned_job_json(1) [OF acc(1)])
  have fresh: "eid \<notin> ex_id ` set (db_execs d1)" using assms(3) acc(3) by (metis list.set_map)
  let ?r = "\<lparr>rn_job = j, rn_ctx = None, rn_trigger = ''manual''\<rparr>"
  let ?w0 = "spawn j None ''manual'' w"
  let ?w1 = "w\<lparr>wk_pending := wk_pending w, wk_live := wk_live w @ [(eid, ?r)]\<rparr>"
  let ?w2 = "w\<lparr>wk_live := wk_live w\<rparr>"
  let ?d2 = "d1\<lparr>db_execs := db_execs d1 @ [start_row eid i ''manual'' t0]\<rparr>"
  let ?out = "Answered n body"
  let ?d3 = "finish_run eid i t1 ms ?out ?d2"
  let ?e = "complete_row t1 ms ?out (start_row eid i ''manual'' t0)"
  have "sys_step lib time (w, d) (?w0, d1)"
    using sys_step.trigger [OF assms(1), of lib time w] by simp
  moreover have "sys_step lib time (?w0, d1) (?w1, ?d2)"
    using sys_step.insert [of ?w0 "wk_pending w" ?r "[]" eid d1 t0 ?d2 lib time] fresh assms(4)
      begin_run_owned [OF own1, of eid "''manual''" t0] by (simp add: j spawn_def)
  ultimately have first: "(sys_step lib time)\<^sup>*\<^sup>* (w, d) (?w1, ?d2)" by (meson r_into_rtranclp rtranclp.rtrancl_into_rtrancl)
  have "sys_step lib time (?w1, ?d2) (?w2, ?d3)"
    using sys_step.finish [of ?w1 "wk_live w" eid ?r "[]" ?out ?d2 lib time t1 ms] by (simp add: j del: finish_run.simps)
  then have second: "(sys_step lib time)\<^sup>*\<^sup>* (?w1, ?d2) (?w2, ?d3)" by (rule r_into_rtranclp)
  have own2: "owned_job uid i ?d2 = Some j" using own1 owned_same_jobs [of ?d2 d1] by simp
  obtain rs where rs: "ListRunningExecutions uid ?d2 = rows_reply ?d2 (rs @ [start_row eid i ''manual'' t0])"
    using running_last [OF own2, of "db_execs d1" "start_row eid i ''manual'' t0"] by auto
  note finished = finished_listed [OF own1 assms(2) fresh, of ?d2 "''manual''" t0 ?d3 t1 ms n body, OF refl refl]
  have row: "ex_id ?e = eid" "ex_status ?e = (if n < 400 then ''success'' else ''failure'')"
    "ex_response ?e = Some (int n)" "ex_body ?e = Some (take 10000 body)"
    using assms(5,6) by (simp_all add: Let_def max_body_def http_status_text_def)
  have last: "\<exists>k. owned_job uid i ?d3 = Some k \<and> jb_last_run k = Some t1"
    by (rule exI) (rule conjI [OF finished(1)], simp)
  have live: "wk_live ?w2 = wk_live w" by simp
  show ?thesis
    by (rule exI [of _ ?w1], rule exI [of _ ?d2], rule exI [of _ ?w2], rule exI [of _ ?d3], rule exI [of _ rs],
        rule exI [of _ ?e], rule exI, intro conjI)
      (rule first rs second finished(2) row last live)+
qed

theorem triggered_run_shown_witness:
  "\<exists>w1 d2 w' d' rs e es. (sys_step every_cron (\<lambda>t. 0))\<^sup>*\<^sup>* (New every_cron, one_job_db example_job) (w1, d2) \<and>
    ListRunningExecutions ''1'' d2 = rows_reply d2 (rs @ [start_row ''a'' ''7'' ''manual'' ''t'']) \<and>
    (sys_step every_cron (\<lambda>t. 0))\<^sup>*\<^sup>* (w1, d2) (w', d') \<and>
    serve_executions ''1'' d' (call_request (getExecutions (Some ''7'') None)) = rows_reply d' (e # es) \<and>
    ex_id e = ''a'' \<and> ex_status e = ''failure'' \<and> ex_response e = Some 503"
proof -
  let ?d = "one_job_db example_job"
  have trig: "TriggerJob ''1'' ''7'' ?d = (?d, message 200 ''Job triggered'', [example_job])"
    by (simp add: TriggerJob_def owned_job_def one_job_db_def HasRunning_def) (simp add: example_job_def)
  have fresh: "''a'' \<notin> ex_id ` set (db_execs ?d)" "''a'' \<notin> fst ` set (wk_live (New every_cron))" "''7'' \<noteq> []"
    by (simp_all add: one_job_db_def New_def)
  have storable: "pg_text (take 10000 ''busy'')" "int32 5" using pg_text_ascii [of "''busy''"] by (simp_all add: int32_def)
  from triggered_run_shown [OF trig fresh(3,1,2) storable, of every_cron "\<lambda>t. 0" "''t''" 503 "''u''"]
  show ?thesis by (elim exE conjE) (intro exI conjI, assumption+, simp_all)
qed

text \<open>C16: The runs of one user's jobs are no business of another.  Wherever the system is, what its
  goroutines do for a job that does not belong to a user - a callback of the schedule, the insertion of a
  running row, the end of a run with any outcome - leaves the user's account, jobs and executions as they
  are.\<close>

theorem runs_stay_with_owner:
  assumes "sys_run lib time (New lib, d0) (w, d)" and "owned_job uid i d = None"
  shows "(jb_id j = i \<longrightarrow> view uid (snd (makeRunner j (w, d))) = view uid d) \<and>
    (begin_run eid i trigger t0 d = Some d' \<longrightarrow> view uid d' = view uid d) \<and>
    ((eid, r) \<in> set (wk_live w) \<and> jb_id (rn_job r) = i \<longrightarrow> view uid (finish_run eid i t1 ms out d) = view uid d)"
proof (intro conjI impI)
  show "view uid (snd (makeRunner j (w, d))) = view uid d" if "jb_id j = i"
    using view_makeRunner [of uid j d w] assms(2) that by simp
  show "view uid d' = view uid d" if "begin_run eid i trigger t0 d = Some d'"
    by (rule view_begin_run [OF assms(2) that])
  show "view uid (finish_run eid i t1 ms out d) = view uid d" if "(eid, r) \<in> set (wk_live w) \<and> jb_id (rn_job r) = i"
  proof (rule view_finish_run [OF assms(2)])
    have "live_ok (w, d)" by (rule run_live_ok [OF assms(1) live_ok_New])
    then show "ex_job e = i" if "e \<in> set (db_execs d)" "ex_id e = eid" for e
      using live_okD [of w d eid r e] that \<open>(eid, r) \<in> set (wk_live w) \<and> jb_id (rn_job r) = i\<close> by simp
  qed
qed

theorem runs_stay_with_owner_witness:
  "owned_job ''2'' ''7'' (one_job_db example_job) = None \<and>
   begin_run ''a'' ''7'' ''schedule'' ''t'' (one_job_db example_job) \<noteq> None \<and>
   view ''2'' (the (begin_run ''a'' ''7'' ''schedule'' ''t'' (one_job_db example_job))) = view ''2'' (one_job_db example_job)"
proof -
  have run: "sys_run every_cron (\<lambda>t. 0) (New every_cron, one_job_db example_job) (New every_cron, one_job_db example_job)"
    by (rule sys_run.none)
  have own: "owned_job ''2'' ''7'' (one_job_db example_job) = None"
    by (simp add: owned_job_def one_job_db_def example_job_def)
  obtain d' where d': "begin_run ''a'' ''7'' ''schedule'' ''t'' (one_job_db example_job) = Some d'"
    by (simp add: begin_run_def one_job_db_def example_job_def)
  with runs_stay_with_owner [OF run own, of undefined "''a''" "''schedule''" "''t''" d' undefined "''t''" 0 "Answered 200 []"]
  show ?thesis using own by simp
qed

end
