(* ===== verification/Webhook.thy ===== *)
theory Webhook
  imports Backend
begin

text \<open>
  The request receiver, \<open>cron-webhook/main.go\<close>: the bounded store of captured requests, the table of
  running slow requests, the broker that fans messages out to the open pages, and the handlers over
  them.  The mutexes make each operation one step.  Ids and times are drawn from outside.
\<close>

section \<open>The store\<close>

record hook_entry =
  he_id :: string
  he_method :: string
  he_path :: string
  he_query :: "(string \<times> string) list"
  he_headers :: "(string \<times> string) list"
  he_body :: string
  he_time :: string
  he_status :: nat

definition maxEntries :: nat where
  "maxEntries = 100"

definition store_add :: "hook_entry \<Rightarrow> hook_entry list \<Rightarrow> hook_entry list" where
  "store_add e es = (let es' = e # es in if maxEntries < length es' then take maxEntries es' else es')"

definition store_all :: "hook_entry list \<Rightarrow> hook_entry list" where
  "store_all es = es"

definition store_clear :: "hook_entry list \<Rightarrow> hook_entry list" where
  "store_clear es = []"

text \<open>A log that keeps the newest entries, as its readers rely on it.\<close>

locale recent_log =
  fixes add :: "'e \<Rightarrow> 's \<Rightarrow> 's" and entries :: "'s \<Rightarrow> 'e list" and wipe :: "'s \<Rightarrow> 's" and bound :: nat
  assumes wiped: "entries (wipe s) = []"
    and added: "length (entries s) \<le> bound \<Longrightarrow> entries (add e s) = take bound (e # entries s)"
begin

lemma bounded: "length (entries s) \<le> bound \<Longrightarrow> length (entries (add e s)) \<le> bound"
  by (simp add: added)

lemma adds_bounded: "length (entries s) \<le> bound \<Longrightarrow> length (entries (fold add es s)) \<le> bound"
  by (induction es arbitrary: s) (simp_all add: bounded)

lemma adds: "length (entries s) \<le> bound \<Longrightarrow> entries (fold add es s) = take bound (rev es @ entries s)"
proof (induction es arbitrary: s)
  case (Cons e es)
  have "take bound (rev es @ take bound (e # entries s)) = take bound (rev es @ e # entries s)"
    by (simp add: min_def)
  then show ?case using Cons.IH [OF bounded [OF Cons.prems]] by (simp add: added [OF Cons.prems])
qed simp

lemma adds_after_wipe: "entries (fold add es (wipe s)) = take bound (rev es)"
  using adds [of "wipe s" es] by (simp add: wiped)

end

lemma store_add_take: "length es \<le> maxEntries \<Longrightarrow> store_add e es = take maxEntries (e # es)"
  by (simp add: store_add_def Let_def)

interpretation captured: recent_log store_add store_all store_clear maxEntries
  by unfold_locales (simp_all add: store_all_def store_clear_def store_add_take)

section \<open>Slow requests\<close>

record slow_entry =
  sl_id :: string
  sl_delay :: int
  sl_started :: string

definition slow_add :: "slow_entry \<Rightarrow> slow_entry list \<Rightarrow> slow_entry list" where
  "slow_add s ss = s # filter (\<lambda>t. sl_id t \<noteq> sl_id s) ss"

definition slow_remove :: "string \<Rightarrow> slow_entry list \<Rightarrow> slow_entry list" where
  "slow_remove i ss = filter (\<lambda>t. sl_id t \<noteq> i) ss"

definition slow_map :: "slow_entry list \<Rightarrow> string \<rightharpoonup> int \<times> string" where
  "slow_map ss = map_of (map (\<lambda>s. (sl_id s, (sl_delay s, sl_started s))) ss)"

section \<open>The broker\<close>

text \<open>The messages, as the page decodes them.\<close>

datatype message =
    MInit "hook_entry list" "slow_entry list"
  | MRequest hook_entry
  | MClear
  | MSlowStart slow_entry
  | MSlowEnd string

record hook =
  hk_store :: "hook_entry list"
  hk_slow :: "slow_entry list"
  hk_clients :: "(nat \<times> message list) list"

definition queue_size :: nat where
  "queue_size = 8"

definition subscribe :: "nat \<Rightarrow> hook \<Rightarrow> hook" where
  "subscribe c h = h\<lparr>hk_clients := (c, []) # hk_clients h\<rparr>"

definition unsubscribe :: "nat \<Rightarrow> hook \<Rightarrow> hook" where
  "unsubscribe c h = h\<lparr>hk_clients := filter (\<lambda>(k, q). k \<noteq> c) (hk_clients h)\<rparr>"

text \<open>A message to a client whose channel is full is dropped.\<close>

definition offer :: "message \<Rightarrow> message list \<Rightarrow> message list" where
  "offer m q = (if length q < queue_size then q @ [m] else q)"

definition broadcast :: "message \<Rightarrow> hook \<Rightarrow> hook" where
  "broadcast m h = h\<lparr>hk_clients := map (\<lambda>(c, q). (c, offer m q)) (hk_clients h)\<rparr>"

section \<open>Handlers\<close>

text \<open>\<open>strconv.Atoi\<close> with its error.\<close>

definition atoi_opt :: "string \<Rightarrow> int option" where
  "atoi_opt s =
     (let n = (case s of
          [] \<Rightarrow> None
        | c # cs \<Rightarrow>
            if c = CHR ''-'' then map_option (\<lambda>n. - int n) (numeral_of cs)
            else if c = CHR ''+'' then map_option int (numeral_of cs)
            else map_option int (numeral_of s))
      in case n of None \<Rightarrow> None | Some k \<Rightarrow> if - (2 ^ 63) \<le> k \<and> k < 2 ^ 63 then Some k else None)"

text \<open>The status a captured request is answered with, and the delay of a slow one.\<close>

definition status_of :: "string \<Rightarrow> nat" where
  "status_of sc = (case atoi_opt sc of None \<Rightarrow> 200 | Some n \<Rightarrow> if 100 \<le> n \<and> n < 600 then nat n else 200)"

definition delay_of :: "string \<Rightarrow> int" where
  "delay_of t = (case atoi_opt t of None \<Rightarrow> 5 | Some n \<Rightarrow> if 1 \<le> n \<and> n \<le> 120 then n else 5)"

text \<open>\<open>net/http\<close> treats an informational status as an interim answer; the final one is
  then 200.\<close>

definition final_status :: "nat \<Rightarrow> nat" where
  "final_status n = (if 100 \<le> n \<and> n < 200 \<and> n \<noteq> 101 then 200 else n)"

definition first_value :: "string \<Rightarrow> (string \<times> string list) list \<Rightarrow> string" where
  "first_value k ps = (case map_of ps k of Some (v # vs) \<Rightarrow> v | _ \<Rightarrow> [])"

definition joined :: "(string \<times> string list) list \<Rightarrow> (string \<times> string) list" where
  "joined ps = map (\<lambda>(k, vs). (k, join_with '', '' vs)) ps"

definition skipped_headers :: "string list" where
  "skipped_headers = [''Accept-Encoding'', ''User-Agent'', ''Content-Length'']"

definition capture_entry ::
    "string \<Rightarrow> string \<Rightarrow> string \<Rightarrow> string \<Rightarrow> (string \<times> string list) list \<Rightarrow> (string \<times> string list) list \<Rightarrow> string
     \<Rightarrow> hook_entry" where
  "capture_entry i now verb path query headers body =
     \<lparr>he_id = i, he_method = verb, he_path = path,
      he_query = joined (filter (\<lambda>(k, vs). k \<noteq> ''__status'') query),
      he_headers = joined (filter (\<lambda>(k, vs). k \<notin> set skipped_headers) headers),
      he_body = take 64000 body, he_time = now, he_status = status_of (first_value ''__status'' query)\<rparr>"

text \<open>
  The routes, as \<open>http.ServeMux\<close> documents them: a path that is not clean (an empty segment but the last,
  a dot or two dots as a segment) is answered with a redirection to its clean form, a path with a handler of
  its own goes there, every other to the capturing handler.  \<open>raw\<close> is the path as sent, \<open>path\<close> the unescaped one.
\<close>

datatype hook_route = HookHealth | HookDashboard | HookEvents | HookHistory | HookSlow | HookCapture | HookMoved

definition clean_path :: "string \<Rightarrow> bool" where
  "clean_path raw \<longleftrightarrow>
     (case raw of
        [] \<Rightarrow> False
      | c # cs \<Rightarrow> c = CHR ''/'' \<and> list_all (\<lambda>s. s \<noteq> []) (butlast (split_slash cs)) \<and>
          list_all (\<lambda>s. s \<noteq> ''.'' \<and> s \<noteq> ''..'') (split_slash cs))"

definition mux_paths :: "(string \<times> hook_route) list" where
  "mux_paths = [(''/health'', HookHealth), (''/__dashboard'', HookDashboard), (''/__events'', HookEvents),
     (''/__history'', HookHistory), (''/slow'', HookSlow)]"

definition mux :: "string \<Rightarrow> string \<Rightarrow> hook_route" where
  "mux raw path =
     (if clean_path raw then case map_of mux_paths path of None \<Rightarrow> HookCapture | Some r \<Rightarrow> r else HookMoved)"

datatype hook_op =
    Capture hook_entry
  | ClearHistory
  | SlowStart slow_entry
  | SlowEnd string

fun hook_step :: "hook_op \<Rightarrow> hook \<Rightarrow> hook" where
  "hook_step (Capture e) h = broadcast (MRequest e) (h\<lparr>hk_store := store_add e (hk_store h)\<rparr>)"
| "hook_step ClearHistory h = broadcast MClear (h\<lparr>hk_store := store_clear (hk_store h)\<rparr>)"
| "hook_step (SlowStart s) h = broadcast (MSlowStart s) (h\<lparr>hk_slow := slow_add s (hk_slow h)\<rparr>)"
| "hook_step (SlowEnd i) h = broadcast (MSlowEnd i) (h\<lparr>hk_slow := slow_remove i (hk_slow h)\<rparr>)"

fun op_message :: "hook_op \<Rightarrow> message" where
  "op_message (Capture e) = MRequest e"
| "op_message ClearHistory = MClear"
| "op_message (SlowStart s) = MSlowStart s"
| "op_message (SlowEnd i) = MSlowEnd i"

section \<open>Facts\<close>

lemma slow_map_remove: "slow_map (slow_remove i ss) = (slow_map ss)(i := None)"
  by (induction ss) (auto simp: slow_map_def slow_remove_def fun_eq_iff)

lemma slow_map_add: "slow_map (slow_add s ss) = (slow_map ss)(sl_id s \<mapsto> (sl_delay s, sl_started s))"
  using slow_map_remove [of "sl_id s" ss] by (simp add: slow_map_def slow_add_def slow_remove_def)

lemma take_Cons_take: "take n (e # take n es) = take n (e # es)"
  by (cases n) simp_all

definition queue_of :: "nat \<Rightarrow> hook \<Rightarrow> message list" where
  "queue_of c h = (case map_of (hk_clients h) c of None \<Rightarrow> [] | Some q \<Rightarrow> q)"

lemma clients_step: "hk_clients (hook_step op h) = map (\<lambda>(c, q). (c, offer (op_message op) q)) (hk_clients h)"
  by (cases op) (simp_all add: broadcast_def)

lemma map_of_offer: "map_of (map (\<lambda>(c, q). (c, offer m q)) cs) c = map_option (offer m) (map_of cs c)"
  by (induction cs) auto

lemma queue_step:
  "map_of (hk_clients h) c \<noteq> None \<Longrightarrow> queue_of c (hook_step op h) = offer (op_message op) (queue_of c h)"
  by (auto simp: queue_of_def clients_step map_of_offer)

lemma connected_step: "map_of (hk_clients (hook_step op h)) c \<noteq> None \<longleftrightarrow> map_of (hk_clients h) c \<noteq> None"
  by (simp add: clients_step map_of_offer)

section \<open>Properties\<close>

fun log_op :: "hook_op \<Rightarrow> hook_entry list \<Rightarrow> hook_entry list" where
  "log_op (Capture e) es = e # es"
| "log_op ClearHistory es = []"
| "log_op _ es = es"

text \<open>C24: The history is the newest hundred requests.  After any captures, clearings and slow requests the
  store holds, newest first, the requests captured since the last clearing, cut at a hundred.  The
  program has no setting for this number: the \<open>MAX_ENTRIES\<close> of its environment is not read.\<close>

theorem store_refines_log:
  "store_all (hk_store (fold hook_step ops \<lparr>hk_store = [], hk_slow = [], hk_clients = cs\<rparr>)) =
     take 100 (fold log_op ops [])"
proof -
  have "hk_store (fold hook_step ops h) = take maxEntries (fold log_op ops es)"
    if "hk_store h = take maxEntries es" for h es
    using that
  proof (induction ops arbitrary: h es)
    case (Cons op ops)
    have "hk_store (hook_step op h) = take maxEntries (log_op op es)"
    proof (cases op)
      case (Capture e)
      have "store_add e (take maxEntries es) = take maxEntries (e # take maxEntries es)"
        by (rule store_add_take) simp
      also have "\<dots> = take maxEntries (e # es)" by (rule take_Cons_take)
      finally show ?thesis using Cons.prems Capture by (simp add: broadcast_def)
    qed (use Cons.prems in \<open>simp_all add: broadcast_def store_clear_def\<close>)
    then show ?case using Cons.IH by simp
  qed simp
  then show ?thesis by (simp add: store_all_def maxEntries_def)
qed

text \<open>The recorded status is the one sent, unless it is informational.  For every value of
  \<open>__status\<close> the entry records a status from 100 to 599, 200 if the value is no such numeral, and a
  caller sees exactly this status, except that 100 to 199 other than 101 are seen as 200.  A slow
  request waits between 1 and 120 seconds, 5 by default.\<close>

theorem recorded_status:
  "let e = capture_entry i now verb path query headers body in
     100 \<le> he_status e \<and> he_status e < 600 \<and>
     (final_status (he_status e) = he_status e \<longleftrightarrow> 200 \<le> he_status e \<or> he_status e = 101) \<and>
     (n < 1000 \<and> first_value ''__status'' query = nat_string n \<longrightarrow>
        he_status e = (if 100 \<le> n \<and> n < 600 then n else 200)) \<and>
     list_all (\<lambda>(k, v). k \<noteq> ''__status'') (he_query e) \<and> length (he_body e) \<le> 64000 \<and>
     1 \<le> delay_of t \<and> delay_of t \<le> 120"
proof -
  have atoi: "atoi_opt (nat_string n) = Some (int n)" if "n < 1000" for n
  proof -
    obtain c cs where c: "nat_string n = c # cs" by (cases "nat_string n") simp_all
    have "digit_val c \<noteq> None" by (rule nat_string_digit_val [of _ n]) (simp add: c)
    then have "c \<noteq> CHR ''-''" "c \<noteq> CHR ''+''" by (auto simp: digit_val_def)
    then show ?thesis using digits_val_nat_string [of n] that by (simp add: atoi_opt_def c numeral_of_def)
  qed
  have range: "100 \<le> status_of sc" "status_of sc < 600" for sc
    by (simp_all add: status_of_def split: option.split) linarith+
  have "list_all (\<lambda>(k, v). k \<noteq> ''__status'') (joined (filter (\<lambda>(k, vs). k \<noteq> ''__status'') query))"
    by (auto simp: joined_def list_all_iff)
  moreover have "1 \<le> delay_of t" "delay_of t \<le> 120" by (simp_all add: delay_of_def split: option.split)
  moreover have "status_of (nat_string n) = (if 100 \<le> n \<and> n < 600 then n else 200)" if "n < 1000"
    using atoi [OF that] by (simp add: status_of_def)
  ultimately show ?thesis
    using range by (auto simp: capture_entry_def final_status_def Let_def)
qed

theorem recorded_status_witness:
  "he_status (capture_entry ''1'' ''t'' ''GET'' ''/p'' [(''__status'', [nat_string 503])] [] []) = 503 \<and>
   final_status (he_status (capture_entry ''1'' ''t'' ''GET'' ''/p'' [(''__status'', [nat_string 103])] [] [])) \<noteq> 103"
proof -
  have "he_status (capture_entry ''1'' ''t'' ''GET'' ''/p'' [(''__status'', [nat_string n])] [] []) = n"
    if "n < 1000" "100 \<le> n" "n < 600" for n
    using recorded_status [of "''1''" "''t''" "''GET''" "''/p''" "[(''__status'', [nat_string n])]" "[]" "[]" n "[]"] that
    by (simp add: Let_def first_value_def)
  from this [of 503] this [of 103] show ?thesis by (simp add: final_status_def)
qed

end
