(* ===== verification/HookPage.thy ===== *)
theory HookPage
  imports Webhook Widgets
begin

text \<open>
  The page of the request receiver, the script of \<open>cron-webhook/public/index.html\<close>: its variables and
  what it has put into the document (the items of the list with their \<open>active\<close> class, the pills of the
  running slow requests, the dot), the handling of every message and click, and its text escaping.  Then
  the page and the server together: a page that is connected mirrors the server as long as its channel
  does not overflow.  The markup of items and of the detail panel is in \<open>HookMarkup\<close>.
\<close>

section \<open>State\<close>

text \<open>\<open>activeSlows\<close> is a JavaScript map: its entries in the order of their insertion.\<close>

record page =
  pg_requests :: "hook_entry list"
  pg_selected :: "string option"
  pg_items :: "(string \<times> bool) list"
  pg_empty :: bool
  pg_count :: nat
  pg_detail :: "hook_entry option"
  pg_slows :: "(string \<times> int \<times> string) list"
  pg_pills :: "(string \<times> string) list"
  pg_live :: bool

definition page_init :: page where
  "page_init = \<lparr>pg_requests = [], pg_selected = None, pg_items = [], pg_empty = True, pg_count = 0,
     pg_detail = None, pg_slows = [], pg_pills = [], pg_live = False\<rparr>"

section \<open>Functions\<close>

text \<open>One pill per running slow request; the panel is visible if there is one.\<close>

definition updateSlowPanel :: "page \<Rightarrow> page" where
  "updateSlowPanel p = p\<lparr>pg_pills := map (\<lambda>(i, delay, started). (i, started)) (pg_slows p)\<rparr>"

definition panel_visible :: "page \<Rightarrow> bool" where
  "panel_visible p \<longleftrightarrow> pg_pills p \<noteq> []"

text \<open>
  The text of each pill at a moment: the start of the id, the whole seconds since the start, the delay.
  \<open>time\<close> reads a timestamp into milliseconds.
\<close>

definition refreshElapsed :: "(string \<Rightarrow> int) \<Rightarrow> int \<Rightarrow> page \<Rightarrow> string list" where
  "refreshElapsed time now p = map (\<lambda>(i, started).
     u16_take 8 i @ '' '' @ em_dash @ '' '' @ int_string ((now - time started) div 1000) @ ''s / '' @
     (case map_of (pg_slows p) i of None \<Rightarrow> ''?'' | Some (delay, _) \<Rightarrow> int_string delay) @ ''s'') (pg_pills p)"

definition clearDetail :: "page \<Rightarrow> page" where
  "clearDetail p = p\<lparr>pg_selected := None, pg_detail := None\<rparr>"

definition updateCount :: "page \<Rightarrow> page" where
  "updateCount p = p\<lparr>pg_count := length (pg_requests p)\<rparr>"

text \<open>\<open>querySelector\<close> finds the first item of an id.\<close>

fun mark_first :: "string \<Rightarrow> (string \<times> bool) list \<Rightarrow> (string \<times> bool) list" where
  "mark_first i [] = []"
| "mark_first i ((k, a) # xs) = (if k = i then (k, True) # xs else (k, a) # mark_first i xs)"

definition renderList :: "page \<Rightarrow> page" where
  "renderList p =
     (if pg_requests p = [] then clearDetail (p\<lparr>pg_items := [], pg_empty := True\<rparr>)
      else let q = updateCount (p\<lparr>pg_items := map (\<lambda>r. (he_id r, False)) (pg_requests p), pg_empty := False\<rparr>)
        in case pg_selected q of
             None \<Rightarrow> q
           | Some i \<Rightarrow> if i = [] then q else q\<lparr>pg_items := mark_first i (pg_items q)\<rparr>)"

definition max_items :: nat where
  "max_items = 500"

text \<open>The last item goes when there are too many.\<close>

definition capped :: "nat \<Rightarrow> 'a list \<Rightarrow> 'a list" where
  "capped n xs = (if n < length xs then butlast xs else xs)"

definition prependItem :: "hook_entry \<Rightarrow> page \<Rightarrow> page" where
  "prependItem r p = p\<lparr>pg_empty := False,
     pg_items := capped max_items ((he_id r, pg_selected p = Some (he_id r)) # pg_items p)\<rparr>"

definition selectItem :: "string \<Rightarrow> page \<Rightarrow> page" where
  "selectItem i p =
     (let q = p\<lparr>pg_selected := Some i, pg_items := map (\<lambda>(k, a). (k, k = i)) (pg_items p)\<rparr> in
      case find (\<lambda>r. he_id r = i) (pg_requests q) of
        None \<Rightarrow> q
      | Some r \<Rightarrow> q\<lparr>pg_detail := Some r\<rparr>)"

definition slow_put :: "slow_entry \<Rightarrow> (string \<times> int \<times> string) list \<Rightarrow> (string \<times> int \<times> string) list" where
  "slow_put s m = put m (sl_id s) (sl_delay s, sl_started s)"

fun onmessage :: "message \<Rightarrow> page \<Rightarrow> page" where
  "onmessage (MInit rs ss) p =
     updateSlowPanel (renderList (p\<lparr>pg_requests := rs, pg_slows := fold slow_put ss []\<rparr>))"
| "onmessage (MRequest r) p =
     (let q = updateCount (prependItem r (p\<lparr>pg_requests := r # pg_requests p\<rparr>)) in
      if pg_selected p = None then selectItem (he_id r) q else q)"
| "onmessage MClear p = clearDetail (renderList (p\<lparr>pg_requests := []\<rparr>))"
| "onmessage (MSlowStart s) p = updateSlowPanel (p\<lparr>pg_slows := slow_put s (pg_slows p)\<rparr>)"
| "onmessage (MSlowEnd i) p = updateSlowPanel (p\<lparr>pg_slows := filter (\<lambda>e. fst e \<noteq> i) (pg_slows p)\<rparr>)"

text \<open>The addresses the page shows, for the host and port it was loaded from.\<close>

definition hints :: "string \<Rightarrow> string \<Rightarrow> string list" where
  "hints hostname port =
     (let host = hostname @ '':'' @ port
      in [''http://'' @ host @ ''/*'', ''http://'' @ host @ ''/ping'', ''http://'' @ host @ ''/slow?delay=10''])"

text \<open>The dot says whether the stream is open; after an error the page connects again.\<close>

definition onopen :: "page \<Rightarrow> page" where
  "onopen p = p\<lparr>pg_live := True\<rparr>"

definition onerror :: "page \<Rightarrow> page" where
  "onerror p = p\<lparr>pg_live := False\<rparr>"

text \<open>The clear button asks the server only if there is something to clear.\<close>

definition clear_clicked :: "page \<Rightarrow> hook_op list" where
  "clear_clicked p = (if pg_requests p = [] then [] else [ClearHistory])"

text \<open>Everything that happens to the page; only items that are there can be clicked.\<close>

datatype page_event = Received message | Opened | Lost | Clicked string

fun page_step :: "page_event \<Rightarrow> page \<Rightarrow> page" where
  "page_step (Received m) p = onmessage m p"
| "page_step Opened p = onopen p"
| "page_step Lost p = onerror p"
| "page_step (Clicked i) p = (if i \<in> fst ` set (pg_items p) then selectItem i p else p)"

section \<open>Escaping\<close>

definition replace_all :: "char \<Rightarrow> string \<Rightarrow> string \<Rightarrow> string" where
  "replace_all c t s = concat (map (\<lambda>d. if d = c then t else [d]) s)"

definition quote_char :: char where
  "quote_char = CHR 0x22"

definition esc :: "string \<Rightarrow> string" where
  "esc s =
     replace_all quote_char ''&quot;''
       (replace_all CHR ''>'' ''&gt;'' (replace_all CHR ''<'' ''&lt;'' (replace_all CHR ''&'' ''&amp;'' s)))"

text \<open>The text a browser reads back from character data with these four references.\<close>

function unesc :: "string \<Rightarrow> string" where
  "unesc s =
     (if s = [] then []
      else if prefix ''&amp;'' s then CHR ''&'' # unesc (drop 5 s)
      else if prefix ''&lt;'' s then CHR ''<'' # unesc (drop 4 s)
      else if prefix ''&gt;'' s then CHR ''>'' # unesc (drop 4 s)
      else if prefix ''&quot;'' s then quote_char # unesc (drop 6 s)
      else hd s # unesc (tl s))"
  by pat_completeness auto
termination
  by (relation "measure length") (auto simp: neq_Nil_conv)

declare unesc.simps [simp del]

definition esc_char :: "char \<Rightarrow> string" where
  "esc_char c =
     (if c = CHR ''&'' then ''&amp;'' else if c = CHR ''<'' then ''&lt;'' else if c = CHR ''>'' then ''&gt;''
      else if c = quote_char then ''&quot;'' else [c])"

lemma replace_all_simps [simp]:
  "replace_all c t [] = []" "replace_all c t (d # s) = (if d = c then t else [d]) @ replace_all c t s"
  "replace_all c t (s @ s') = replace_all c t s @ replace_all c t s'"
  by (simp_all add: replace_all_def)

lemma esc_chars: "esc s = concat (map esc_char s)"
proof (induction s)
  case Nil
  then show ?case by (simp add: esc_def)
next
  case (Cons c s)
  have "esc (c # s) = esc_char c @ esc s"
    by (simp add: esc_def esc_char_def quote_char_def)
  with Cons.IH show ?case by simp
qed

lemma esc_char_safe: "set (esc_char c) \<inter> {CHR ''<'', CHR ''>'', quote_char} = {}"
  by (simp add: esc_char_def quote_char_def)

lemma unesc_esc_char: "unesc (esc_char c @ s) = c # unesc s"
  by (subst unesc.simps) (auto simp: esc_char_def quote_char_def)

section \<open>A page and the server\<close>

definition set_queue :: "nat \<Rightarrow> message list \<Rightarrow> hook \<Rightarrow> hook" where
  "set_queue c q h = h\<lparr>hk_clients := map (\<lambda>(k, q'). if k = c then (k, q) else (k, q')) (hk_clients h)\<rparr>"

text \<open>
  A stream of \<open>/__events\<close>: the server, the history its handler has read, what it has written that the page
  has not read yet, and the page.  The handler reads the history, then the slow requests and sends both,
  then subscribes its client, and from there on writes what it finds in the client's channel; anything may
  happen at the server between these steps.
\<close>

record stream =
  sm_hook :: hook
  sm_history :: "hook_entry list"
  sm_sent :: "message list"
  sm_page :: page

datatype stream_event = Happens hook_op | TakesHistory | SendsInit | Subscribes | Forwards | Reads

fun stream_step :: "nat \<Rightarrow> stream_event \<Rightarrow> stream \<Rightarrow> stream" where
  "stream_step c (Happens op) s = s\<lparr>sm_hook := hook_step op (sm_hook s)\<rparr>"
| "stream_step c TakesHistory s = s\<lparr>sm_history := store_all (hk_store (sm_hook s))\<rparr>"
| "stream_step c SendsInit s = s\<lparr>sm_sent := sm_sent s @ [MInit (sm_history s) (hk_slow (sm_hook s))]\<rparr>"
| "stream_step c Subscribes s = s\<lparr>sm_hook := subscribe c (sm_hook s)\<rparr>"
| "stream_step c Forwards s =
     (case queue_of c (sm_hook s) of
        [] \<Rightarrow> s
      | m # q \<Rightarrow> s\<lparr>sm_hook := set_queue c q (sm_hook s), sm_sent := sm_sent s @ [m]\<rparr>)"
| "stream_step c Reads s =
     (case sm_sent s of [] \<Rightarrow> s | m # ms \<Rightarrow> s\<lparr>sm_sent := ms, sm_page := onmessage m (sm_page s)\<rparr>)"

definition stream_run :: "nat \<Rightarrow> stream_event list \<Rightarrow> stream \<Rightarrow> stream" where
  "stream_run c evs s = fold (stream_step c) evs s"

text \<open>The operations of the server among the events.\<close>

fun ops_of :: "stream_event list \<Rightarrow> hook_op list" where
  "ops_of [] = []"
| "ops_of (Happens op # evs) = op # ops_of evs"
| "ops_of (_ # evs) = ops_of evs"

text \<open>A connection: before the first message only the server moves, before the subscription the page
  may read.\<close>

definition connection :: "hook_op list \<Rightarrow> stream_event list \<Rightarrow> stream_event list" where
  "connection ops gap = TakesHistory # map Happens ops @ SendsInit # gap @ [Subscribes]"

text \<open>No message finds the channel full.\<close>

fun roomy :: "nat \<Rightarrow> stream_event list \<Rightarrow> stream \<Rightarrow> bool" where
  "roomy c [] s \<longleftrightarrow> True"
| "roomy c (ev # evs) s \<longleftrightarrow>
     ((\<exists>op. ev = Happens op) \<longrightarrow> length (queue_of c (sm_hook s)) < queue_size) \<and> roomy c evs (stream_step c ev s)"

text \<open>The page once it has read what is on its way and what waits in the channel.\<close>

definition caught_up :: "nat \<Rightarrow> stream \<Rightarrow> page" where
  "caught_up c s = fold onmessage (sm_sent s @ queue_of c (sm_hook s)) (sm_page s)"

definition mirrors :: "hook \<Rightarrow> page \<Rightarrow> bool" where
  "mirrors h p \<longleftrightarrow>
     take maxEntries (pg_requests p) = hk_store h \<and> map_of (pg_slows p) = slow_map (hk_slow h) \<and>
     map fst (pg_items p) = map he_id (take max_items (pg_requests p)) \<and> (pg_empty p \<longleftrightarrow> pg_requests p = []) \<and>
     map fst (pg_pills p) = map fst (pg_slows p)"

lemma pills_selectItem [simp]: "pg_pills (selectItem i p) = pg_pills p"
  by (simp add: selectItem_def Let_def split: option.split)

lemma pills_renderList [simp]: "pg_pills (renderList p) = pg_pills p"
  by (simp add: renderList_def clearDetail_def updateCount_def Let_def split: option.split)

lemma selectItem_sel [simp]:
  "pg_requests (selectItem i p) = pg_requests p" "pg_slows (selectItem i p) = pg_slows p"
  "map fst (pg_items (selectItem i p)) = map fst (pg_items p)" "pg_empty (selectItem i p) = pg_empty p"
  by (simp_all add: selectItem_def Let_def case_prod_beta comp_def split: option.split)

lemma fst_mark_first [simp]: "map fst (mark_first i xs) = map fst xs"
  by (induction i xs rule: mark_first.induct) auto

lemma updateSlowPanel_sel [simp]:
  "pg_requests (updateSlowPanel p) = pg_requests p" "pg_slows (updateSlowPanel p) = pg_slows p"
  "pg_items (updateSlowPanel p) = pg_items p" "pg_empty (updateSlowPanel p) = pg_empty p"
  "pg_selected (updateSlowPanel p) = pg_selected p" "pg_detail (updateSlowPanel p) = pg_detail p"
  "pg_pills (updateSlowPanel p) = map (\<lambda>(i, delay, started). (i, started)) (pg_slows p)"
  by (simp_all add: updateSlowPanel_def)

lemma renderList_sel:
  "pg_requests (renderList p) = pg_requests p" "pg_slows (renderList p) = pg_slows p"
  "map fst (pg_items (renderList p)) = map he_id (pg_requests p)" "pg_empty (renderList p) \<longleftrightarrow> pg_requests p = []"
  by (auto simp: renderList_def clearDetail_def updateCount_def Let_def comp_def split: option.split)

lemma map_fst_capped [simp]: "map fst (capped n xs) = capped n (map fst xs)"
  by (simp add: capped_def map_butlast)

lemma map_of_filter_key: "map_of (filter (\<lambda>e. fst e \<noteq> i) xs) = (map_of xs)(i := None)"
  by (induction xs) (auto simp: fun_eq_iff)

lemma slow_puts: "map_of (fold slow_put ss m) = map_of m ++ slow_map (rev ss)"
  by (induction ss arbitrary: m) (simp_all add: slow_put_def slow_map_def map_add_def fun_eq_iff split: option.split)

lemma slow_map_rev: "distinct (map sl_id ss) \<Longrightarrow> slow_map (rev ss) = slow_map ss"
  unfolding slow_map_def by (subst map_of_inject_set) (simp_all add: comp_def rev_map [symmetric])

lemma dom_slow_map: "dom (slow_map ss) = sl_id ` set ss"
  by (simp add: slow_map_def dom_map_of_conv_image_fst image_image)

lemma capped_Cons: "capped n (x # take n xs) = take n (x # xs)"
proof -
  have "capped n (x # ys) = take n (x # ys)" if "length ys \<le> n" for ys
  proof (cases "length ys = n")
    case True
    then show ?thesis by (simp add: capped_def butlast_conv_take)
  qed (use that in \<open>simp add: capped_def\<close>)
  from this [of "take n xs"] show ?thesis by (simp add: take_Cons_take)
qed

lemma mirrors_op:
  assumes "mirrors h p"
  shows "mirrors (hook_step op h) (onmessage (op_message op) p)"
proof (cases op)
  case (Capture e)
  have "length (hk_store h) \<le> maxEntries" using assms unfolding mirrors_def by (metis length_take min.cobounded2)
  then have "store_add e (hk_store h) = take maxEntries (e # pg_requests p)"
    using assms store_add_take [of "hk_store h" e] take_Cons_take [of maxEntries e "pg_requests p"]
    by (simp add: mirrors_def)
  moreover have "capped max_items (he_id e # map he_id (take max_items (pg_requests p))) =
      map he_id (take max_items (e # pg_requests p))"
    using capped_Cons [of max_items "he_id e" "map he_id (pg_requests p)"]
    by (simp only: take_map list.map flip: list.map(2))
  ultimately show ?thesis
    using assms Capture by (simp add: mirrors_def broadcast_def prependItem_def updateCount_def Let_def)
next
  case ClearHistory
  then show ?thesis
    using assms by (simp add: mirrors_def broadcast_def renderList_def clearDetail_def store_clear_def)
qed (use assms in \<open>simp_all add: mirrors_def broadcast_def slow_map_add slow_map_remove slow_put_def map_of_filter_key
    case_prod_beta comp_def\<close>)

lemma map_of_set_queue:
  "map_of (hk_clients (set_queue c q h)) c = (case map_of (hk_clients h) c of None \<Rightarrow> None | Some q' \<Rightarrow> Some q)"
proof -
  have "map_of (map (\<lambda>(k, q'). if k = c then (k, q) else (k, q')) cs) c =
      (case map_of cs c of None \<Rightarrow> None | Some q' \<Rightarrow> Some q)" for cs
    by (induction cs) auto
  then show ?thesis by (simp add: set_queue_def)
qed

lemma mirrors_ops: "mirrors h p \<Longrightarrow> mirrors (fold hook_step ops h) (fold onmessage (map op_message ops) p)"
  by (induction ops arbitrary: h p) (simp_all add: mirrors_op)

lemma mirrors_same: "hk_store h = hk_store h' \<Longrightarrow> hk_slow h = hk_slow h' \<Longrightarrow> mirrors h p \<longleftrightarrow> mirrors h' p"
  by (simp add: mirrors_def)

lemma hook_step_frame:
  "hk_store h = hk_store h' \<Longrightarrow> hk_slow h = hk_slow h' \<Longrightarrow>
    hk_store (hook_step op h) = hk_store (hook_step op h') \<and> hk_slow (hook_step op h) = hk_slow (hook_step op h')"
  by (cases op) (simp_all add: broadcast_def)

lemma hook_steps_frame:
  "hk_store h = hk_store h' \<Longrightarrow> hk_slow h = hk_slow h' \<Longrightarrow>
    hk_store (fold hook_step ops h) = hk_store (fold hook_step ops h') \<and>
    hk_slow (fold hook_step ops h) = hk_slow (fold hook_step ops h')"
proof (induction ops arbitrary: h h')
  case (Cons op ops)
  note f = hook_step_frame [OF Cons.prems, of op]
  show ?case using Cons.IH [OF f [THEN conjunct1] f [THEN conjunct2]] unfolding fold.simps comp_def .
qed simp

lemma slow_distinct_step: "distinct (map sl_id (hk_slow h)) \<Longrightarrow> distinct (map sl_id (hk_slow (hook_step op h)))"
  by (cases op) (simp_all add: broadcast_def slow_add_def slow_remove_def distinct_map_filter image_iff, auto)

lemma slow_distinct: "distinct (map sl_id (hk_slow h)) \<Longrightarrow> distinct (map sl_id (hk_slow (fold hook_step ops h)))"
  by (induction ops arbitrary: h) (simp_all add: slow_distinct_step)

text \<open>Once subscribed, forwarding and reading leave the caught-up page as it is, an operation adds its
  message.\<close>

lemma caught_up_step:
  assumes "map_of (hk_clients (sm_hook s)) c \<noteq> None" and "roomy c [ev] s" and "ev \<notin> {TakesHistory, SendsInit, Subscribes}"
  shows "map_of (hk_clients (sm_hook (stream_step c ev s))) c \<noteq> None \<and>
    caught_up c (stream_step c ev s) = fold onmessage (map op_message (ops_of [ev])) (caught_up c s)"
proof (cases ev)
  case (Happens op)
  have "queue_of c (hook_step op (sm_hook s)) = queue_of c (sm_hook s) @ [op_message op]"
    using assms(1,2) Happens queue_step [of "sm_hook s" c op] by (simp add: offer_def)
  then show ?thesis using assms(1) connected_step [of op "sm_hook s" c] by (simp add: Happens caught_up_def)
next
  case Forwards
  show ?thesis
  proof (cases "queue_of c (sm_hook s)")
    case (Cons m q)
    have "queue_of c (set_queue c q (sm_hook s)) = q" "map_of (hk_clients (set_queue c q (sm_hook s))) c \<noteq> None"
      using assms(1) by (auto simp: queue_of_def map_of_set_queue)
    then show ?thesis by (simp add: Forwards Cons caught_up_def)
  qed (use assms(1) in \<open>simp add: Forwards\<close>)
next
  case Reads
  then show ?thesis using assms(1) by (cases "sm_sent s") (simp_all add: caught_up_def)
qed (use assms(3) in simp_all)

lemma ops_of_append: "ops_of (xs @ ys) = ops_of xs @ ops_of ys"
  by (induction xs rule: ops_of.induct) simp_all

lemma ops_of_happens [simp]: "ops_of (map Happens ops) = ops"
  by (induction ops) simp_all

lemma caught_up_run:
  assumes "map_of (hk_clients (sm_hook s)) c \<noteq> None" and "roomy c evs s"
    and "set evs \<inter> {TakesHistory, SendsInit, Subscribes} = {}"
  shows "caught_up c (stream_run c evs s) = fold onmessage (map op_message (ops_of evs)) (caught_up c s)"
  using assms unfolding stream_run_def
proof (induction evs arbitrary: s)
  case (Cons ev evs)
  have split: "ops_of (ev # evs) = ops_of [ev] @ ops_of evs" using ops_of_append [of "[ev]" evs] by simp
  have step: "map_of (hk_clients (sm_hook (stream_step c ev s))) c \<noteq> None \<and>
      caught_up c (stream_step c ev s) = fold onmessage (map op_message (ops_of [ev])) (caught_up c s)"
    by (rule caught_up_step) (use Cons.prems in auto)
  moreover have "caught_up c (fold (stream_step c) evs (stream_step c ev s)) =
      fold onmessage (map op_message (ops_of evs)) (caught_up c (stream_step c ev s))"
    by (rule Cons.IH) (use step Cons.prems in auto)
  ultimately show ?case unfolding split map_append fold_append by simp
qed simp

text \<open>What the server does is what happens to it, whatever the streams do.\<close>

lemma stream_server:
  "hk_store (sm_hook (stream_run c evs s)) = hk_store (fold hook_step (ops_of evs) (sm_hook s)) \<and>
   hk_slow (sm_hook (stream_run c evs s)) = hk_slow (fold hook_step (ops_of evs) (sm_hook s))"
  unfolding stream_run_def
proof (induction evs arbitrary: s)
  case (Cons ev evs)
  have "hk_store (sm_hook (stream_step c ev s)) = hk_store (fold hook_step (ops_of [ev]) (sm_hook s)) \<and>
      hk_slow (sm_hook (stream_step c ev s)) = hk_slow (fold hook_step (ops_of [ev]) (sm_hook s))"
    by (cases ev) (auto simp: subscribe_def set_queue_def split: list.split)
  moreover have "ops_of (ev # evs) = ops_of [ev] @ ops_of evs" using ops_of_append [of "[ev]" evs] by simp
  ultimately show ?case
    using Cons.IH [of "stream_step c ev s"] hook_steps_frame [of "sm_hook (stream_step c ev s)" "fold hook_step (ops_of [ev]) (sm_hook s)" "ops_of evs"]
    by simp
qed simp

text \<open>A stream on its way to the subscription: its client gets nothing, the page reads at most the
  first message.\<close>

lemma gap_run:
  assumes "map_of (hk_clients (sm_hook s)) c = None" and "set gap \<inter> {TakesHistory, SendsInit, Subscribes} = {}"
  shows "map_of (hk_clients (sm_hook (stream_run c gap s))) c = None \<and> caught_up c (stream_run c gap s) = caught_up c s"
  using assms unfolding stream_run_def
proof (induction gap arbitrary: s)
  case (Cons ev evs)
  have "map_of (hk_clients (sm_hook (stream_step c ev s))) c = None \<and> caught_up c (stream_step c ev s) = caught_up c s"
  proof (cases ev)
    case (Happens op)
    then have "map_of (hk_clients (hook_step op (sm_hook s))) c = None"
      using Cons.prems(1) connected_step [of op "sm_hook s" c] by blast
    then show ?thesis using Cons.prems(1) Happens by (simp add: caught_up_def queue_of_def)
  next
    case Reads
    then show ?thesis using Cons.prems(1) by (cases "sm_sent s") (simp_all add: caught_up_def)
  qed (use Cons.prems in \<open>simp_all add: queue_of_def\<close>)
  then show ?case using Cons by simp
qed simp

lemma stream_run_simps [simp]:
  "stream_run c [] s = s" "stream_run c (ev # evs) s = stream_run c evs (stream_step c ev s)"
  "stream_run c (xs @ ys) s = stream_run c ys (stream_run c xs s)"
  by (simp_all add: stream_run_def)

lemma stream_happens: "stream_run c (map Happens ops) s = s\<lparr>sm_hook := fold hook_step ops (sm_hook s)\<rparr>"
  by (induction ops arbitrary: s) simp_all

lemma subscribed_caught_up:
  "map_of (hk_clients (sm_hook s)) c = None \<Longrightarrow> caught_up c (stream_step c Subscribes s) = caught_up c s"
  by (simp add: caught_up_def queue_of_def subscribe_def)

lemma opened:
  assumes "map_of (hk_clients h) c = None" and "set gap \<inter> {TakesHistory, SendsInit, Subscribes} = {}"
  shows "map_of (hk_clients (sm_hook (stream_run c (connection ops gap) \<lparr>sm_hook = h, sm_history = es, sm_sent = [], sm_page = p\<rparr>))) c \<noteq> None \<and>
    caught_up c (stream_run c (connection ops gap) \<lparr>sm_hook = h, sm_history = es, sm_sent = [], sm_page = p\<rparr>) =
      onmessage (MInit (hk_store h) (hk_slow (fold hook_step ops h))) p"
proof -
  let ?s = "\<lparr>sm_hook = fold hook_step ops h, sm_history = hk_store h,
      sm_sent = [MInit (hk_store h) (hk_slow (fold hook_step ops h))], sm_page = p\<rparr>"
  have run: "stream_run c (connection ops gap) \<lparr>sm_hook = h, sm_history = es, sm_sent = [], sm_page = p\<rparr> =
      stream_step c Subscribes (stream_run c gap ?s)"
    by (simp add: connection_def stream_happens store_all_def)
  have none: "map_of (hk_clients (fold hook_step ops h)) c = None"
    using assms(1)
  proof (induction ops arbitrary: h)
    case (Cons op ops)
    then show ?case using connected_step [of op h c] Cons.IH [of "hook_step op h"] by fastforce
  qed simp
  then have "caught_up c ?s = onmessage (MInit (hk_store h) (hk_slow (fold hook_step ops h))) p"
    by (simp add: caught_up_def queue_of_def)
  moreover have "map_of (hk_clients (sm_hook (stream_run c gap ?s))) c = None \<and> caught_up c (stream_run c gap ?s) = caught_up c ?s"
    by (rule gap_run) (use none assms(2) in simp_all)
  ultimately show ?thesis by (simp only: run subscribed_caught_up) (simp add: subscribe_def)
qed

lemma init_mirrors:
  assumes "length es \<le> maxEntries" and "distinct (map sl_id ss)"
  shows "mirrors \<lparr>hk_store = es, hk_slow = ss, hk_clients = cs\<rparr> (onmessage (MInit es ss) p)"
  using assms unfolding mirrors_def
  by (simp add: renderList_sel slow_puts slow_map_rev [OF assms(2)] max_items_def maxEntries_def case_prod_beta comp_def)

section \<open>Selection\<close>

definition selection_ok :: "page \<Rightarrow> bool" where
  "selection_ok p \<longleftrightarrow>
     pg_selected p = map_option he_id (pg_detail p) \<and>
     fst ` set (filter snd (pg_items p)) \<subseteq> set_option (pg_selected p) \<and>
     (case pg_selected p of None \<Rightarrow> True | Some i \<Rightarrow> i = [] \<or> map_of (pg_items p) i \<noteq> Some False) \<and>
     fst ` set (pg_items p) \<subseteq> he_id ` set (pg_requests p)"

lemma map_of_butlast: "map_of (butlast xs) k = Some v \<Longrightarrow> map_of xs k = Some v"
  by (induction xs) (auto split: if_splits)

lemma map_of_capped: "map_of xs k \<noteq> Some v \<Longrightarrow> map_of (capped n xs) k \<noteq> Some v"
  using map_of_butlast [of xs k v] by (auto simp: capped_def)

lemma set_capped: "set (capped n xs) \<subseteq> set xs"
  by (auto simp: capped_def dest: in_set_butlastD)

lemma mark_first_active: "list_all (Not \<circ> snd) xs \<Longrightarrow> fst ` set (filter snd (mark_first i xs)) \<subseteq> {i}"
  by (induction i xs rule: mark_first.induct) (auto simp: list_all_iff)

lemma mark_first_found: "map_of (mark_first i xs) i \<noteq> Some False"
  by (induction i xs rule: mark_first.induct) auto

lemma map_of_active: "map_of (map (\<lambda>(k, a). (k, k = i)) xs) i \<noteq> Some False"
  by (induction xs) auto

lemma selection_ok_same:
  "pg_selected q = pg_selected p \<Longrightarrow> pg_detail q = pg_detail p \<Longrightarrow> pg_items q = pg_items p \<Longrightarrow>
    pg_requests q = pg_requests p \<Longrightarrow> selection_ok q \<longleftrightarrow> selection_ok p"
  by (simp only: selection_ok_def)

lemma selection_ok_simps [simp]:
  "selection_ok (updateSlowPanel p) \<longleftrightarrow> selection_ok p" "selection_ok (p\<lparr>pg_slows := m\<rparr>) \<longleftrightarrow> selection_ok p"
  "selection_ok (onopen p) \<longleftrightarrow> selection_ok p" "selection_ok (onerror p) \<longleftrightarrow> selection_ok p"
  by (rule selection_ok_same; simp add: onopen_def onerror_def)+

lemma selection_ok_renderList:
  assumes "pg_selected p = map_option he_id (pg_detail p)"
  shows "selection_ok (renderList p)"
proof (cases "pg_requests p = []")
  case False
  let ?xs = "map (\<lambda>r. (he_id r, False)) (pg_requests p)"
  have none: "filter snd ?xs = []" "list_all (Not \<circ> snd) ?xs" by (simp_all add: filter_map comp_def list_all_iff)
  have keys: "fst ` set (mark_first i ?xs) = he_id ` set (pg_requests p)" for i
    by (subst set_map [symmetric], subst fst_mark_first) (simp add: image_image)
  show ?thesis
    using False assms none keys mark_first_active [OF none(2)] mark_first_found
    by (auto simp: selection_ok_def renderList_def updateCount_def Let_def image_image split: option.split)
qed (simp add: selection_ok_def renderList_def clearDetail_def)

lemma selection_ok_selectItem:
  assumes "selection_ok p" and "i \<in> fst ` set (pg_items p)"
  shows "selection_ok (selectItem i p)"
proof -
  have "i \<in> he_id ` set (pg_requests p)" using assms by (auto simp: selection_ok_def)
  then obtain r where r: "find (\<lambda>r. he_id r = i) (pg_requests p) = Some r" "he_id r = i"
    by (cases "find (\<lambda>r. he_id r = i) (pg_requests p)") (auto simp: find_None_iff dest: find_SomeD)
  then show ?thesis
    using assms map_of_active [of i "pg_items p"] by (auto simp: selection_ok_def selectItem_def Let_def)
qed

lemma selection_ok_prepend:
  assumes "selection_ok p"
  shows "selection_ok (updateCount (prependItem r (p\<lparr>pg_requests := r # pg_requests p\<rparr>)))"
proof -
  let ?x = "(he_id r, pg_selected p = Some (he_id r))"
  have old: "pg_selected p = map_option he_id (pg_detail p)" "fst ` set (filter snd (pg_items p)) \<subseteq> set_option (pg_selected p)"
    "fst ` set (pg_items p) \<subseteq> he_id ` set (pg_requests p)"
    using assms unfolding selection_ok_def by blast+
  have mark: "pg_selected p = Some i \<Longrightarrow> i = [] \<or> map_of (pg_items p) i \<noteq> Some False" for i
    using assms by (auto simp: selection_ok_def)
  have keep: "pg_selected p = Some i \<Longrightarrow> i = [] \<or> map_of (capped max_items (?x # pg_items p)) i \<noteq> Some False" for i
    using mark [of i] map_of_capped [of "?x # pg_items p" i False max_items] by (cases "i = he_id r") auto
  let ?xs = "capped max_items (?x # pg_items p)"
  have sub: "x = ?x \<or> x \<in> set (pg_items p)" if "x \<in> set ?xs" for x
    using subsetD [OF set_capped that] by simp
  have "fst ` set (filter snd ?xs) \<subseteq> set_option (pg_selected p)"
  proof (rule image_subsetI)
    fix x assume "x \<in> set (filter snd ?xs)"
    then have "x \<in> set ?xs" "snd x" by simp_all
    then show "fst x \<in> set_option (pg_selected p)"
      using sub [of x] subsetD [OF old(2), of "fst x"] by auto
  qed
  moreover have "fst ` set ?xs \<subseteq> insert (he_id r) (he_id ` set (pg_requests p))"
    using subsetD [OF old(3)] by (auto dest!: sub)
  moreover have "case pg_selected p of None \<Rightarrow> True | Some i \<Rightarrow> i = [] \<or> map_of ?xs i \<noteq> Some False"
    using keep by (simp split: option.split)
  moreover let ?q = "updateCount (prependItem r (p\<lparr>pg_requests := r # pg_requests p\<rparr>))"
  have "pg_selected ?q = pg_selected p" "pg_detail ?q = pg_detail p" "pg_items ?q = ?xs" "pg_requests ?q = r # pg_requests p"
    by (simp_all add: prependItem_def updateCount_def)
  ultimately show ?thesis using old(1) by (simp only: selection_ok_def list.set image_insert)
qed

lemma selection_ok_step:
  assumes "selection_ok p"
  shows "selection_ok (page_step ev p)"
proof (cases ev)
  case (Received m)
  then show ?thesis
  proof (cases m)
    case (MInit rs ss)
    have "selection_ok (renderList (p\<lparr>pg_requests := rs, pg_slows := fold slow_put ss []\<rparr>))"
      by (rule selection_ok_renderList) (use assms in \<open>simp add: selection_ok_def\<close>)
    then show ?thesis using Received MInit by simp
  next
    case (MRequest r)
    let ?q = "updateCount (prependItem r (p\<lparr>pg_requests := r # pg_requests p\<rparr>))"
    have "he_id r \<in> fst ` set (pg_items ?q)"
      by (simp add: prependItem_def updateCount_def capped_def max_items_def)
    then show ?thesis
      using Received MRequest selection_ok_prepend [OF assms, of r] selection_ok_selectItem [of ?q "he_id r"] by (simp add: Let_def)
  next
    case MClear
    then show ?thesis using Received by (simp add: selection_ok_def clearDetail_def renderList_def)
  qed (use assms Received in simp_all)
next
  case (Clicked i)
  then show ?thesis using assms selection_ok_selectItem by simp
qed (use assms in simp_all)

interpretation page_kept: kept_by page_step selection_ok
  by unfold_locales (rule selection_ok_step)

section \<open>Properties\<close>

text \<open>C28: The detail panel, the selection and the highlighted item agree.  After any messages, clicks and
  interruptions of the stream, the panel shows a request exactly when one is selected, and this one; no
  item but the selected one is highlighted, and if the selected request is in the list, its first item
  is highlighted.\<close>

theorem selection_shown:
  "let p = fold page_step evs page_init in
    pg_selected p = map_option he_id (pg_detail p) \<and>
    fst ` set (filter snd (pg_items p)) \<subseteq> set_option (pg_selected p) \<and>
    (case pg_selected p of None \<Rightarrow> True | Some i \<Rightarrow> i = [] \<or> map_of (pg_items p) i \<in> {None, Some True})"
proof -
  have "selection_ok page_init" by (simp add: selection_ok_def page_init_def)
  then have "selection_ok (fold page_step evs page_init)" by (rule page_kept.in_a_row)
  moreover have two: "x \<noteq> Some False \<longleftrightarrow> x \<in> {None, Some True}" for x by (cases x) auto
  ultimately show ?thesis unfolding selection_ok_def Let_def two by blast
qed

text \<open>C22: A page mirrors the server but for the gap of its connection. The handler reads the history,
  then the slow requests, sends both, and subscribes the client; an operation of the server changes its
  stores and sends its message in one step. Whatever happens at the server before, between
  (\<open>ops\<close>, \<open>gap\<close>) and after these steps (\<open>evs\<close>) and whenever messages
  are forwarded and read, as long as no message finds the page's channel full: once the page has read what
  is on its way to it, its newest hundred requests are the history, and its running slow requests, each with
  a pill, those, of a server on which everything happened but what fell into the gap: the history read
  first, the slow requests read second, then the operations since the subscription. The list shows its
  newest five hundred requests, or the placeholder. If nothing fell into the gap this is the state of the
  server itself.\<close>

theorem page_mirrors_server:
  assumes "length (hk_store h) \<le> 100" and "distinct (map sl_id (hk_slow h))" and "map_of (hk_clients h) c = None"
    and "set gap \<inter> {TakesHistory, SendsInit, Subscribes} = {}" and "set evs \<inter> {TakesHistory, SendsInit, Subscribes} = {}"
    and "t = stream_run c (connection ops gap) \<lparr>sm_hook = h, sm_history = [], sm_sent = [], sm_page = p\<rparr>" and "roomy c evs t"
    and "s = stream_run c evs t"
  shows "let q = fold onmessage (sm_sent s @ queue_of c (sm_hook s)) (sm_page s);
      seen = fold hook_step (ops_of evs) \<lparr>hk_store = hk_store h, hk_slow = hk_slow (fold hook_step ops h), hk_clients = []\<rparr>
    in take 100 (pg_requests q) = hk_store seen \<and> map_of (pg_slows q) = slow_map (hk_slow seen) \<and>
      fst ` set (pg_pills q) = sl_id ` set (hk_slow seen) \<and> (panel_visible q \<longleftrightarrow> hk_slow seen \<noteq> []) \<and>
      map fst (pg_items q) = map he_id (take 500 (pg_requests q)) \<and> (pg_empty q \<longleftrightarrow> pg_requests q = []) \<and>
      (ops @ ops_of gap = [] \<longrightarrow> hk_store seen = hk_store (sm_hook s) \<and> hk_slow seen = hk_slow (sm_hook s))"
proof -
  let ?h = "\<lparr>hk_store = hk_store h, hk_slow = hk_slow (fold hook_step ops h), hk_clients = []\<rparr>"
  let ?q = "caught_up c s"
  let ?seen = "fold hook_step (ops_of evs) ?h"
  note o = opened [OF assms(3,4), of ops "[]" p, folded assms(6)]
  have "mirrors ?h (caught_up c t)"
    unfolding o [THEN conjunct2] using assms(1) slow_distinct [OF assms(2), of ops]
    by (intro init_mirrors) (simp_all add: maxEntries_def)
  then have m: "mirrors ?seen ?q"
    unfolding assms(8) caught_up_run [OF o [THEN conjunct1] assms(7,5)] by (rule mirrors_ops)
  have pills: "fst ` set (pg_pills ?q) = sl_id ` set (hk_slow ?seen)"
  proof -
    have "set (map fst (pg_pills ?q)) = set (map fst (pg_slows ?q))" "map_of (pg_slows ?q) = slow_map (hk_slow ?seen)"
      using m by (simp_all only: mirrors_def)
    then show ?thesis
      using dom_map_of_conv_image_fst [of "pg_slows ?q"] dom_slow_map [of "hk_slow ?seen"] by simp
  qed
  moreover have "panel_visible ?q \<longleftrightarrow> hk_slow ?seen \<noteq> []" using pills by (auto simp: panel_visible_def)
  moreover have "hk_store ?seen = hk_store (sm_hook s) \<and> hk_slow ?seen = hk_slow (sm_hook s)" if "ops @ ops_of gap = []"
  proof -
    have "hk_store (sm_hook t) = hk_store h \<and> hk_slow (sm_hook t) = hk_slow h"
      using stream_server [of c "connection ops gap" "\<lparr>sm_hook = h, sm_history = [], sm_sent = [], sm_page = p\<rparr>"] that
      by (simp add: assms(6) connection_def ops_of_append)
    then show ?thesis
      using stream_server [of c evs t] hook_steps_frame [of ?h "sm_hook t" "ops_of evs"] that by (simp add: assms(8))
  qed
  ultimately show ?thesis
    using m unfolding mirrors_def maxEntries_def max_items_def caught_up_def Let_def by blast
qed

definition ping :: "string \<Rightarrow> hook_entry" where
  "ping i = \<lparr>he_id = i, he_method = ''GET'', he_path = ''/ping'', he_query = [], he_headers = [], he_body = [],
     he_time = ''t'', he_status = 200\<rparr>"

definition idle :: hook where
  "idle = \<lparr>hk_store = [], hk_slow = [], hk_clients = []\<rparr>"

theorem page_mirrors_server_witness:
  "let t = stream_run 0 (connection [] [Happens (Capture (ping ''0''))])
         \<lparr>sm_hook = idle, sm_history = [], sm_sent = [], sm_page = page_init\<rparr>;
       s = stream_run 0 [Happens (Capture (ping ''1'')), Forwards, Reads, Reads, Happens (Capture (ping ''2''))] t
   in hk_store (sm_hook s) = [ping ''2'', ping ''1'', ping ''0''] \<and>
      take 100 (pg_requests (fold onmessage (sm_sent s @ queue_of 0 (sm_hook s)) (sm_page s))) = [ping ''2'', ping ''1'']"
proof -
  let ?evs = "[Happens (Capture (ping ''1'')), Forwards, Reads, Reads, Happens (Capture (ping ''2''))]"
  let ?gap = "[Happens (Capture (ping ''0''))]"
  let ?t = "stream_run 0 (connection [] ?gap) \<lparr>sm_hook = idle, sm_history = [], sm_sent = [], sm_page = page_init\<rparr>"
  note eval = connection_def idle_def subscribe_def broadcast_def queue_of_def offer_def queue_size_def set_queue_def
    store_add_def maxEntries_def store_all_def
  have small: "length (hk_store idle) \<le> 100" "distinct (map sl_id (hk_slow idle))" "map_of (hk_clients idle) 0 = None"
    by (simp_all add: idle_def)
  have gap: "set ?gap \<inter> {TakesHistory, SendsInit, Subscribes} = {}" and evs: "set ?evs \<inter> {TakesHistory, SendsInit, Subscribes} = {}"
    by simp_all
  have room: "roomy 0 ?evs ?t" by (simp add: eval)
  have "hk_store (sm_hook (stream_run 0 ?evs ?t)) = [ping ''2'', ping ''1'', ping ''0'']" by (simp add: eval)
  then show ?thesis
    using page_mirrors_server [OF small gap evs refl room refl, unfolded Let_def, THEN conjunct1]
    unfolding Let_def by (simp add: idle_def broadcast_def store_add_def maxEntries_def)
qed

text \<open>What falls into the gap is lost to the page: a request captured between the first message and the
  subscription is in the history, but neither on its way to the page nor shown by it.\<close>

theorem request_in_gap_lost:
  assumes "map_of (hk_clients h) c = None" and "he_id e \<notin> he_id ` set (hk_store h)"
    and "t = stream_run c (connection [] [Happens (Capture e)]) \<lparr>sm_hook = h, sm_history = [], sm_sent = [], sm_page = p\<rparr>"
  shows "e \<in> set (hk_store (sm_hook t)) \<and> e \<notin> set (pg_requests (caught_up c t)) \<and>
    he_id e \<notin> fst ` set (pg_items (caught_up c t))"
proof -
  have "caught_up c t = onmessage (MInit (hk_store h) (hk_slow h)) p"
    using opened [OF assms(1), of "[Happens (Capture e)]" "[]" "[]" p] by (simp add: assms(3))
  moreover have "e \<in> set (hk_store (sm_hook t))"
    using stream_server [of c "connection [] [Happens (Capture e)]" "\<lparr>sm_hook = h, sm_history = [], sm_sent = [], sm_page = p\<rparr>"]
    by (simp add: assms(3) connection_def store_add_def broadcast_def maxEntries_def Let_def take_Cons')
  moreover have "e \<notin> set (hk_store h)" using assms(2) by auto
  moreover have "set (map fst (pg_items (onmessage (MInit (hk_store h) (hk_slow h)) p))) = he_id ` set (hk_store h)"
    by (simp only: onmessage.simps updateSlowPanel_sel renderList_sel) simp
  then have "he_id e \<notin> fst ` set (pg_items (onmessage (MInit (hk_store h) (hk_slow h)) p))" using assms(2) by (metis set_map)
  ultimately show ?thesis by (simp add: renderList_sel)
qed

theorem request_in_gap_lost_witness:
  "let t = stream_run 0 (connection [] [Happens (Capture (ping ''1''))])
       \<lparr>sm_hook = idle, sm_history = [], sm_sent = [], sm_page = page_init\<rparr>
   in ping ''1'' \<in> set (hk_store (sm_hook t)) \<and> ping ''1'' \<notin> set (pg_requests (caught_up 0 t))"
proof -
  have "map_of (hk_clients idle) 0 = None" "he_id (ping ''1'') \<notin> he_id ` set (hk_store idle)" by (simp_all add: idle_def)
  from request_in_gap_lost [OF this refl] show ?thesis by (simp add: Let_def)
qed

text \<open>Escaped text is inert and loses nothing. What \<open>esc\<close> returns has no angle
  bracket and no double quote, replacing each character once is the same as the four passes, and reading the
  references gives the text back.\<close>

theorem esc_inert:
  "set (esc s) \<inter> {CHR ''<'', CHR ''>'', quote_char} = {} \<and> esc s = concat (map esc_char s) \<and> unesc (esc s) = s"
proof -
  have "unesc (concat (map esc_char s)) = s"
    by (induction s) (simp_all add: unesc_esc_char, simp add: unesc.simps)
  then show ?thesis using esc_char_safe by (auto simp: esc_chars)
qed

text \<open>Clearing leaves the counter: \<open>renderList\<close> returns before it is updated.\<close>

lemma counter_stale: "pg_count (onmessage MClear p) = pg_count p \<and> pg_requests (onmessage MClear p) = []"
  by (simp add: renderList_def clearDetail_def)

end
