(* ===== verification/HookMarkup.thy ===== *)
theory HookMarkup
  imports HookPage Api "HOL-Library.Multiset"
begin

text \<open>
  The markup the receiver's page writes for a captured request, \<open>makeItem\<close> and \<open>renderDetail\<close> of
  \<open>cron-webhook/public/index.html\<close>, and what a browser reads from it.  The white space between the tags
  of the templates is left out.  The local formats of times and the collation of the browser are
  arguments.
\<close>

section \<open>Markup\<close>

definition tag :: "string \<Rightarrow> string" where
  "tag t = ''<'' @ t @ ''>''"

definition methodClass :: "string \<Rightarrow> string" where
  "methodClass m = (if m \<in> set [''GET'', ''POST'', ''PUT'', ''PATCH'', ''DELETE''] then m else ''OTHER'')"

definition statusClass :: "nat \<Rightarrow> string" where
  "statusClass s =
     (if 500 \<le> s then ''status-5xx'' else if 400 \<le> s then ''status-4xx'' else if 300 \<le> s then ''status-3xx''
      else ''status-2xx'')"

definition fmtTime :: "(string \<Rightarrow> string) \<Rightarrow> (string \<Rightarrow> nat) \<Rightarrow> string \<Rightarrow> string" where
  "fmtTime hms millis t = hms t @ ''.'' @ pad_start 3 CHR ''0'' (nat_string (millis t))"

definition pathStr :: "hook_entry \<Rightarrow> string" where
  "pathStr r = he_path r @ (if he_query r \<noteq> [] then ''?'' @ search_params (he_query r) else [])"

definition class_tag :: "string \<Rightarrow> string \<Rightarrow> string" where
  "class_tag e c = e @ '' class='' @ [quote_char] @ c @ [quote_char]"

definition badge_tag :: "string \<Rightarrow> string" where
  "badge_tag m = class_tag ''span'' (''method-badge '' @ methodClass m)"

definition status_tag :: "nat \<Rightarrow> string" where
  "status_tag n = class_tag ''span'' (''status-code '' @ statusClass n)"

text \<open>\<open>makeItem\<close>: the path is written as it is, into an attribute and into the text.\<close>

definition title_tag :: "string \<Rightarrow> string" where
  "title_tag s = class_tag ''div'' ''req-path'' @ '' title='' @ [quote_char] @ s @ [quote_char]"

definition item_markup :: "(string \<Rightarrow> string) \<Rightarrow> hook_entry \<Rightarrow> string" where
  "item_markup ts r =
     tag (badge_tag (he_method r)) @ he_method r @ tag ''/span'' @
     tag (class_tag ''div'' ''req-meta'') @ tag (title_tag (pathStr r)) @ pathStr r @ tag ''/div'' @
     tag (class_tag ''div'' ''req-time'') @ ts (he_time r) @ tag ''/div'' @ tag ''/div'' @
     tag (status_tag (he_status r)) @ nat_string (he_status r) @ tag ''/span''"

text \<open>\<open>sort(([a],[b]) => a.localeCompare(b))\<close>, which is stable.\<close>

fun insert_by :: "(string \<Rightarrow> string \<Rightarrow> int) \<Rightarrow> string \<times> string \<Rightarrow> (string \<times> string) list \<Rightarrow> (string \<times> string) list" where
  "insert_by cmp x [] = [x]"
| "insert_by cmp x (y # ys) = (if cmp (fst x) (fst y) \<le> 0 then x # y # ys else y # insert_by cmp x ys)"

definition by_name :: "(string \<Rightarrow> string \<Rightarrow> int) \<Rightarrow> (string \<times> string) list \<Rightarrow> (string \<times> string) list" where
  "by_name cmp xs = foldr (insert_by cmp) xs []"

definition kv_rows :: "(string \<times> string) list \<Rightarrow> string" where
  "kv_rows ps = concat (map (\<lambda>(k, v).
     tag ''tr'' @ tag ''td'' @ esc k @ tag ''/td'' @ tag ''td'' @ esc v @ tag ''/td'' @ tag ''/tr'') ps)"

definition titled :: "string \<Rightarrow> string \<Rightarrow> string" where
  "titled title content =
     tag (class_tag ''div'' ''section'') @ tag (class_tag ''div'' ''section-title'') @ title @ tag ''/div'' @ content @
     tag ''/div''"

definition kv_table :: "(string \<times> string) list \<Rightarrow> string" where
  "kv_table ps = tag (class_tag ''table'' ''kv-table'') @ kv_rows ps @ tag ''/table''"

definition renderDetail :: "(string \<Rightarrow> string) \<Rightarrow> (string \<Rightarrow> string \<Rightarrow> int) \<Rightarrow> hook_entry \<Rightarrow> string" where
  "renderDetail ts cmp r =
     tag (class_tag ''div'' ''detail-header'') @
     tag (badge_tag (he_method r)) @ he_method r @ tag ''/span'' @
     tag (class_tag ''span'' ''full-path'') @ esc (pathStr r) @ tag ''/span'' @
     tag (class_tag ''span'' ''ts'') @ ts (he_time r) @ tag ''/span'' @ tag ''/div'' @
     (if he_query r \<noteq> [] then titled ''Query Parameters'' (kv_table (he_query r)) else []) @
     titled ''Headers'' (kv_table (by_name cmp (he_headers r))) @
     (if he_body r \<noteq> [] then titled ''Body'' (tag (class_tag ''div'' ''code-block'') @ esc (he_body r) @ tag ''/div'')
      else [])"

section \<open>Reading markup\<close>

text \<open>
  What a browser reads from such markup: tags, whose attribute values are in double quotes, and
  characters, with the references \<open>esc\<close> uses.  A \<open><\<close> opens a tag if a letter, \<open>/\<close>, \<open>!\<close> or \<open>?\<close>
  follows.
\<close>

datatype token = Ch char | Tag string

definition starts_name :: "char \<Rightarrow> bool" where
  "starts_name c \<longleftrightarrow> (let k = of_char c :: nat in
     65 \<le> k \<and> k \<le> 90 \<or> 97 \<le> k \<and> k \<le> 122 \<or> c \<in> {CHR ''/'', CHR ''!'', CHR ''?''})"

fun opens_tag :: "string \<Rightarrow> bool" where
  "opens_tag (a # b # s) \<longleftrightarrow> a = CHR ''<'' \<and> starts_name b"
| "opens_tag _ \<longleftrightarrow> False"

text \<open>The rest of a tag; the flag says whether an attribute value is open.\<close>

fun tag_split :: "bool \<Rightarrow> string \<Rightarrow> string \<times> string" where
  "tag_split q [] = ([], [])"
| "tag_split q (c # s) =
     (if c = CHR ''>'' \<and> \<not> q then ([], s)
      else apfst (Cons c) (tag_split (if c = quote_char then \<not> q else q) s))"

lemma tag_split_shorter: "length (snd (tag_split q s)) \<le> length s"
  by (induction q s rule: tag_split.induct) (auto simp: le_SucI)

function html :: "string \<Rightarrow> token list" where
  "html s =
     (if s = [] then []
      else if opens_tag s then Tag (fst (tag_split False (tl s))) # html (snd (tag_split False (tl s)))
      else if prefix ''&amp;'' s then Ch CHR ''&'' # html (drop 5 s)
      else if prefix ''&lt;'' s then Ch CHR ''<'' # html (drop 4 s)
      else if prefix ''&gt;'' s then Ch CHR ''>'' # html (drop 4 s)
      else if prefix ''&quot;'' s then Ch quote_char # html (drop 6 s)
      else Ch (hd s) # html (tl s))"
  by pat_completeness auto
termination
  using tag_split_shorter by (relation "measure length") (auto simp: neq_Nil_conv less_Suc_eq_le)

declare html.simps [simp del]

fun tags :: "token list \<Rightarrow> string list" where
  "tags [] = []"
| "tags (Ch c # ts) = tags ts"
| "tags (Tag t # ts) = t # tags ts"

text \<open>The text up to the next tag, and the texts that follow a given tag.\<close>

fun text_upto :: "token list \<Rightarrow> string" where
  "text_upto (Ch c # ts) = c # text_upto ts"
| "text_upto _ = []"

fun shown :: "string \<Rightarrow> token list \<Rightarrow> string list" where
  "shown t [] = []"
| "shown t (Ch c # ts) = shown t ts"
| "shown t (Tag u # ts) = (if u = t then text_upto ts # shown t ts else shown t ts)"

definition plain :: "string \<Rightarrow> bool" where
  "plain s \<longleftrightarrow> set s \<inter> {CHR ''<'', CHR ''&''} = {}"

section \<open>Facts\<close>

lemma tags_append [simp]: "tags (ts @ us) = tags ts @ tags us"
  by (induction ts rule: tags.induct) simp_all

lemma tags_text [simp]: "tags (map Ch s) = []"
  by (induction s) simp_all

lemma shown_text [simp]: "shown t (map Ch s @ ts) = shown t ts"
  by (induction s) simp_all

lemma text_upto_text [simp]: "text_upto (map Ch s @ Tag u # ts) = s"
  by (induction s) simp_all

lemma html_Nil [simp]: "html [] = []"
  by (simp add: html.simps)

lemma not_opens [simp]: "c \<noteq> CHR ''<'' \<Longrightarrow> \<not> opens_tag (c # s)"
  by (cases s) simp_all

lemma html_esc [simp]: "html (esc s @ r) = map Ch s @ html r"
proof -
  have "html (esc_char c @ r) = Ch c # html r" for c r
    by (subst html.simps) (auto simp: esc_char_def quote_char_def)
  then have "html (concat (map esc_char s) @ r) = map Ch s @ html r" by (induction s) simp_all
  then show ?thesis by (simp add: esc_chars)
qed

lemma html_plain: "plain s \<Longrightarrow> html (s @ r) = map Ch s @ html r"
proof (induction s)
  case (Cons c s)
  then have "html (c # s @ r) = Ch c # html (s @ r)"
    by (subst html.simps) (auto simp: plain_def)
  then show ?case using Cons by (simp add: plain_def)
qed simp

text \<open>A tag is read as it was written if its quotes and brackets match.\<close>

definition well_quoted :: "string \<Rightarrow> bool" where
  "well_quoted t \<longleftrightarrow> t \<noteq> [] \<and> starts_name (hd t) \<and> (\<forall>r. tag_split False (t @ CHR ''>'' # r) = (t, r))"

lemma html_tag: "well_quoted t \<Longrightarrow> html (tag t @ r) = Tag t # html r"
  by (subst html.simps) (auto simp: well_quoted_def tag_def neq_Nil_conv)

lemma tag_split_bare:
  "quote_char \<notin> set s \<Longrightarrow> CHR ''>'' \<notin> set s \<Longrightarrow> tag_split q (s @ r) = apfst (append s) (tag_split q r)"
  by (induction s; cases "tag_split q r") auto

lemma tag_split_quoted: "quote_char \<notin> set s \<Longrightarrow> tag_split True (s @ r) = apfst (append s) (tag_split True r)"
  by (induction s; cases "tag_split True r") auto

lemma well_quoted_bare:
  assumes "starts_name (hd t)" and "t \<noteq> []" and "quote_char \<notin> set t" and "CHR ''>'' \<notin> set t"
  shows "well_quoted t"
  unfolding well_quoted_def tag_split_bare [OF assms(3,4)] using assms(1,2) by simp

lemma tag_split_value:
  assumes "quote_char \<notin> set v" and "quote_char \<notin> set k" and "CHR ''>'' \<notin> set k"
  shows "tag_split False (k @ quote_char # v @ quote_char # r) =
    apfst (append (k @ quote_char # v @ [quote_char])) (tag_split False r)"
  unfolding tag_split_bare [OF assms(2,3)]
  by (cases "tag_split False r") (simp add: tag_split_quoted [OF assms(1)] quote_char_def)

lemma well_quoted_class:
  assumes "quote_char \<notin> set c" and "starts_name (hd e)" and "e \<noteq> []" and "quote_char \<notin> set e" and "CHR ''>'' \<notin> set e"
  shows "well_quoted (class_tag e c)"
  using assms tag_split_value [OF assms(1), of "e @ '' class=''"]
  by (simp add: well_quoted_def class_tag_def quote_char_def)

lemma well_quoted_title:
  assumes "quote_char \<notin> set s"
  shows "well_quoted (title_tag s)"
  using tag_split_value [of "''req-path''" "''div class=''"] tag_split_value [OF assms, of "'' title=''"]
  by (simp add: well_quoted_def title_tag_def class_tag_def quote_char_def starts_name_def)

lemma quoteless [simp]: "quote_char \<notin> set (methodClass m)" "quote_char \<notin> set (statusClass n)"
  by (simp_all add: methodClass_def statusClass_def quote_char_def)

lemma html_end: "well_quoted t \<Longrightarrow> html (tag t) = [Tag t]"
  using html_tag [of t "[]"] by simp

text \<open>The tags of the templates.\<close>

lemma template_tags [simp]:
  "well_quoted ''/span''" "well_quoted ''/div''" "well_quoted ''/table''" "well_quoted ''tr''" "well_quoted ''/tr''"
  "well_quoted ''td''" "well_quoted ''/td''"
  by (rule well_quoted_bare; simp add: starts_name_def quote_char_def)+

lemma template_classes [simp]:
  "well_quoted (class_tag ''div'' ''req-meta'')" "well_quoted (class_tag ''div'' ''req-time'')"
  "well_quoted (class_tag ''div'' ''detail-header'')" "well_quoted (class_tag ''div'' ''section'')"
  "well_quoted (class_tag ''div'' ''section-title'')" "well_quoted (class_tag ''div'' ''code-block'')"
  "well_quoted (class_tag ''span'' ''full-path'')" "well_quoted (class_tag ''span'' ''ts'')"
  "well_quoted (class_tag ''table'' ''kv-table'')"
  by (rule well_quoted_class; simp add: starts_name_def quote_char_def)+

lemma data_classes [simp]:
  "well_quoted (badge_tag m)" "well_quoted (status_tag n)"
  unfolding badge_tag_def status_tag_def
  by (rule well_quoted_class; simp add: starts_name_def quote_char_def methodClass_def statusClass_def)+

lemma set_insert_by: "mset (insert_by cmp x ys) = add_mset x (mset ys)"
  by (induction cmp x ys rule: insert_by.induct) simp_all

lemma by_name_same: "mset (by_name cmp xs) = mset xs"
  by (induction xs) (simp_all add: by_name_def set_insert_by)

fun row_tokens :: "(string \<times> string) list \<Rightarrow> token list" where
  "row_tokens [] = []"
| "row_tokens ((k, v) # ps) =
     [Tag ''tr'', Tag ''td''] @ map Ch k @ [Tag ''/td'', Tag ''td''] @ map Ch v @ [Tag ''/td'', Tag ''/tr''] @ row_tokens ps"

lemma kv_rows_simps:
  "kv_rows [] = []"
  "kv_rows ((k, v) # ps) =
     tag ''tr'' @ tag ''td'' @ esc k @ tag ''/td'' @ tag ''td'' @ esc v @ tag ''/td'' @ tag ''/tr'' @ kv_rows ps"
  by (simp_all add: kv_rows_def)

lemma html_rows: "html (kv_rows ps @ r) = row_tokens ps @ html r"
  by (induction ps rule: row_tokens.induct) (simp_all add: kv_rows_simps html_tag)

lemma shown_rows: "shown ''td'' (row_tokens ps @ ts) = concat (map (\<lambda>(k, v). [k, v]) ps) @ shown ''td'' ts"
  by (induction ps rule: row_tokens.induct) simp_all

lemma shown_other_rows: "t \<notin> {''tr'', ''td'', ''/td'', ''/tr''} \<Longrightarrow> shown t (row_tokens ps @ ts) = shown t ts"
  by (induction ps rule: row_tokens.induct) auto

definition row_tags :: "nat \<Rightarrow> string list" where
  "row_tags n = concat (replicate n [''tr'', ''td'', ''/td'', ''td'', ''/td'', ''/tr''])"

lemma tags_rows: "tags (row_tokens ps) = row_tags (length ps)"
  by (induction ps rule: row_tokens.induct) (simp_all add: row_tags_def)

section \<open>Properties\<close>

text \<open>The elements of the detail panel for a request with so many parameters and headers.\<close>

definition section_tags :: "string list \<Rightarrow> string list" where
  "section_tags inner =
     [class_tag ''div'' ''section'', class_tag ''div'' ''section-title'', ''/div''] @ inner @ [''/div'']"

definition table_tags :: "nat \<Rightarrow> string list" where
  "table_tags n = class_tag ''table'' ''kv-table'' # row_tags n @ [''/table'']"

definition detail_tags :: "string \<Rightarrow> nat \<Rightarrow> nat \<Rightarrow> bool \<Rightarrow> string list" where
  "detail_tags c params headers body =
     [class_tag ''div'' ''detail-header'', class_tag ''span'' (''method-badge '' @ c), ''/span'',
      class_tag ''span'' ''full-path'', ''/span'', class_tag ''span'' ''ts'', ''/span'', ''/div''] @
     (if params = 0 then [] else section_tags (table_tags params)) @ section_tags (table_tags headers) @
     (if body then section_tags [class_tag ''div'' ''code-block'', ''/div''] else [])"

lemma html_titled:
  "plain t \<Longrightarrow> html (titled t content @ r) =
    [Tag (class_tag ''div'' ''section''), Tag (class_tag ''div'' ''section-title'')] @ map Ch t @
    Tag ''/div'' # html (content @ tag ''/div'' @ r)"
  by (simp add: titled_def html_tag html_plain)

lemma html_table:
  "html (kv_table ps @ r) = Tag (class_tag ''table'' ''kv-table'') # row_tokens ps @ Tag ''/table'' # html r"
  by (simp add: kv_table_def html_tag html_rows)

text \<open>What is read from the detail panel.\<close>

definition section_tokens :: "string \<Rightarrow> token list \<Rightarrow> token list" where
  "section_tokens t inner =
     [Tag (class_tag ''div'' ''section''), Tag (class_tag ''div'' ''section-title'')] @ map Ch t @ [Tag ''/div''] @ inner @
     [Tag ''/div'']"

definition table_tokens :: "(string \<times> string) list \<Rightarrow> token list" where
  "table_tokens ps = Tag (class_tag ''table'' ''kv-table'') # row_tokens ps @ [Tag ''/table'']"

definition head_tokens :: "string \<Rightarrow> string \<Rightarrow> string \<Rightarrow> token list" where
  "head_tokens m p t =
     [Tag (class_tag ''div'' ''detail-header''), Tag (badge_tag m)] @ map Ch m @
     [Tag ''/span'', Tag (class_tag ''span'' ''full-path'')] @ map Ch p @
     [Tag ''/span'', Tag (class_tag ''span'' ''ts'')] @ map Ch t @ [Tag ''/span'', Tag ''/div'']"

lemma titled_sections:
  "plain t \<Longrightarrow> html (titled t (kv_table ps) @ r) = section_tokens t (table_tokens ps) @ html r"
  "plain t \<Longrightarrow> html (titled t (tag (class_tag ''div'' ''code-block'') @ esc s @ tag ''/div'')) =
    section_tokens t (Tag (class_tag ''div'' ''code-block'') # map Ch s @ [Tag ''/div''])"
  using html_titled [of t "tag (class_tag ''div'' ''code-block'') @ esc s @ tag ''/div''" "[]"]
  by (simp_all add: html_titled html_table html_tag html_end section_tokens_def table_tokens_def)

lemma html_detail:
  assumes "plain (he_method r)" and "plain (ts (he_time r))"
  shows "html (renderDetail ts cmp r) =
    head_tokens (he_method r) (pathStr r) (ts (he_time r)) @
    (if he_query r \<noteq> [] then section_tokens ''Query Parameters'' (table_tokens (he_query r)) else []) @
    section_tokens ''Headers'' (table_tokens (by_name cmp (he_headers r))) @
    (if he_body r \<noteq> []
     then section_tokens ''Body'' (Tag (class_tag ''div'' ''code-block'') # map Ch (he_body r) @ [Tag ''/div'']) else [])"
proof -
  have "plain ''Headers''" "plain ''Body''" "plain ''Query Parameters''" by (simp_all add: plain_def)
  note sections = this [THEN titled_sections(1)] this [THEN titled_sections(1), where r = "[]", simplified]
    this [THEN titled_sections(2)]
  show ?thesis
    unfolding renderDetail_def
    by (cases "he_query r = []"; cases "he_body r = []")
      (simp_all only: simp_thms if_True if_False append_Nil append_Nil2 append_assoc html_tag html_plain assms html_esc
        template_tags template_classes data_classes sections head_tokens_def append_Cons)
qed

lemma tags_parts:
  "tags (section_tokens t inner) = section_tags (tags inner)" "tags (table_tokens ps) = table_tags (length ps)"
  "tags (head_tokens m p t) =
     [class_tag ''div'' ''detail-header'', badge_tag m, ''/span'', class_tag ''span'' ''full-path'', ''/span'',
      class_tag ''span'' ''ts'', ''/span'', ''/div'']"
  by (simp_all add: section_tokens_def section_tags_def table_tokens_def table_tags_def head_tokens_def tags_rows)

lemma shown_Cons_text [simp]: "shown u (map Ch s) = []"
  using shown_text [of u s "[]"] by simp

lemma shown_section:
  "u \<notin> {class_tag ''div'' ''section'', class_tag ''div'' ''section-title'', ''/div''} \<Longrightarrow>
    shown u (section_tokens t inner @ ts) = shown u (inner @ Tag ''/div'' # ts) \<and>
    shown u (section_tokens t inner) = shown u (inner @ [Tag ''/div''])"
  by (auto simp: section_tokens_def)

lemma shown_table:
  "shown ''td'' (table_tokens ps @ ts) = concat (map (\<lambda>(k, v). [k, v]) ps) @ shown ''td'' ts"
  "u \<notin> {class_tag ''table'' ''kv-table'', ''/table'', ''tr'', ''td'', ''/td'', ''/tr''} \<Longrightarrow>
    shown u (table_tokens ps @ ts) = shown u ts"
  by (auto simp: table_tokens_def class_tag_def shown_rows shown_other_rows)

section \<open>Properties\<close>

text \<open>C23: The detail panel shows the request and nothing else.  For every captured request - whatever
  its path, parameters, headers and body contain - the elements a browser finds in the panel are those
  of the template, one row per parameter and per header, and the texts of the path, of the cells and of
  the body block are exactly the request's path, names and values, and body.\<close>

theorem detail_shows_request:
  assumes "plain (he_method r)" and "plain (ts (he_time r))"
  shows "let seen = html (renderDetail ts cmp r) in
    tags seen = detail_tags (methodClass (he_method r)) (length (he_query r)) (length (he_headers r)) (he_body r \<noteq> []) \<and>
    shown (class_tag ''span'' ''full-path'') seen = [pathStr r] \<and>
    shown ''td'' seen = concat (map (\<lambda>(k, v). [k, v]) (he_query r @ by_name cmp (he_headers r))) \<and>
    shown (class_tag ''div'' ''code-block'') seen = (if he_body r = [] then [] else [he_body r]) \<and>
    mset (by_name cmp (he_headers r)) = mset (he_headers r)"
proof -
  note read = html_detail [where ts = ts and cmp = cmp and r = r, OF assms]
  have "length (by_name cmp (he_headers r)) = length (he_headers r)"
    by (metis by_name_same size_mset)
  then have "tags (html (renderDetail ts cmp r)) =
      detail_tags (methodClass (he_method r)) (length (he_query r)) (length (he_headers r)) (he_body r \<noteq> [])"
    unfolding read by (simp add: tags_parts detail_tags_def badge_tag_def)
  moreover have "shown (class_tag ''span'' ''full-path'') (html (renderDetail ts cmp r)) = [pathStr r]"
    unfolding read
    by (simp add: head_tokens_def shown_section shown_table class_tag_def badge_tag_def)
  moreover have "shown ''td'' (html (renderDetail ts cmp r)) =
      concat (map (\<lambda>(k, v). [k, v]) (he_query r @ by_name cmp (he_headers r)))"
    unfolding read
    by (simp add: head_tokens_def shown_section shown_table class_tag_def badge_tag_def)
  moreover have "shown (class_tag ''div'' ''code-block'') (html (renderDetail ts cmp r)) =
      (if he_body r = [] then [] else [he_body r])"
    unfolding read
    by (simp add: head_tokens_def shown_section shown_table class_tag_def badge_tag_def)
  ultimately show ?thesis by (simp add: by_name_same Let_def)
qed

definition hostile :: hook_entry where
  "hostile = \<lparr>he_id = ''1'', he_method = ''GET'', he_path = ''/<img src=x onerror=alert(1)>'', he_query = [],
     he_headers = [(''Host'', ''a''), (''Accept'', ''</td>'')], he_body = ''<script>&amp;'', he_time = ''t'', he_status = 200\<rparr>"

theorem detail_shows_request_witness:
  "let seen = html (renderDetail (\<lambda>t. t) (\<lambda>a b. int (length b) - int (length a)) hostile) in
    shown (class_tag ''span'' ''full-path'') seen = [''/<img src=x onerror=alert(1)>''] \<and>
    shown ''td'' seen = [''Accept'', ''</td>'', ''Host'', ''a''] \<and>
    shown (class_tag ''div'' ''code-block'') seen = [''<script>&amp;''] \<and> tags seen = detail_tags ''GET'' 0 2 True"
proof -
  have "plain (he_method hostile)" "plain ((\<lambda>t. t) (he_time hostile))" by (simp_all add: hostile_def plain_def)
  from detail_shows_request [where ts = "\<lambda>t. t" and r = hostile, OF this, of "\<lambda>a b. int (length b) - int (length a)"]
  show ?thesis unfolding Let_def by (simp add: hostile_def pathStr_def methodClass_def by_name_def numeral_2_eq_2)
qed

text \<open>C29: In the list the path is markup.  If the path of a captured request holds a tag, a browser finds
  this tag as an element of the item, between the elements of the template; a path without markup and
  quotes gives the elements of the template only, with the path as the item's text.\<close>

theorem item_path_injects:
  assumes "plain (he_method r)" and "plain (ts (he_time r))" and "he_query r = []"
    and "he_path r = p @ (if inject then tag t else [])" and "plain p" and "quote_char \<notin> set p"
    and "quote_char \<notin> set t" and "CHR ''>'' \<notin> set t" and "t \<noteq> []" and "starts_name (hd t)"
  shows "let seen = html (item_markup ts r) in
    tags seen = [badge_tag (he_method r), ''/span'', class_tag ''div'' ''req-meta'', title_tag (he_path r)] @
      (if inject then [t] else []) @
      [''/div'', class_tag ''div'' ''req-time'', ''/div'', ''/div'',
       status_tag (he_status r), ''/span''] \<and>
    hd (shown (title_tag (he_path r)) seen) = p"
proof -
  have path: "pathStr r = he_path r" using assms(3) by (simp add: pathStr_def)
  have "quote_char \<notin> set (he_path r)" using assms(4,6,7) by (simp add: tag_def quote_char_def)
  then have title: "well_quoted (title_tag (he_path r))" by (rule well_quoted_title)
  have t: "well_quoted t" using assms(7-10) by (intro well_quoted_bare)
  have n: "plain (nat_string n)" for n
  proof -
    have "digit_val CHR ''<'' = None" "digit_val CHR ''&'' = None" by (simp_all add: digit_val_def)
    then show ?thesis using nat_string_digit_val [of "CHR ''<''" n] nat_string_digit_val [of "CHR ''&''" n]
      by (auto simp: plain_def)
  qed
  have item: "html (he_path r @ s) = map Ch p @ (if inject then [Tag t] else []) @ html s" for s
    using html_tag [OF t, of s] by (simp add: assms(4) html_plain [OF assms(5)])
  let ?rest = "Tag ''/div'' # Tag (class_tag ''div'' ''req-time'') # map Ch (ts (he_time r)) @ [Tag ''/div'', Tag ''/div'',
       Tag (status_tag (he_status r))] @ map Ch (nat_string (he_status r)) @ [Tag ''/span'']"
  have "html (item_markup ts r) =
      Tag (badge_tag (he_method r)) # map Ch (he_method r) @
      [Tag ''/span'', Tag (class_tag ''div'' ''req-meta''), Tag (title_tag (he_path r))] @ map Ch p @
      (if inject then [Tag t] else []) @ ?rest"
    unfolding item_markup_def path
    by (simp only: html_tag html_end html_plain item assms(1,2) n template_tags template_classes data_classes title
        append_assoc append_Cons append_Nil)
  moreover have "badge_tag m \<noteq> title_tag s" "''/span'' \<noteq> title_tag s" "class_tag ''div'' ''req-meta'' \<noteq> title_tag s" for s m
    by (simp_all add: title_tag_def badge_tag_def class_tag_def)
  ultimately show ?thesis by (cases inject) (simp_all add: Let_def)
qed

theorem item_path_injects_witness:
  "''img src=x onerror=alert(1)'' \<in> set (tags (html (item_markup (\<lambda>t. t) hostile))) \<and>
   ''img src=x onerror=alert(1)'' \<notin> set (tags (html (renderDetail (\<lambda>t. t) (\<lambda>a b. 0) hostile)))"
proof -
  let ?t = "''img src=x onerror=alert(1)''"
  have plain: "plain (he_method hostile)" "plain ((\<lambda>t. t) (he_time hostile))" by (simp_all add: hostile_def plain_def)
  have item: "he_query hostile = []" "he_path hostile = ''/'' @ (if True then tag ?t else [])" "plain ''/''"
    "quote_char \<notin> set ''/''" "quote_char \<notin> set ?t" "CHR ''>'' \<notin> set ?t" "?t \<noteq> []" "starts_name (hd ?t)"
    by (simp_all add: hostile_def tag_def plain_def quote_char_def starts_name_def)
  note item_path_injects [where ts = "\<lambda>t. t" and r = hostile and inject = True and t = ?t and p = "''/''", OF plain item]
  moreover have "tags (html (renderDetail (\<lambda>t. t) (\<lambda>a b. 0) hostile)) = detail_tags ''GET'' 0 2 True"
    unfolding html_detail [where ts = "\<lambda>t. t" and r = hostile, OF plain]
    by (simp add: tags_parts detail_tags_def badge_tag_def hostile_def methodClass_def by_name_def numeral_2_eq_2)
  moreover have "?t \<notin> set (detail_tags ''GET'' 0 2 True)"
    by (simp add: detail_tags_def section_tags_def table_tags_def row_tags_def class_tag_def numeral_2_eq_2)
  ultimately show ?thesis unfolding Let_def by simp
qed

end
