(* ===== verification/HookFlows.thy ===== *)
theory HookFlows
  imports HookMarkup Executor
begin

text \<open>
  A job whose address is the request receiver: the request the executor builds, what the receiver
  captures and answers, and what the row of the execution and the receiver's page then show.  How an
  address splits into paths and query, and which headers the transport adds, are arguments.
\<close>

section \<open>The receiver's answer\<close>

text \<open>The object the capturing handler encodes, the newline of the encoder included.\<close>

definition capture_text :: "hook_entry \<Rightarrow> string" where
  "capture_text e =
     json_text (JObj [(''id'', JStr (he_id e)), (''ok'', JBool True), (''received_at'', JStr (he_time e))]) @ [CHR 0x0A]"

text \<open>\<open>net/http\<close> writes no body for the statuses 204 and 304 and in answer to HEAD.\<close>

definition capture_answer :: "hook_entry \<Rightarrow> outcome" where
  "capture_answer e =
     (let n = final_status (he_status e) in Answered n (if n = 204 \<or> n = 304 \<or> he_method e = ''HEAD'' then [] else capture_text e))"

section \<open>A run against the receiver\<close>

text \<open>What the receiver gets of an address: the path as sent, unescaped, and the query.\<close>

type_synonym url_parts = "string \<times> string \<times> (string \<times> string list) list"

definition received :: "string \<Rightarrow> string \<Rightarrow> (string \<Rightarrow> url_parts)
    \<Rightarrow> ((string \<times> string) list \<Rightarrow> (string \<times> string list) list) \<Rightarrow> http_out \<Rightarrow> hook_entry option" where
  "received i now parse_url sent rq =
     (case parse_url (ho_url rq) of (raw, path, query) \<Rightarrow>
        if mux raw path = HookCapture
        then Some (capture_entry i now (ho_method rq) path query (sent (ho_headers rq))
          (case ho_body rq of None \<Rightarrow> [] | Some b \<Rightarrow> b))
        else None)"

text \<open>Texts that JSON does not have to escape, as ids and times are.\<close>

definition simple_text :: "string \<Rightarrow> bool" where
  "simple_text s \<longleftrightarrow> list_all (\<lambda>c. let k = of_char c :: nat in 32 \<le> k \<and> k < 127 \<and> k \<noteq> 34 \<and> k \<noteq> 92) s"

lemma quote_simple: "simple_text s \<Longrightarrow> quote s = dquote # s @ [dquote]"
proof -
  assume "simple_text s"
  then have "concat (map Json.esc_char s) = s"
    by (induction s) (auto simp: simple_text_def Json.esc_char_def Let_def)
  then show ?thesis by (simp add: quote_def)
qed

lemma capture_text_simple:
  assumes "simple_text (he_id e)" and "simple_text (he_time e)"
  shows "capture_text e =
    CHR ''{'' # quote ''id'' @ CHR '':'' # dquote # he_id e @ dquote # '','' @ quote ''ok'' @ '':true,'' @
    quote ''received_at'' @ CHR '':'' # dquote # he_time e @ [dquote, CHR ''}'', CHR 0x0A]"
  by (simp add: capture_text_def join_with_def quote_simple [OF assms(1)] quote_simple [OF assms(2)])

lemma capture_text_storable:
  assumes "simple_text (he_id e)" and "simple_text (he_time e)"
  shows "pg_text (take n (capture_text e))"
proof (rule pg_text_ascii)
  have "list_all (\<lambda>c. let k = of_char c :: nat in 0 < k \<and> k < 128) (capture_text e)"
    unfolding capture_text_simple [OF assms] using assms
    by (auto simp: simple_text_def list_all_iff Let_def quote_def Json.esc_char_def)
  then show "list_all (\<lambda>c. let k = of_char c :: nat in 0 < k \<and> k < 128) (take n (capture_text e))"
    by (auto simp: list_all_iff dest: in_set_takeD)
qed

lemma status_numeral:
  assumes "first_value ''__status'' query = nat_string n" and "200 \<le> n" and "n < 600"
  shows "status_of (first_value ''__status'' query) = n" and "final_status n = n"
  using recorded_status [of undefined undefined undefined undefined query "[]" "[]" n undefined] assms
  by (simp_all add: Let_def capture_entry_def final_status_def)

lemma captured_paths:
  "clean_path raw \<Longrightarrow> path \<notin> {''/health'', ''/__dashboard'', ''/__events'', ''/__history'', ''/slow''} \<Longrightarrow>
    mux raw path = HookCapture"
  by (simp add: mux_def mux_paths_def)

section \<open>Properties\<close>

text \<open>C31: A job against the receiver.  If the path of its address is clean and none of the five the receiver
  keeps for itself, and the address asks for a status from 200 on, then its request is captured: the
  receiver's newest entry and the newest request of a page that gets the message have the job's method in
  upper case, the path of the address, the first 64000 bytes of the job's body and this status; and the row
  of the execution is finished as a success exactly if the status is below 400, with this status and,
  unless the status or the method allows no body, the answer that holds the entry's id.\<close>

theorem receiver_shows_job:
  assumes "parse_url (jb_url j) = (raw, path, query)" and "first_value ''__status'' query = nat_string n" and "200 \<le> n" and "n < 600"
    and "simple_text i" and "simple_text now" and "int32 ms"
    and "clean_path raw" and "path \<notin> {''/health'', ''/__dashboard'', ''/__events'', ''/__history'', ''/slow''}"
  shows "\<exists>e. received i now parse_url sent (build_request j) = Some e \<and>
    (let row = complete_row t1 ms (capture_answer e) (start_row eid (jb_id j) trigger t0) in
    hd (hk_store (hook_step (Capture e) h)) = e \<and> hd (pg_requests (onmessage (op_message (Capture e)) p)) = e \<and>
    he_method e = map upper_char (jb_method j) \<and> he_path e = path \<and> he_status e = n \<and>
    he_body e = take 64000 (case jb_body j of None \<Rightarrow> [] | Some b \<Rightarrow> b) \<and>
    ex_status row = (if n < 400 then ''success'' else ''failure'') \<and> ex_response row = Some (int n) \<and>
    ex_completed row = Some t1 \<and>
    ex_body row = Some (if n = 204 \<or> n = 304 \<or> he_method e = ''HEAD'' then [] else take 10000 (capture_text e)))"
proof -
  define e where e: "e = capture_entry i now (map upper_char (jb_method j)) path query (sent (header_list (jb_headers j)))
      (case jb_body j of None \<Rightarrow> [] | Some b \<Rightarrow> b)"
  define row where row: "row = complete_row t1 ms (capture_answer e) (start_row eid (jb_id j) trigger t0)"
  have got: "received i now parse_url sent (build_request j) = Some e"
    unfolding received_def build_request_def
    using captured_paths [OF assms(8,9)] by (auto simp: assms(1) e split: option.split)
  have n: "he_status e = n" using status_numeral(1) [OF assms(2-4)] by (simp add: e capture_entry_def)
  have id: "he_id e = i" "he_time e = now" by (simp_all add: e capture_entry_def)
  have "pg_text (take 10000 (capture_text e))" "pg_text []"
    using capture_text_storable [of e 10000] capture_text_storable [of e 0] assms(5,6) by (simp_all add: id)
  then have "ex_status row = (if n < 400 then ''success'' else ''failure'')" "ex_response row = Some (int n)"
    "ex_completed row = Some t1" "ex_body row = Some (if n = 204 \<or> n = 304 \<or> he_method e = ''HEAD'' then [] else take 10000 (capture_text e))"
    using assms(7) status_numeral(2) [OF assms(2-4)]
    by (simp_all add: row capture_answer_def n max_body_def http_status_text_def Let_def)
  moreover have "hd (hk_store (hook_step (Capture e) h)) = e"
    by (simp add: store_add_def broadcast_def maxEntries_def Let_def take_Cons')
  moreover have "hd (pg_requests (onmessage (op_message (Capture e)) p)) = e"
    by (simp add: prependItem_def updateCount_def Let_def)
  moreover have "he_method e = map upper_char (jb_method j)" "he_path e = path"
    "he_body e = take 64000 (case jb_body j of None \<Rightarrow> [] | Some b \<Rightarrow> b)"
    by (simp_all add: e capture_entry_def)
  ultimately show ?thesis using n got unfolding Let_def row [symmetric] by (intro exI [of _ e]) (simp add: row [symmetric])
qed

text \<open>The paths of the receiver itself are not captured.\<close>

lemma own_paths_not_captured:
  "path \<in> {''/health'', ''/__dashboard'', ''/__events'', ''/__history'', ''/slow''} \<or> \<not> clean_path raw \<Longrightarrow>
    parse_url (jb_url j) = (raw, path, query) \<Longrightarrow> received i now parse_url sent (build_request j) = None"
  by (auto simp: received_def build_request_def mux_def mux_paths_def)

definition hook_job :: job where
  "hook_job = \<lparr>jb_id = ''7'', jb_user = Some ''1'', jb_name = ''n'', jb_description = [], jb_cron = ''* * * * *'', jb_url = ''u'',
     jb_method = ''post'', jb_headers = JObj [], jb_body = Some ''hello'', jb_status = ''active'', jb_timezone = ''UTC'',
     jb_timeout = 30, jb_policy = ''Allow'', jb_last_run = None, jb_created = ''t'', jb_updated = ''t''\<rparr>"

theorem receiver_shows_job_witness:
  "case received ''a1'' ''t'' (\<lambda>u. (''/ping'', ''/ping'', [(''__status'', [''503''])])) (\<lambda>hs. []) (build_request hook_job) of
     None \<Rightarrow> False
   | Some e \<Rightarrow>
       (let row = complete_row ''u'' 5 (capture_answer e) (start_row ''x'' ''7'' ''manual'' ''s'')
        in he_method e = ''POST'' \<and> he_status e = 503 \<and> he_body e = ''hello'' \<and> ex_status row = ''failure'' \<and>
          ex_response row = Some 503)"
proof -
  let ?q = "[(''__status'', [''503''])]"
  have "nat_string 503 = ''503''" by code_simp
  then have q: "first_value ''__status'' ?q = nat_string 503" by (simp add: first_value_def)
  have t: "simple_text ''a1''" "simple_text ''t''" "int32 5" by (simp_all add: simple_text_def int32_def)
  have up: "upper_char CHR ''p'' = CHR ''P''" "upper_char CHR ''o'' = CHR ''O''" "upper_char CHR ''s'' = CHR ''S''"
    "upper_char CHR ''t'' = CHR ''T''" by code_simp+
  have clean: "clean_path ''/ping''" by (simp add: clean_path_def)
  have job: "jb_id hook_job = ''7''" "map upper_char (jb_method hook_job) = ''POST''"
    "(case jb_body hook_job of None \<Rightarrow> [] | Some b \<Rightarrow> b) = ''hello''"
    by (simp_all add: hook_job_def up)
  obtain e where e: "received ''a1'' ''t'' (\<lambda>u. (''/ping'', ''/ping'', ?q)) (\<lambda>hs. []) (build_request hook_job) = Some e"
    and facts: "he_method e = ''POST''" "he_status e = 503" "he_body e = take 64000 ''hello''"
      "ex_status (complete_row ''u'' 5 (capture_answer e) (start_row ''x'' ''7'' ''manual'' ''s'')) = ''failure''"
      "ex_response (complete_row ''u'' 5 (capture_answer e) (start_row ''x'' ''7'' ''manual'' ''s'')) = Some 503"
    using receiver_shows_job [where parse_url = "\<lambda>u. (''/ping'', ''/ping'', ?q)" and j = hook_job and n = 503 and sent = "\<lambda>hs. []"
        and ?t1.0 = "''u''" and eid = "''x''" and trigger = "''manual''" and ?t0.0 = "''s''", OF refl q _ _ t clean]
    unfolding Let_def job by auto
  show ?thesis unfolding e by (simp add: facts Let_def del: complete_row.simps)
qed

end
