(* ===== verification/Orders.thy ===== *)
theory Orders
  imports Webhook Startup "HOL-Library.Word"
begin

text \<open>
  The order demo, \<open>kafka-producer/main.go\<close> and \<open>kafka-consumer/main.go\<close>: settings, connecting, producing
  and consuming.  The Kafka client is outside: whether a connection attempt or a send succeeds is an
  argument, a claim is the list of its messages with the high-water mark at the time of each.  Random
  numbers, the clock and the check of RFC 3339 texts are arguments too.  As elsewhere a message is the
  JSON value it holds, \<open>None\<close> if it holds none.
\<close>

section \<open>Settings\<close>

definition envOr :: "env \<Rightarrow> string \<Rightarrow> string \<Rightarrow> string" where
  "envOr e key def = (case e key of None \<Rightarrow> def | Some v \<Rightarrow> if v \<noteq> [] then v else def)"

text \<open>The producer takes positive numbers, the consumer zero as well.\<close>

definition env_int :: "(int \<Rightarrow> bool) \<Rightarrow> env \<Rightarrow> string \<Rightarrow> int \<Rightarrow> int" where
  "env_int ok e key def =
     (case e key of
        None \<Rightarrow> def
      | Some v \<Rightarrow>
          if v = [] then def
          else (case atoi_opt v of None \<Rightarrow> def | Some n \<Rightarrow> if ok n then n else def))"

definition produce_rate :: "env \<Rightarrow> int" where
  "produce_rate e = env_int (\<lambda>n. 0 < n) e ''PRODUCE_RATE'' 50"

definition process_delay :: "env \<Rightarrow> int" where
  "process_delay e = env_int (\<lambda>n. 0 \<le> n) e ''PROCESS_DELAY_MS'' 200"

text \<open>\<open>time.Second / time.Duration(rate)\<close> in nanoseconds; \<open>NewTicker\<close> panics
  unless it is positive.\<close>

definition ticker :: "int \<Rightarrow> int option" where
  "ticker rate = (let i = 1000000000 div rate in if 0 < i then Some i else None)"

text \<open>\<open>time.Duration(delayMs) * time.Millisecond\<close>, a product of 64-bit integers.\<close>

definition delay_ns :: "int \<Rightarrow> int" where
  "delay_ns ms = sint (word_of_int (ms * 1000000) :: 64 word)"

section \<open>Connecting\<close>

text \<open>At most thirty attempts, five seconds of sleep after each that fails.\<close>

function connect_from :: "(nat \<Rightarrow> 'p option) \<Rightarrow> nat \<Rightarrow> 'p option \<times> nat" where
  "connect_from attempt i =
     (if 30 < i then (None, 0)
      else case attempt i of
        Some p \<Rightarrow> (Some p, 0)
      | None \<Rightarrow> (case connect_from attempt (Suc i) of (r, slept) \<Rightarrow> (r, slept + 5)))"
  by pat_completeness auto
termination
  by (relation "measure (\<lambda>(attempt, i). 31 - i)") auto

declare connect_from.simps [simp del]

definition newProducer :: "(nat \<Rightarrow> 'p option) \<Rightarrow> 'p option \<times> nat" where
  "newProducer attempt = connect_from attempt 1"

section \<open>Producing\<close>

record order =
  od_id :: string
  od_product :: string
  od_cents :: nat
  od_created :: string

definition products :: "string list" where
  "products = [''widget'', ''gadget'', ''doohickey'', ''thingamajig'', ''whatchamacallit'']"

text \<open>The clock in nanoseconds, the three random numbers, the time as text.\<close>

definition newOrder :: "int \<Rightarrow> nat \<Rightarrow> nat \<Rightarrow> nat \<Rightarrow> string \<Rightarrow> order" where
  "newOrder nanos r pick cents now =
     \<lparr>od_id = ''ord-'' @ int_string nanos @ ''-'' @ nat_string r, od_product = products ! pick, od_cents = cents,
      od_created = now\<rparr>"

text \<open>The shortest decimal of the amount, as \<open>json.Marshal\<close> writes a float.\<close>

definition amount_json :: "nat \<Rightarrow> jsval" where
  "amount_json k =
     (if k mod 100 = 0 then JNum (int (k div 100))
      else if k mod 10 = 0 then JDec (nat_string (k div 100) @ CHR ''.'' # [digit_char (k div 10 mod 10)])
      else JDec (nat_string (k div 100) @ CHR ''.'' # [digit_char (k div 10 mod 10), digit_char (k mod 10)]))"

definition order_json :: "order \<Rightarrow> jsval" where
  "order_json od =
     JObj [(''id'', JStr (od_id od)), (''product'', JStr (od_product od)), (''amount'', amount_json (od_cents od)),
           (''created_at'', JStr (od_created od))]"

text \<open>
  The process: the 64-bit counter, what the broker has accepted, the errors logged, the totals logged, and
  for each goroutine how many messages it has left to send.
\<close>

record producer =
  pr_produced :: "64 word"
  pr_sent :: "jsval list"
  pr_errors :: nat
  pr_totals :: "64 word list"
  pr_left :: "nat list"

definition producer_init :: producer where
  "producer_init = \<lparr>pr_produced = 0, pr_sent = [], pr_errors = 0, pr_totals = [], pr_left = []\<rparr>"

definition burst_count :: "string \<Rightarrow> int" where
  "burst_count n = (case atoi_opt n of None \<Rightarrow> 50000 | Some v \<Rightarrow> if 0 < v then v else 50000)"

text \<open>One iteration of \<open>send\<close>; the total is logged at every thousandth message.\<close>

definition send_one :: "order \<Rightarrow> bool \<Rightarrow> producer \<Rightarrow> producer" where
  "send_one od accepted p =
     (if accepted then
        let total = pr_produced p + 1
        in p\<lparr>pr_produced := total, pr_sent := pr_sent p @ [order_json od],
             pr_totals := (if sint total mod 1000 = 0 then pr_totals p @ [total] else pr_totals p)\<rparr>
      else p\<lparr>pr_errors := pr_errors p + 1\<rparr>)"

datatype producer_event =
    Ticked
  | Burst string
  | Sends nat order bool

fun producer_step :: "producer_event \<Rightarrow> producer \<Rightarrow> producer" where
  "producer_step Ticked p = p\<lparr>pr_left := pr_left p @ [1]\<rparr>"
| "producer_step (Burst n) p = p\<lparr>pr_left := pr_left p @ [nat (burst_count n)]\<rparr>"
| "producer_step (Sends g od accepted) p =
     (if g < length (pr_left p) \<and> 0 < pr_left p ! g
      then (send_one od accepted p)\<lparr>pr_left := (pr_left p)[g := pr_left p ! g - 1]\<rparr>
      else p)"

section \<open>Consuming\<close>

record kafka_message =
  km_offset :: int
  km_value :: "jsval option"

text \<open>The value of a decimal literal without an exponent, and of a number decoded into a float.\<close>

definition dec_value :: "string \<Rightarrow> rat option" where
  "dec_value s =
     (let fs = tl (dropWhile is_digit s) in
      case (digits_val 0 (takeWhile is_digit s), digits_val 0 fs) of
        (Some a, Some b) \<Rightarrow> Some (of_nat a + of_nat b / 10 ^ length fs)
      | _ \<Rightarrow> None)"

fun go_float :: "jsval \<Rightarrow> rat \<Rightarrow> rat option" where
  "go_float (JNum n) cur = Some (of_int n)"
| "go_float (JDec s) cur = dec_value s"
| "go_float JNull cur = Some cur"
| "go_float JUndef cur = Some cur"
| "go_float _ cur = None"

fun read_float :: "string \<Rightarrow> props \<Rightarrow> rat \<Rightarrow> rat option" where
  "read_float key [] cur = Some cur"
| "read_float key ((k, v) # ps) cur =
     (if to_lower k = key then Option.bind (go_float v cur) (read_float key ps) else read_float key ps cur)"

fun times_ok :: "(string \<Rightarrow> bool) \<Rightarrow> string \<Rightarrow> props \<Rightarrow> bool" where
  "times_ok is_time key [] \<longleftrightarrow> True"
| "times_ok is_time key ((k, v) # ps) \<longleftrightarrow>
     (to_lower k = key \<longrightarrow> (case v of JStr s \<Rightarrow> is_time s | JNull \<Rightarrow> True | _ \<Rightarrow> False)) \<and> times_ok is_time key ps"

definition decode_order :: "(string \<Rightarrow> bool) \<Rightarrow> jsval option \<Rightarrow> (string \<times> string \<times> rat) option" where
  "decode_order is_time body =
     (case body of
        Some (JObj ps) \<Rightarrow>
          (case (read_str ''id'' ps [], read_str ''product'' ps [], read_float ''amount'' ps 0) of
             (Some i, Some p, Some a) \<Rightarrow> if times_ok is_time ''created_at'' ps then Some (i, p, a) else None
           | _ \<Rightarrow> None)
      | Some JNull \<Rightarrow> Some ([], [], 0)
      | _ \<Rightarrow> None)"

record consumer =
  cn_consumed :: "64 word"
  cn_marked :: "int list"
  cn_log :: "string list"

definition processing_line :: "string \<times> string \<times> rat \<Rightarrow> int \<Rightarrow> string" where
  "processing_line od lag =
     (case od of (i, p, a) \<Rightarrow>
        ''processing order='' @ i @ '' product='' @ p @ '' amount='' @ to_fixed 2 a @ '' lag='' @ int_string lag)"

text \<open>One message of \<open>ConsumeClaim\<close>; a message that does not decode is marked and counted
  as well.\<close>

definition consume :: "(string \<Rightarrow> bool) \<Rightarrow> int \<times> kafka_message \<Rightarrow> consumer \<Rightarrow> consumer" where
  "consume is_time hm c =
     (case hm of (high, m) \<Rightarrow>
        let n = cn_consumed c + 1
        in c\<lparr>cn_log := cn_log c @
               (case decode_order is_time (km_value m) of
                  None \<Rightarrow> []
                | Some od \<Rightarrow> [processing_line od (high - km_offset m - 1)]) @
               (if sint n mod 100 = 0 then [''consumed '' @ int_string (sint n) @ '' messages total''] else []),
             cn_marked := cn_marked c @ [km_offset m], cn_consumed := n\<rparr>)"

definition ConsumeClaim :: "(string \<Rightarrow> bool) \<Rightarrow> (int \<times> kafka_message) list \<Rightarrow> consumer \<Rightarrow> consumer" where
  "ConsumeClaim is_time msgs c = fold (consume is_time) msgs c"

section \<open>Facts\<close>

lemma connect_from_find:
  assumes "i \<le> 31"
  shows "connect_from attempt i =
    (case find (\<lambda>k. attempt k \<noteq> None) [i..<31] of None \<Rightarrow> (None, 5 * (31 - i)) | Some k \<Rightarrow> (attempt k, 5 * (k - i)))"
  using assms
proof (induction attempt i rule: connect_from.induct)
  case (1 attempt i)
  show ?case
  proof (cases "30 < i")
    case True
    then show ?thesis using "1.prems" by (simp add: connect_from.simps)
  next
    case False
    then have ups: "[i..<31] = i # [Suc i..<31]" by (simp add: upt_rec)
    show ?thesis
    proof (cases "attempt i")
      case None
      have later: "i < k" if "find (\<lambda>k. attempt k \<noteq> None) [Suc i..<31] = Some k" for k
        using find_SomeD [OF that] by auto
      show ?thesis
        using "1.IH" [OF False None] "1.prems" False None later
        by (subst connect_from.simps) (auto simp: ups split: option.split)
    next
      case (Some p)
      then show ?thesis using False by (subst connect_from.simps) (simp add: ups)
    qed
  qed
qed

lemma env_int_ok: "ok def \<Longrightarrow> ok (env_int ok e key def)"
  by (simp add: env_int_def split: option.split)

lemma dec_value_decimal:
  assumes "digits_val 0 ds = Some b"
  shows "dec_value (nat_string a @ CHR ''.'' # ds) = Some (of_nat a + of_nat b / 10 ^ length ds)"
proof -
  have "\<not> is_digit CHR ''.''" by (simp add: is_digit_def digit_val_def)
  then have "takeWhile is_digit (nat_string a @ CHR ''.'' # ds) = nat_string a"
    "dropWhile is_digit (nat_string a @ CHR ''.'' # ds) = CHR ''.'' # ds"
    using nat_string_is_digit by (simp_all add: takeWhile_append2 dropWhile_append2)
  then show ?thesis by (simp add: dec_value_def assms)
qed

lemma go_float_amount: "go_float (amount_json k) cur = Some (of_nat k / 100)"
proof -
  define q r s where "q = k div 100" and "r = k div 10 mod 10" and "s = k mod 10"
  have "k = 10 * (k div 10) + s" "k div 10 = 10 * (k div 10 div 10) + r" "k div 10 div 10 = q"
    unfolding q_def r_def s_def by (simp, rule mult_div_mod_eq [symmetric], simp flip: div_mult2_eq)
  then have k: "k = 100 * q + 10 * r + s" "r < 10" "s < 10" by (linarith, simp_all add: r_def s_def)
  have d: "digits_val 0 [digit_char r] = Some r" "digits_val 0 [digit_char r, digit_char s] = Some (10 * r + s)"
    using k(2,3) by simp_all
  have "of_nat k / (100 :: rat) = of_nat q + of_nat (10 * r + s) / 10 ^ 2" by (simp add: k(1) field_simps)
  moreover have "of_nat k / (100 :: rat) = of_nat q + of_nat r / 10" if "s = 0"
    by (simp add: k(1) that field_simps)
  moreover have "of_nat k / (100 :: rat) = of_nat q" if "k mod 100 = 0"
  proof -
    have "k = 100 * q" using that by (auto simp: q_def)
    then show ?thesis by simp
  qed
  ultimately show ?thesis
    using dec_value_decimal [OF d(1), of q] dec_value_decimal [OF d(2), of q]
    by (auto simp: amount_json_def q_def [symmetric] r_def [symmetric] s_def [symmetric])
qed

definition valid_order :: "(string \<Rightarrow> bool) \<Rightarrow> order \<Rightarrow> bool" where
  "valid_order is_time od \<longleftrightarrow> (\<exists>nanos r pick cents now.
     pick < length products \<and> cents < 10000 \<and> is_time now \<and> od = newOrder nanos r pick cents now)"

lemma order_decodes:
  assumes "is_time (od_created od)"
  shows "decode_order is_time (Some (order_json od)) = Some (od_id od, od_product od, of_nat (od_cents od) / 100)"
  using assms go_float_amount [of "od_cents od" 0] by (simp add: decode_order_def order_json_def lower_char_def Let_def)

lemma two_decimals: "to_fixed 2 (of_nat k / 100) = place_point 2 (nat_string k)"
proof -
  have "(of_nat k / 100 * 10 ^ 2 :: rat) = of_nat k" by simp
  moreover have "nat \<lfloor>of_nat k + 1 / 2 :: rat\<rfloor> = k" by linarith
  ultimately show ?thesis by (simp add: to_fixed_def)
qed

section \<open>Properties\<close>

text \<open>Connecting ends after at most thirty attempts: with the first that succeeds, five seconds after each
  that failed before, or with none after a hundred and fifty seconds.\<close>

theorem newProducer_ends:
  "newProducer attempt =
    (case find (\<lambda>k. attempt k \<noteq> None) [1..<31] of None \<Rightarrow> (None, 150) | Some k \<Rightarrow> (attempt k, 5 * (k - 1)))"
  by (simp add: newProducer_def connect_from_find cong: option.case_cong)

text \<open>The rate is positive, and the ticker is so fast that in a second at least so many messages are
  asked for; a rate over a thousand million leaves no interval, and the producer panics at its start.\<close>

lemma ticker_rate:
  "0 < produce_rate e \<and> 0 \<le> process_delay e \<and> (ticker (produce_rate e) = None \<longleftrightarrow> 1000000000 < produce_rate e) \<and>
   (ticker (produce_rate e) = Some i \<longrightarrow> i * produce_rate e \<le> 1000000000 \<and> 1000000000 < (i + 1) * produce_rate e)"
proof -
  have r: "0 < produce_rate e" "0 \<le> process_delay e"
    unfolding produce_rate_def process_delay_def by (rule env_int_ok, simp)+
  have "0 < 1000000000 div n \<longleftrightarrow> n \<le> 1000000000" if "0 < n" for n :: int
    using that by (simp add: pos_imp_zdiv_pos_iff)
  moreover have "1000000000 div n * n \<le> 1000000000 \<and> 1000000000 < (1000000000 div n + 1) * n" if "0 < n" for n :: int
  proof -
    have "m div n * n \<le> m \<and> m < (m div n + 1) * n" for m :: int
      using div_mult_mod_eq [of m n] pos_mod_bound [OF that, of m] pos_mod_sign [OF that, of m]
      unfolding distrib_right by linarith
    then show ?thesis .
  qed
  ultimately show ?thesis using r by (auto simp: ticker_def Let_def)
qed

definition asked :: "producer_event list \<Rightarrow> nat" where
  "asked evs = sum_list (map (\<lambda>ev. case ev of Ticked \<Rightarrow> 1 | Burst n \<Rightarrow> nat (burst_count n) | Sends g od a \<Rightarrow> 0) evs)"

definition drawn :: "(string \<Rightarrow> bool) \<Rightarrow> producer_event \<Rightarrow> bool" where
  "drawn is_time ev = (case ev of Sends g od a \<Rightarrow> valid_order is_time od | _ \<Rightarrow> True)"

lemma sum_list_decrease: "i < length xs \<Longrightarrow> 0 < xs ! i \<Longrightarrow> sum_list (xs[i := xs ! i - 1]) + 1 = sum_list (xs :: nat list)"
  by (induction xs arbitrary: i) (auto split: nat.split)

lemma producer_counts:
  assumes "pr_produced p = of_nat (length (pr_sent p))"
  shows "pr_produced (producer_step ev p) = of_nat (length (pr_sent (producer_step ev p)))"
    and "length (pr_sent (producer_step ev p)) + pr_errors (producer_step ev p) + sum_list (pr_left (producer_step ev p)) =
      length (pr_sent p) + pr_errors p + sum_list (pr_left p) + asked [ev]"
proof -
  show "pr_produced (producer_step ev p) = of_nat (length (pr_sent (producer_step ev p)))"
    using assms by (cases ev) (simp_all add: send_one_def Let_def)
  show "length (pr_sent (producer_step ev p)) + pr_errors (producer_step ev p) + sum_list (pr_left (producer_step ev p)) =
      length (pr_sent p) + pr_errors p + sum_list (pr_left p) + asked [ev]"
    using sum_list_decrease [of _ "pr_left p"] by (cases ev) (auto simp: asked_def send_one_def Let_def)
qed

lemma producer_sent:
  assumes "drawn is_time ev" and "list_all (\<lambda>v. \<exists>od. valid_order is_time od \<and> v = order_json od) (pr_sent p)"
  shows "list_all (\<lambda>v. \<exists>od. valid_order is_time od \<and> v = order_json od) (pr_sent (producer_step ev p))"
  using assms by (cases ev) (auto simp: drawn_def send_one_def Let_def)

lemma consumed:
  "cn_consumed (ConsumeClaim is_time msgs c) = cn_consumed c + of_nat (length msgs)"
  "cn_marked (ConsumeClaim is_time msgs c) = cn_marked c @ map (\<lambda>(high, m). km_offset m) msgs"
proof -
  have "cn_consumed (consume is_time hm c) = cn_consumed c + 1"
    "cn_marked (consume is_time hm c) = cn_marked c @ [km_offset (snd hm)]" for hm c
    by (simp_all add: consume_def Let_def split: prod.split)
  then show "cn_consumed (ConsumeClaim is_time msgs c) = cn_consumed c + of_nat (length msgs)"
    "cn_marked (ConsumeClaim is_time msgs c) = cn_marked c @ map (\<lambda>(high, m). km_offset m) msgs"
    unfolding ConsumeClaim_def by (induction msgs arbitrary: c) (auto simp: algebra_simps)
qed

text \<open>The claim over what the broker has accepted, as one partition.\<close>

definition one_partition :: "jsval list \<Rightarrow> (int \<times> kafka_message) list" where
  "one_partition vs = map (\<lambda>(k, v). (int (length vs), \<lparr>km_offset = int k, km_value = Some v\<rparr>)) (enumerate 0 vs)"

text \<open>C30: Orders from the ticker to the counter of the consumer.  In any interleaving of ticks, bursts and
  sends: the producer's counter is the number of messages the broker has accepted, and the accepted, the
  failed and the outstanding ones are those asked for.  A consumer that gets the accepted ones marks each
  offset once, in order, has counted as many, and every message decodes to its order's id, product and
  amount in cents.\<close>

theorem order_pipeline:
  assumes "list_all (drawn is_time) evs" and "p = fold producer_step evs producer_init"
    and "c = ConsumeClaim is_time (one_partition (pr_sent p)) \<lparr>cn_consumed = 0, cn_marked = [], cn_log = []\<rparr>"
  shows "pr_produced p = of_nat (length (pr_sent p)) \<and>
    length (pr_sent p) + pr_errors p + sum_list (pr_left p) = asked evs \<and>
    cn_consumed c = pr_produced p \<and> cn_marked c = map int [0..<length (pr_sent p)] \<and>
    list_all (\<lambda>v. \<exists>od. valid_order is_time od \<and> v = order_json od \<and>
      decode_order is_time (Some v) = Some (od_id od, od_product od, of_nat (od_cents od) / 100)) (pr_sent p)"
proof -
  have run: "pr_produced (fold producer_step evs q) = of_nat (length (pr_sent (fold producer_step evs q))) \<and>
      length (pr_sent (fold producer_step evs q)) + pr_errors (fold producer_step evs q) +
        sum_list (pr_left (fold producer_step evs q)) =
        length (pr_sent q) + pr_errors q + sum_list (pr_left q) + asked evs \<and>
      list_all (\<lambda>v. \<exists>od. valid_order is_time od \<and> v = order_json od) (pr_sent (fold producer_step evs q))"
    if "pr_produced q = of_nat (length (pr_sent q))"
      "list_all (\<lambda>v. \<exists>od. valid_order is_time od \<and> v = order_json od) (pr_sent q)" for q
    using assms(1) that
  proof (induction evs arbitrary: q)
    case (Cons ev evs)
    have "asked (ev # evs) = asked [ev] + asked evs" by (simp add: asked_def)
    then show ?case
      using Cons.IH [of "producer_step ev q"] Cons.prems producer_counts [OF Cons.prems(2), of ev]
        producer_sent [OF _ Cons.prems(3), of ev] by (simp del: producer_step.simps)
  qed (simp add: asked_def)
  have sent: "pr_produced p = of_nat (length (pr_sent p))"
    "length (pr_sent p) + pr_errors p + sum_list (pr_left p) = asked evs"
    "list_all (\<lambda>v. \<exists>od. valid_order is_time od \<and> v = order_json od) (pr_sent p)"
    using run [of producer_init] unfolding assms(2) by (simp_all add: producer_init_def)
  have "map (\<lambda>(high, m). km_offset m) (one_partition vs) = map int [0..<length vs]" for vs
    by (rule nth_equalityI) (simp_all add: one_partition_def case_prod_beta enumerate_eq_zip)
  then have "cn_consumed c = pr_produced p" "cn_marked c = map int [0..<length (pr_sent p)]"
    unfolding assms(3) consumed by (simp_all add: sent(1) one_partition_def)
  moreover have "list_all (\<lambda>v. \<exists>od. valid_order is_time od \<and> v = order_json od \<and>
      decode_order is_time (Some v) = Some (od_id od, od_product od, of_nat (od_cents od) / 100)) (pr_sent p)"
    using sent(3)
  proof (rule list.pred_mono_strong)
    fix v assume "\<exists>od. valid_order is_time od \<and> v = order_json od"
    then obtain od where od: "valid_order is_time od" "v = order_json od" by blast
    then have "is_time (od_created od)" by (auto simp: valid_order_def newOrder_def)
    with od order_decodes show "\<exists>od. valid_order is_time od \<and> v = order_json od \<and>
      decode_order is_time (Some v) = Some (od_id od, od_product od, of_nat (od_cents od) / 100)" by blast
  qed
  ultimately show ?thesis using sent by simp
qed

theorem order_pipeline_witness:
  "let od = newOrder 17 42 1 1250 ''2024-01-01T00:00:00Z'';
       p = fold producer_step [Burst ''2'', Sends 0 od True, Ticked, Sends 0 od False] producer_init;
       c = ConsumeClaim (\<lambda>s. s \<noteq> []) (one_partition (pr_sent p)) \<lparr>cn_consumed = 0, cn_marked = [], cn_log = []\<rparr>
   in pr_produced p = 1 \<and> pr_errors p = 1 \<and> pr_left p = [0, 1] \<and> cn_consumed c = 1 \<and> cn_marked c = [0] \<and>
      pr_sent p = [order_json od] \<and>
      decode_order (\<lambda>s. s \<noteq> []) (Some (order_json od)) = Some (''ord-17-42'', ''gadget'', 25 / 2)"
proof -
  let ?od = "newOrder 17 42 1 1250 ''2024-01-01T00:00:00Z''"
  let ?evs = "[Burst ''2'', Sends 0 ?od True, Ticked, Sends 0 ?od False]"
  let ?p = "fold producer_step ?evs producer_init"
  let ?c = "ConsumeClaim (\<lambda>s. s \<noteq> []) (one_partition (pr_sent ?p)) \<lparr>cn_consumed = 0, cn_marked = [], cn_log = []\<rparr>"
  have two: "burst_count ''2'' = 2" by code_simp
  have p: "pr_sent ?p = [order_json ?od]" "pr_errors ?p = 1" "pr_left ?p = [0, 1]" "pr_produced ?p = 1"
    by (simp_all add: producer_init_def two send_one_def Let_def numeral_2_eq_2)
  have "valid_order (\<lambda>s. s \<noteq> []) ?od"
    unfolding valid_order_def
    by (rule exI [of _ 17], rule exI [of _ 42], rule exI [of _ 1], rule exI [of _ 1250],
        rule exI [of _ "''2024-01-01T00:00:00Z''"]) (simp add: products_def)
  then have "list_all (drawn (\<lambda>s. s \<noteq> [])) ?evs" by (simp add: drawn_def)
  from order_pipeline [OF this refl refl] have "cn_consumed ?c = 1 \<and> cn_marked ?c = [0]"
    unfolding p(1,4) by simp
  moreover have "decode_order (\<lambda>s. s \<noteq> []) (Some (order_json ?od)) = Some (od_id ?od, od_product ?od, of_nat (od_cents ?od) / 100)"
    by (rule order_decodes) (simp add: newOrder_def)
  moreover have "od_id ?od = ''ord-17-42''" "od_product ?od = ''gadget''" "od_cents ?od = 1250"
    by (simp_all add: newOrder_def products_def int_string_def nat_string.simps digit_char_def)
  ultimately show ?thesis using p by (simp add: Let_def)
qed

end
