(* ===== verification/Deployment.thy ===== *)
theory Deployment
  imports Server Orders
begin

text \<open>
  How the programs are put together: \<open>docker-compose.yml\<close>, the front end's \<open>nginx.conf\<close>, and the
  manifests under \<open>kubernetes/\<close> of the programs, their services and their environments.  nginx, compose
  and Kubernetes are modelled as documented, as far as the manifests use them: the longest matching
  location, names of a compose network, services that select pods or stand for a name elsewhere, values
  taken from a secret.  Probes, resources, scaling and the ingress are left out.
\<close>

section \<open>The web server of the front end\<close>

datatype location = TryFiles string | ProxyPass string nat

definition nginx_locations :: "(string \<times> location) list" where
  "nginx_locations = [(''/'', TryFiles ''/index.html''), (''/api/'', ProxyPass ''cronpilot-api'' 3000)]"

text \<open>Of the locations that are a prefix of the path the longest is taken.\<close>

fun longest :: "string \<Rightarrow> (string \<times> 'a) list \<Rightarrow> (string \<times> 'a) option" where
  "longest uri [] = None"
| "longest uri ((p, l) # ls) =
     (case longest uri ls of
        None \<Rightarrow> if prefix p uri then Some (p, l) else None
      | Some (q, k) \<Rightarrow> if prefix p uri \<and> length q < length p then Some (p, l) else Some (q, k))"

datatype served = File string | Directory string | Upstream string nat string | NotServed

text \<open>
  The files and directories below the root are arguments; a proxied request keeps its target as it came.
  Paths are taken as already normalised (no dots, escapes or doubled slashes left to resolve).
\<close>

definition nginx :: "(string \<Rightarrow> bool) \<Rightarrow> (string \<Rightarrow> bool) \<Rightarrow> string \<Rightarrow> served" where
  "nginx file dir target =
     (let uri = takeWhile (\<lambda>c. c \<noteq> CHR ''?'') target in
      case longest uri nginx_locations of
        None \<Rightarrow> NotServed
      | Some (_, ProxyPass host port) \<Rightarrow> Upstream host port target
      | Some (_, TryFiles fallback) \<Rightarrow>
          if file uri then File uri else if dir uri then Directory uri else File fallback)"

text \<open>What a build of the front end leaves there: the page, and its scripts and styles.\<close>

definition build_files :: "(string \<Rightarrow> bool) \<Rightarrow> bool" where
  "build_files file \<longleftrightarrow> (\<forall>f. file f \<longrightarrow> f = ''/index.html'' \<or> prefix ''/assets/'' f)"

definition build_dirs :: "(string \<Rightarrow> bool) \<Rightarrow> bool" where
  "build_dirs dir \<longleftrightarrow> (\<forall>d. dir d \<longrightarrow> d \<in> {''/'', ''/assets''} \<or> prefix ''/assets/'' d)"

section \<open>The compose network\<close>

record compose_service =
  cs_env :: "(string \<times> string) list"
  cs_ports :: "(nat \<times> nat) list"

definition database_env :: "(string \<times> string) list" where
  "database_env =
     [(''DB_HOST'', ''db''), (''DB_PORT'', ''5432''), (''DB_NAME'', ''cronpilot''), (''DB_USER'', ''cronpilot''),
      (''DB_PASSWORD'', ''cronpilot'')]"

definition compose :: "(string \<times> compose_service) list" where
  "compose =
     [(''db'', \<lparr>cs_env = [(''POSTGRES_DB'', ''cronpilot''), (''POSTGRES_USER'', ''cronpilot''),
          (''POSTGRES_PASSWORD'', ''cronpilot'')], cs_ports = [(5432, 5432)]\<rparr>),
      (''cronpilot-api'', \<lparr>cs_env = database_env @ [(''CORS_ORIGIN'', ''http://localhost:8080'')],
          cs_ports = [(3000, 3000)]\<rparr>),
      (''cronpilot-worker'', \<lparr>cs_env = database_env, cs_ports = []\<rparr>),
      (''cronpilot-frontend'', \<lparr>cs_env = [], cs_ports = [(8080, 80)]\<rparr>),
      (''cron-webhook'', \<lparr>cs_env = [(''PORT'', ''4000''), (''MAX_ENTRIES'', ''500'')], cs_ports = [(4000, 4000)]\<rparr>)]"

definition compose_env :: "string \<Rightarrow> env" where
  "compose_env name = (case map_of compose name of None \<Rightarrow> Map.empty | Some s \<Rightarrow> map_of (cs_env s))"

text \<open>In the network a service is known by its name, at any port it listens on.\<close>

definition compose_reach :: "string \<Rightarrow> nat \<Rightarrow> (string \<times> nat) option" where
  "compose_reach host port = map_option (\<lambda>_. (host, port)) (map_of compose host)"

text \<open>The port a browser on the machine uses for a service.\<close>

definition published :: "string \<Rightarrow> nat \<Rightarrow> nat option" where
  "published name port =
     (case map_of compose name of
        None \<Rightarrow> None
      | Some s \<Rightarrow> map_option fst (find (\<lambda>(outer, inner). inner = port) (cs_ports s)))"

section \<open>The cluster\<close>

text \<open>Secrets are kept in base 64; four characters hold three bytes.\<close>

definition b64_val :: "char \<Rightarrow> nat option" where
  "b64_val c =
     (let n = of_char c :: nat in
      if 65 \<le> n \<and> n \<le> 90 then Some (n - 65)
      else if 97 \<le> n \<and> n \<le> 122 then Some (n - 71)
      else if 48 \<le> n \<and> n \<le> 57 then Some (n + 4)
      else if c = CHR ''+'' then Some 62
      else if c = CHR ''/'' then Some 63
      else None)"

fun b64_decode :: "string \<Rightarrow> string option" where
  "b64_decode [] = Some []"
| "b64_decode (a # b # c # d # s) =
     (case (b64_val a, b64_val b) of
        (Some i, Some j) \<Rightarrow>
          (let x = char_of (i * 4 + j div 16) in
           if c = CHR ''='' \<and> d = CHR ''='' then if s = [] then Some [x] else None
           else case b64_val c of
             None \<Rightarrow> None
           | Some k \<Rightarrow>
               (let y = char_of (j mod 16 * 16 + k div 4) in
                if d = CHR ''='' then if s = [] then Some [x, y] else None
                else case b64_val d of
                  None \<Rightarrow> None
                | Some l \<Rightarrow> map_option (\<lambda>t. x # y # char_of (k mod 4 * 64 + l) # t) (b64_decode s)))
      | _ \<Rightarrow> None)"
| "b64_decode _ = None"

datatype env_entry = Value string | SecretKey string

definition db_secret :: "(string \<times> string) list" where
  "db_secret = [(''POSTGRES_DB'', ''Y3JvbnBpbG90''), (''POSTGRES_USER'', ''Y3JvbnBpbG90''),
     (''POSTGRES_PASSWORD'', ''Y3JvbnBpbG90'')]"

text \<open>A container whose secret lacks a key is not started.\<close>

fun entries_env :: "(string \<times> string) list \<Rightarrow> (string \<times> env_entry) list \<Rightarrow> (string \<times> string) list option" where
  "entries_env secret [] = Some []"
| "entries_env secret ((k, v) # es) =
     (case (case v of Value s \<Rightarrow> Some s | SecretKey key \<Rightarrow> Option.bind (map_of secret key) b64_decode) of
        None \<Rightarrow> None
      | Some s \<Rightarrow> map_option (Cons (k, s)) (entries_env secret es))"

record pod =
  pod_namespace :: string
  pod_app :: string
  pod_ports :: "nat list"
  pod_entries :: "(string \<times> env_entry) list"

definition database_entries :: "(string \<times> env_entry) list" where
  "database_entries =
     [(''DB_HOST'', Value ''postgres''), (''DB_PORT'', Value ''5432''), (''DB_NAME'', SecretKey ''POSTGRES_DB''),
      (''DB_USER'', SecretKey ''POSTGRES_USER''), (''DB_PASSWORD'', SecretKey ''POSTGRES_PASSWORD'')]"

definition postgres_pod :: pod where
  "postgres_pod = \<lparr>pod_namespace = ''postgres'', pod_app = ''postgres'', pod_ports = [5432],
     pod_entries = [(''POSTGRES_DB'', SecretKey ''POSTGRES_DB''), (''POSTGRES_USER'', SecretKey ''POSTGRES_USER''),
       (''POSTGRES_PASSWORD'', SecretKey ''POSTGRES_PASSWORD''),
       (''PGDATA'', Value ''/var/lib/postgresql/data/pgdata'')]\<rparr>"

definition api_pod :: pod where
  "api_pod = \<lparr>pod_namespace = ''cronpilot-api'', pod_app = ''cronpilot-api'', pod_ports = [3000],
     pod_entries = (''PORT'', Value ''3000'') # database_entries @ [(''CORS_ORIGIN'', Value ''*'')]\<rparr>"

definition worker_pod :: pod where
  "worker_pod = \<lparr>pod_namespace = ''cronpilot-worker'', pod_app = ''cronpilot-worker'', pod_ports = [],
     pod_entries = database_entries\<rparr>"

definition frontend_pod :: pod where
  "frontend_pod = \<lparr>pod_namespace = ''cronpilot-frontend'', pod_app = ''cronpilot-frontend'', pod_ports = [80],
     pod_entries = []\<rparr>"

definition webhook_pod :: pod where
  "webhook_pod = \<lparr>pod_namespace = ''cron-webhook'', pod_app = ''cron-webhook'', pod_ports = [4000],
     pod_entries = [(''PORT'', Value ''4000''), (''MAX_ENTRIES'', Value ''500'')]\<rparr>"

definition producer_pod :: pod where
  "producer_pod = \<lparr>pod_namespace = ''kafka-producer'', pod_app = ''kafka-producer'', pod_ports = [8080],
     pod_entries = [(''KAFKA_BROKERS'', Value ''kafka.kafka.svc.cluster.local:9092''),
       (''KAFKA_TOPIC'', Value ''sample-orders''), (''PRODUCE_RATE'', Value ''50'')]\<rparr>"

definition consumer_pod :: pod where
  "consumer_pod = \<lparr>pod_namespace = ''kafka-consumer'', pod_app = ''kafka-consumer'', pod_ports = [8080],
     pod_entries = [(''KAFKA_BROKERS'', Value ''kafka.kafka.svc.cluster.local:9092''),
       (''KAFKA_TOPIC'', Value ''orders''), (''KAFKA_CONSUMER_GROUP'', Value ''order-processor''),
       (''PROCESS_DELAY_MS'', Value ''200'')]\<rparr>"

definition cluster_pods :: "pod list" where
  "cluster_pods = [postgres_pod, api_pod, worker_pod, frontend_pod, webhook_pod, producer_pod, consumer_pod]"

definition pod_env :: "pod \<Rightarrow> env option" where
  "pod_env p = map_option map_of (entries_env db_secret (pod_entries p))"

text \<open>A service selects pods of its namespace and maps its ports to theirs, or stands for another name.\<close>

datatype service = Selects string "(nat \<times> nat) list" | External string

type_synonym named_service = "(string \<times> string) \<times> service"

definition postgres_service :: named_service where
  "postgres_service = ((''postgres'', ''postgres''), Selects ''postgres'' [(5432, 5432)])"

definition api_database :: named_service where
  "api_database = ((''cronpilot-api'', ''postgres''), External ''postgres.postgres.svc.cluster.local'')"

definition api_service :: named_service where
  "api_service = ((''cronpilot-api'', ''cronpilot-api''), Selects ''cronpilot-api'' [(3000, 3000)])"

definition worker_database :: named_service where
  "worker_database = ((''cronpilot-worker'', ''postgres''), External ''postgres.postgres.svc.cluster.local'')"

definition frontend_api :: named_service where
  "frontend_api = ((''cronpilot-frontend'', ''cronpilot-api''), External ''cronpilot-api.cronpilot-api.svc.cluster.local'')"

definition frontend_service :: named_service where
  "frontend_service = ((''cronpilot-frontend'', ''cronpilot-frontend''), Selects ''cronpilot-frontend'' [(80, 80)])"

definition webhook_service :: named_service where
  "webhook_service = ((''cron-webhook'', ''cron-webhook''), Selects ''cron-webhook'' [(4000, 4000)])"

text \<open>The services of the programs the overlay of the playground lists.\<close>

definition cluster_services :: "named_service list" where
  "cluster_services =
     [postgres_service, api_database, api_service, worker_database,
      frontend_api, frontend_service, webhook_service]"

lemmas service_defs = postgres_service_def api_database_def api_service_def worker_database_def
  frontend_api_def frontend_service_def webhook_service_def

definition fqdn :: "string \<times> string \<Rightarrow> string" where
  "fqdn = (\<lambda>(namespace, name). name @ ''.'' @ namespace @ ''.svc.cluster.local'')"

text \<open>The pods, with their port, that a connection from a namespace to a host and a port may reach.\<close>

definition selected :: "string \<times> string \<Rightarrow> nat \<Rightarrow> (pod \<times> nat) list" where
  "selected key port =
     (case map_of cluster_services key of
        Some (Selects app ports) \<Rightarrow>
          (case map_of ports port of
             None \<Rightarrow> []
           | Some target \<Rightarrow>
               map (\<lambda>p. (p, target))
                 (filter (\<lambda>p. pod_namespace p = fst key \<and> pod_app p = app) cluster_pods))
      | _ \<Rightarrow> [])"

definition named :: "string \<Rightarrow> (string \<times> string) option" where
  "named host = find (\<lambda>key. fqdn key = host) (map fst cluster_services)"

definition cluster_reach :: "string \<Rightarrow> string \<Rightarrow> nat \<Rightarrow> (pod \<times> nat) list" where
  "cluster_reach namespace host port =
     (case map_of cluster_services (namespace, host) of
        Some (External name) \<Rightarrow> (case named name of None \<Rightarrow> [] | Some key \<Rightarrow> selected key port)
      | Some (Selects app ports) \<Rightarrow> selected (namespace, host) port
      | None \<Rightarrow> (case named host of None \<Rightarrow> [] | Some key \<Rightarrow> selected key port))"

section \<open>The topic of the orders\<close>

definition order_topic :: "env \<Rightarrow> string" where
  "order_topic e = envOr e ''KAFKA_TOPIC'' ''orders''"

text \<open>What the producer has sent stands in its topic; a consumer is given what stands in its own.\<close>

definition publish :: "env \<Rightarrow> producer \<Rightarrow> (string \<Rightarrow> jsval list) \<Rightarrow> string \<Rightarrow> jsval list" where
  "publish e p topics = topics(order_topic e := topics (order_topic e) @ pr_sent p)"

section \<open>Locations\<close>

lemma longest_prefix: "longest uri ls = Some (p, l) \<Longrightarrow> (p, l) \<in> set ls \<and> prefix p uri"
  by (induction uri ls arbitrary: p l rule: longest.induct) (auto split: option.splits if_splits)

lemma longest_complete: "(p, l) \<in> set ls \<Longrightarrow> prefix p uri \<Longrightarrow> \<exists>q k. longest uri ls = Some (q, k) \<and> length p \<le> length q"
  by (induction uri ls arbitrary: p l rule: longest.induct) (fastforce split: option.splits)+

lemma uri_of_target: "CHR ''?'' \<notin> set path \<Longrightarrow> takeWhile (\<lambda>c. c \<noteq> CHR ''?'') (path @ CHR ''?'' # q) = path"
  by (induction path) auto

lemma nginx_api:
  "nginx file dir (''/api/'' @ t) = Upstream ''cronpilot-api'' 3000 (''/api/'' @ t)"
  by (simp add: nginx_def nginx_locations_def)

lemma nginx_file:
  assumes "takeWhile (\<lambda>c. c \<noteq> CHR ''?'') target = uri" and "\<not> prefix ''/api/'' uri" and "prefix ''/'' uri"
  shows "nginx file dir target = (if file uri then File uri else if dir uri then Directory uri else File ''/index.html'')"
  using assms by (simp add: nginx_def nginx_locations_def)

text \<open>The first segment of a path of the application is none of the server's own names.\<close>

lemma page_first_segment:
  "b \<in> set app_branches \<Longrightarrow> matches (fst b) (s # ss) \<Longrightarrow> s \<notin> {''api'', ''assets'', ''index.html''}"
  by (auto simp: app_branches_eval matches_def list_all2_Cons1 lower_char_def)

lemma own_segments:
  "segments (''/api/'' @ t) = ''api'' # segments t" "segments (''/assets/'' @ t) = ''assets'' # segments t"
  "segments ''/assets'' = [''assets'']" "segments ''/index.html'' = [''index.html'']"
  by (simp_all add: segments_def)

lemma page_path:
  assumes "b \<in> set app_branches" and "matches (fst b) (segments path)"
  shows "\<not> prefix ''/api/'' path" and "\<not> prefix ''/assets/'' path" and "path \<noteq> ''/assets''" and "path \<noteq> ''/index.html''"
  using page_first_segment [OF assms(1)] assms(2) own_segments unfolding prefix_def by fastforce+

lemmas env_eval = pod_env_def database_entries_def db_secret_def b64_val_def getenv_def compose_env_def compose_def
  database_env_def

lemma b64_cronpilot: "b64_decode ''Y3JvbnBpbG90'' = Some ''cronpilot''"
  by code_simp

lemma compose_envs:
  "compose_env ''cronpilot-api'' = map_of (database_env @ [(''CORS_ORIGIN'', ''http://localhost:8080'')])"
  "compose_env ''cronpilot-worker'' = map_of database_env"
  "compose_env ''db'' = map_of [(''POSTGRES_DB'', ''cronpilot''), (''POSTGRES_USER'', ''cronpilot''), (''POSTGRES_PASSWORD'', ''cronpilot'')]"
  by (simp_all add: compose_env_def compose_def)

lemma pod_envs:
  "pod_env api_pod = Some (map_of [(''PORT'', ''3000''), (''DB_HOST'', ''postgres''), (''DB_PORT'', ''5432''),
     (''DB_NAME'', ''cronpilot''), (''DB_USER'', ''cronpilot''), (''DB_PASSWORD'', ''cronpilot''), (''CORS_ORIGIN'', ''*'')])"
  "pod_env worker_pod = Some (map_of [(''DB_HOST'', ''postgres''), (''DB_PORT'', ''5432''),
     (''DB_NAME'', ''cronpilot''), (''DB_USER'', ''cronpilot''), (''DB_PASSWORD'', ''cronpilot'')])"
  "pod_env postgres_pod = Some (map_of [(''POSTGRES_DB'', ''cronpilot''), (''POSTGRES_USER'', ''cronpilot''),
     (''POSTGRES_PASSWORD'', ''cronpilot''), (''PGDATA'', ''/var/lib/postgresql/data/pgdata'')])"
  by (simp_all add: pod_env_def api_pod_def worker_pod_def postgres_pod_def database_entries_def db_secret_def
    b64_cronpilot del: b64_decode.simps)

lemma cluster_reaches:
  "cluster_reach ''cronpilot-frontend'' ''cronpilot-api'' 3000 = [(api_pod, 3000)]"
  "cluster_reach ''cronpilot-api'' ''postgres'' 5432 = [(postgres_pod, 5432)]"
  "cluster_reach ''cronpilot-worker'' ''postgres'' 5432 = [(postgres_pod, 5432)]"
  by (simp_all add: cluster_reach_def cluster_services_def service_defs named_def fqdn_def selected_def cluster_pods_def
    postgres_pod_def api_pod_def worker_pod_def frontend_pod_def webhook_pod_def producer_pod_def consumer_pod_def)

lemma pod_topics:
  "pod_env producer_pod = Some (map_of [(''KAFKA_BROKERS'', ''kafka.kafka.svc.cluster.local:9092''),
     (''KAFKA_TOPIC'', ''sample-orders''), (''PRODUCE_RATE'', ''50'')])"
  "pod_env consumer_pod = Some (map_of [(''KAFKA_BROKERS'', ''kafka.kafka.svc.cluster.local:9092''),
     (''KAFKA_TOPIC'', ''orders''), (''KAFKA_CONSUMER_GROUP'', ''order-processor''), (''PROCESS_DELAY_MS'', ''200'')])"
  by (simp_all add: pod_env_def producer_pod_def consumer_pod_def)

section \<open>Properties\<close>

text \<open>
  Every request of the front end's client arrives at the API.  The web server passes it on, with its target
  unchanged, to host \<open>cronpilot-api\<close>, port 3000; in the compose network and in the cluster that name stands
  for the API, whose settings make it listen on just that port; and the pages that compose publishes have
  the origin its API admits.
\<close>

theorem deployments_carry_calls:
  "nginx file dir (rq_url (client m (CHR ''/'' # u) body)) =
     Upstream ''cronpilot-api'' 3000 (rq_url (client m (CHR ''/'' # u) body)) \<and>
   compose_reach ''cronpilot-api'' 3000 = Some (''cronpilot-api'', 3000) \<and>
   st_port (api_settings (compose_env ''cronpilot-api'')) = nat_string 3000 \<and>
   map_option (\<lambda>p. ''http://localhost:'' @ nat_string p) (published ''cronpilot-frontend'' 80) =
     Some (st_origin (api_settings (compose_env ''cronpilot-api''))) \<and>
   cluster_reach ''cronpilot-frontend'' ''cronpilot-api'' 3000 = [(api_pod, 3000)] \<and>
   map_option (\<lambda>e. st_port (api_settings e)) (pod_env api_pod) = Some (nat_string 3000)"
proof -
  have "nginx file dir (rq_url (client m (CHR ''/'' # u) body)) =
     Upstream ''cronpilot-api'' 3000 (rq_url (client m (CHR ''/'' # u) body))"
    using nginx_api by (simp add: client_def base_url_def)
  moreover have "compose_reach ''cronpilot-api'' 3000 = Some (''cronpilot-api'', 3000)"
    and "published ''cronpilot-frontend'' 80 = Some 8080"
    by (simp_all add: compose_reach_def published_def compose_def)
  moreover have "nat_string 3000 = ''3000''" and "nat_string 8080 = ''8080''"
    by (simp_all add: nat_string.simps digit_char_def)
  ultimately show ?thesis
    by (simp add: cluster_reaches pod_envs compose_envs api_settings_def getenv_def database_env_def)
qed

text \<open>
  API and worker of a deployment open the same database, as the user it was created with: their data source
  names agree, the host in them leads to the database's service, and name, user and password are what that
  service was given, in the cluster by way of the secret.
\<close>

theorem deployments_share_database:
  "dsn (compose_env ''cronpilot-worker'') = dsn (compose_env ''cronpilot-api'') \<and>
   compose_reach (getenv (compose_env ''cronpilot-api'') ''DB_HOST'' ''localhost'') 5432 = Some (''db'', 5432) \<and>
   map (compose_env ''cronpilot-api'') [''DB_NAME'', ''DB_USER'', ''DB_PASSWORD''] =
     map (compose_env ''db'') [''POSTGRES_DB'', ''POSTGRES_USER'', ''POSTGRES_PASSWORD''] \<and>
   map_option dsn (pod_env worker_pod) = map_option dsn (pod_env api_pod) \<and>
   (case (pod_env api_pod, pod_env postgres_pod) of
      (Some e, Some p) \<Rightarrow>
        cluster_reach ''cronpilot-api'' (getenv e ''DB_HOST'' ''localhost'') 5432 = [(postgres_pod, 5432)] \<and>
        cluster_reach ''cronpilot-worker'' (getenv e ''DB_HOST'' ''localhost'') 5432 = [(postgres_pod, 5432)] \<and>
        getenv e ''DB_PORT'' ''5432'' = nat_string 5432 \<and>
        map e [''DB_NAME'', ''DB_USER'', ''DB_PASSWORD''] = map p [''POSTGRES_DB'', ''POSTGRES_USER'', ''POSTGRES_PASSWORD'']
    | _ \<Rightarrow> False)"
proof -
  have "compose_reach ''db'' 5432 = Some (''db'', 5432)" by (simp add: compose_reach_def compose_def)
  moreover have "nat_string 5432 = ''5432''" by (simp add: nat_string.simps digit_char_def)
  ultimately show ?thesis
    by (simp add: cluster_reaches pod_envs compose_envs dsn_def getenv_def database_env_def)
qed

text \<open>C38: Pages open by address.  Every path of the application can be opened by its address: for a path
  that some route matches, with or without a query, the server sends the application's page (for the
  root, that directory, whose index it is), and neither another file of the build nor the API's answer.
\<close>

theorem pages_open_by_address:
  assumes "build_files file" and "build_dirs dir" and "prefix ''/'' path" and "CHR ''?'' \<notin> set path"
    and "b \<in> set app_branches" and "matches (fst b) (segments path)" and "target \<in> {path, path @ CHR ''?'' # q}"
  shows "nginx file dir target = (if path = ''/'' \<and> dir ''/'' then Directory ''/'' else File ''/index.html'')"
proof -
  have plain: "takeWhile (\<lambda>c. c \<noteq> CHR ''?'') path = path"
    using assms(4) by (induction path) auto
  then have uri: "takeWhile (\<lambda>c. c \<noteq> CHR ''?'') target = path"
    using assms(7) uri_of_target [OF assms(4)] by blast
  note own = page_path [OF assms(5,6)]
  have "\<not> file path" and "dir path \<longleftrightarrow> path = ''/'' \<and> dir ''/''"
    using own assms(1,2) by (auto simp: build_files_def build_dirs_def)
  then show ?thesis unfolding nginx_file [OF uri own(1) assms(3)] by presburger
qed

theorem pages_open_by_address_witness:
  "nginx (\<lambda>f. f = ''/index.html'') (\<lambda>d. d = ''/'') ''/jobs/7/edit?from=list'' = File ''/index.html''"
proof -
  let ?b = "([Lit ''jobs'', Param ''id'', Lit ''edit''], [ProtectedEl LayoutEl, Page EditJobPage])"
  have files: "build_files (\<lambda>f. f = ''/index.html'')" and dirs: "build_dirs (\<lambda>d. d = ''/'')"
    by (simp_all add: build_files_def build_dirs_def)
  have slash: "prefix ''/'' ''/jobs/7/edit''" and plain: "CHR ''?'' \<notin> set ''/jobs/7/edit''" by simp_all
  have b: "?b \<in> set app_branches" by (simp add: app_branches_eval)
  have m: "matches (fst ?b) (segments ''/jobs/7/edit'')" by (simp add: matches_def segments_def)
  have t: "''/jobs/7/edit?from=list'' \<in> {''/jobs/7/edit'', ''/jobs/7/edit'' @ CHR ''?'' # ''from=list''}" by simp
  from pages_open_by_address [OF files dirs slash plain b m t] show ?thesis by simp
qed

text \<open>
  In the cluster the producer writes to a topic that the consumer does not read: whatever has been sent, the
  consumer is given the same messages as before.  With both environments left to their defaults they agree.
\<close>

lemma cluster_orders_not_consumed:
  "case (pod_env producer_pod, pod_env consumer_pod) of
     (Some e, Some c) \<Rightarrow> publish e p topics (order_topic c) = topics (order_topic c)
   | _ \<Rightarrow> False"
  "publish Map.empty p topics (order_topic Map.empty) = topics (order_topic Map.empty) @ pr_sent p"
  by (simp_all add: pod_topics publish_def order_topic_def envOr_def)

text \<open>No deployment sets the secret of the tokens: both sign with the default in the source.\<close>

lemma deployed_secret_is_default:
  "st_secret (api_settings (compose_env ''cronpilot-api'')) = ''changeme''"
  "map_option (\<lambda>e. st_secret (api_settings e)) (pod_env api_pod) = Some ''changeme''"
  by (simp_all add: pod_envs compose_envs api_settings_def getenv_def database_env_def)

end
