(* ===== verification/Spec2Isabelle.thy ===== *)
theory Spec2Isabelle
  imports QueryCache UserFlows RunLife ReportCsv HookFlows Deployment
begin

text \<open>
  CronPilot: a scheduler of HTTP jobs.  A React front end (\<open>apps/cronpilot-frontend\<close>) talks to a Go API
  (\<open>apps/cronpilot-api\<close>), which keeps accounts, jobs and executions in a database; a Go worker
  (\<open>apps/cronpilot-worker\<close>) reads the jobs from the same database, runs them when they are due and records
  their outcome; \<open>apps/cron-webhook\<close> receives such requests and shows them on
  a live page.

  Ground.  \<open>Prelude\<close>: strings as UTF-8 bytes, decimal numerals, JavaScript's string functions, and the
  locales \<open>kept\<close> and \<open>kept_by\<close> of invariants (interpreted on the tables, the schedule's contexts, the lost
  rows, the live runs, the query cache and the receiver's page).
  \<open>Doubles\<close>: the arithmetic of doubles, each operation the exact result rounded to the nearest double
  (ties to even), with the facts the charts need: rounding is monotone, exact on the whole numbers below
  \<open>2^53\<close>, and off by at most \<open>2^-44\<close> below 1024.  \<open>JsValue\<close>, \<open>Json\<close>: the values that cross the interfaces, \<open>JSON.stringify\<close> and \<open>JSON.parse\<close> with their
  round trip (locale \<open>text_codec\<close>).  \<open>View\<close>: what a component returns (nodes with attributes, links and
  handlers) and the effects a handler asks for.

  Front end, one theory per part of \<open>src/\<close>: \<open>Api\<close> (\<open>api/*.js\<close>), \<open>Auth\<close> (\<open>AuthContext\<close>, \<open>Header\<close>,
  \<open>Sidebar\<close>; locales \<open>web_storage\<close> and \<open>persisted\<close>, interpreted on the tab's storage and the user entry),
  \<open>Routes\<close> (\<open>App.jsx\<close>), \<open>Shell\<close> (\<open>Layout.jsx\<close>, \<open>main.jsx\<close>), \<open>Cron\<close> (\<open>CronHelper\<close>), \<open>Widgets\<close>
  (\<open>StatusBadge\<close>, \<open>ExecutionTable\<close>), \<open>JobForm\<close>, \<open>JobPages\<close> (\<open>JobCard\<close>, \<open>Jobs\<close>, \<open>NewJob\<close>, \<open>EditJob\<close>,
  \<open>JobDetail\<close>), \<open>Dashboard\<close>, \<open>Credentials\<close> (\<open>Login\<close>, \<open>Register\<close>; locale \<open>credential_form\<close>, interpreted on
  both pages), \<open>Profile\<close>, \<open>Report\<close>, \<open>AdminJobs\<close>, \<open>AdminUsers\<close>.  A page is its state, its handlers as
  functions on the state, and its markup as a function of state and data; a promise is split into what
  happens before it and what its settlement does.

  Server: \<open>Backend\<close> (the route table of \<open>main.go\<close>, \<open>middleware/auth.go\<close>, reading of bodies), \<open>JobsApi\<close>
  (the tables of \<open>db/schema.sql\<close>, \<open>handler/jobs.go\<close>, the jobs of \<open>handler/admin.go\<close>), \<open>UsersApi\<close>
  (\<open>handler/auth.go\<close>, the users of \<open>handler/admin.go\<close>, \<open>seedAdmin\<close>), \<open>Executions\<close>
  (\<open>handler/executions.go\<close>), \<open>ReportApi\<close> and \<open>ReportCsv\<close> (\<open>handler/report.go\<close>).  A handler is a function
  from the arguments of its request and the database to the database and the reply, every refusal a
  branch of it.  \<open>Server\<close> puts them together: the API as one function from a request, with its headers, path,
  query and body, to the database and the answer; \<open>Requests\<close> runs it on sequences of requests.

  Worker: \<open>Executor\<close> (\<open>executor/executor.go\<close>, the same code in API and worker), \<open>Scheduler\<close>
  (\<open>scheduler/scheduler.go\<close>), \<open>WorkerRuns\<close> (the running system as a step relation: requests to jobs and
  accounts, syncs, callbacks, goroutines, restarts).  \<open>JobLife\<close> follows a job from the form to the schedule
  and out of it, \<open>RunLife\<close> an execution from the trigger to the lists that show it.

  Both: \<open>Startup\<close> (\<open>main.go\<close> of API and worker: environment, the two \<open>db/schema.sql\<close>, the seeded
  administrator, health; the proxy of \<open>vite.config.js\<close>).

  Receiver: \<open>Webhook\<close> (\<open>cron-webhook/main.go\<close>; locale \<open>recent_log\<close>, interpreted on its store),
  \<open>HookPage\<close> (state and messages of the script of \<open>public/index.html\<close>), \<open>HookMarkup\<close> (the markup it writes
  and what a browser reads from it), \<open>HookFlows\<close> (a job whose address is the receiver).

  Order demo: \<open>Orders\<close> (\<open>kafka-producer/main.go\<close>, \<open>kafka-consumer/main.go\<close>).

  Around them: \<open>Deployment\<close> (\<open>docker-compose.yml\<close>, \<open>nginx.conf\<close> and, of \<open>kubernetes/\<close>, the programs with their
  environments, services and the secret).

  What the theorems show.  Within the front end: guards and redirects (\<open>Routes\<close>), sessions that survive
  a reload and requests that carry their token (\<open>Auth\<close>), forms that submit what they show (\<open>JobForm\<close>,
  \<open>Credentials\<close>, \<open>Profile\<close>), lists, links and charts (\<open>JobPages\<close>, \<open>Report\<close>, \<open>AdminUsers\<close>, this theory).
  Between front end and server: every call has its route and guard, and what is admitted is what the
  session may do (\<open>Contract\<close>), a handler gets what the page passed to the call and no request crosses
  the users (\<open>Server\<close>), a click on a job does what its button says (\<open>Requests\<close>), the query cache of a tab
  holds what its users were answered on their own rows, only the present user's unless somebody signed in
  over a live session, and is told when a job is paused or resumed, but not of a started run
  (\<open>QueryCache\<close>); signing in, registering, editing jobs and accounts from the page to the
  row and back (\<open>UserFlows\<close>, \<open>JobFlows\<close>, with the locale \<open>decoded_field\<close> for the fields of a body);
  the lists, figures and exports the pages show are what the tables hold (\<open>Executions\<close>, \<open>ReportApi\<close>,
  \<open>ReportCsv\<close>).  On the server: users are isolated from each other (\<open>Isolation\<close>), the tables stay
  well-formed, an administrator remains as long as only accounts that are administrators in the database
  delete accounts (\<open>Requests\<close>; a token that outlives its role breaks it, \<open>UserFlows\<close>); the order in which the programs start does not matter to the
  schema (\<open>Startup\<close>).  In the worker: a sync reconciles the schedule with the table,
  no job is scheduled twice, a replaced run is cancelled, and where the policy \<open>Forbid\<close> does not do what it
  says.  Across them: a job made on the page is scheduled, a stopped one no longer, a triggered run is shown
  with its outcome, and the runs of one user are no business of another (\<open>JobLife\<close>, \<open>RunLife\<close>).  In the
  receiver: the store refines an unbounded log, the page mirrors the server but for what happens between the
  reading of the history and the subscription, selection and detail agree,
  the detail panel shows the request and nothing else while the list takes a path as markup; a job against
  one of the receiver's captured paths shows there, and its execution shows the status it asked for.  In the demo:
  counters, marks and orders agree from the ticker to the consumer.  In the deployments: the client's
  requests arrive at the API, API and worker share their database, pages open by their address, and the
  deployed producer and consumer use different topics (\<open>Deployment\<close>).

  Parameters.  Code that is not in the repository is an argument, with what its documentation promises
  as a named predicate: the routers of react-router (\<open>router_contract\<close>) and chi (\<open>chi_contract\<close>), bcrypt
  (\<open>bcrypt_contract\<close>), the signing and verification of tokens, the cron library (\<open>cron_contract\<close>), date
  formats and the clock, the query library (\<open>query_contract\<close>), ids drawn by the database, the outcome of an HTTP request.  Each predicate has an
  instance (\<open>ranked\<close>, \<open>chi_like\<close>, \<open>list_cron\<close>, \<open>map_cache\<close>), on which the witnesses evaluate.

  Bounds.  Integers are kept in their range where the code's type limits them: 64-bit \<open>int\<close>
  when a body or a query is read, 32-bit columns, \<open>VARCHAR\<close> lengths, the hundred entries of the
  receiver's history, the eight messages of a client's channel, the 64000 and 10000 bytes kept of a body.
  The bar chart is computed in doubles; the ring, the rates and the durations over exact rationals. Time in
  the worker and ids are texts or numbers compared by value; an id of a request is read by the database
  first (\<open>cast_id\<close>). Loops over lists are structural; the parser of JSON and the escapes
  recurse on a measure, so nothing runs on fuel but the following of redirects, for which one hop is proved
  enough.

  Not modelled: the timers and the loading states of the query library (pending, data and error are
  arguments of the views, of the cache only its data and invalidations are kept), CSS and icons, the browser's own validation of inputs, the database's connection and
  transactions, CORS and logging, the mounting of the page, the options of the style tools, and of the
  deployment its probes, resources, scaling, ingress, images, monitoring and infrastructure: they hold no
  state of the program's own or are pure input and output.
\<close>

section \<open>Navigation\<close>

text \<open>C40: No dead links.  For an authenticated visitor, with any router that keeps the documented
  contract and job ids that can stand in a path, every link of the layout, the job list, the
  dashboard and the job page, and every navigation after creating, editing or deleting a job, leads
  to a page: none of them ends in a redirect or on a blank screen.\<close>

theorem no_dead_links:
  assumes "router_contract pick" and "isAuthenticated a"
    and "list_all (\<lambda>j. id_ok (job_id j)) (job # jobs)"
    and "list_all (\<lambda>e. id_ok (js_text (field e ''job_id''))) running"
    and "Jobs query (Some jobs) loading = Some list_view"
  shows "list_all (leads_to_page pick a)
      (links (Layout a list_view)
       @ links (Layout a (Dashboard fmt el (Some jobs) es (Some running)))
       @ links (Layout a (JobDetail fmt (job_id job) (Some job) False execs))
       @ destinations (NewJob_onSuccess (JObj job))
       @ destinations (EditJob_onSuccess (job_id job))
       @ destinations (JobDetail_onSuccess (job_id job) Remove))"
proof -
  note lead = leads_Layout [OF assms(1,2)]
  have ids: "list_all (\<lambda>j. id_ok (job_id j)) jobs" "id_ok (job_id job)"
    using assms(3) by simp_all
  have "list_all (leads_to_page pick a) (links (Layout a list_view))"
    by (rule lead) (rule leads_Jobs [OF assms(1,2) ids(1) assms(5)])
  moreover have "list_all (leads_to_page pick a)
      (links (Layout a (Dashboard fmt el (Some jobs) es (Some running))))"
    by (rule lead) (rule leads_Dashboard [OF assms(1,2) ids(1) assms(4)])
  moreover have "list_all (leads_to_page pick a)
      (links (Layout a (JobDetail fmt (job_id job) (Some job) False execs)))"
    by (rule lead) (rule leads_JobDetail [OF assms(1,2) ids(2)])
  moreover have "leads_to_page pick a (job_link (job_id job))" "leads_to_page pick a ''/jobs''"
    using leads_job(1) [OF assms(1,2) ids(2)] leads_literal [OF assms(1,2) leads_nav_literals(2)] by simp_all
  ultimately show ?thesis
    by (simp add: NewJob_onSuccess_def EditJob_onSuccess_def job_id_def field_def)
qed

theorem no_dead_links_witness:
  "let a = \<lparr>token = JStr ''t'', user = JObj [(''role'', JStr ''admin'')]\<rparr>;
       job = [(''id'', JStr ''7''), (''name'', JStr ''n''), (''url'', JStr ''u''), (''status'', JStr ''active'')];
       fmt = \<lparr>ago = js_text, full_date = js_text\<rparr>
   in list_all (leads_to_page ranked a) (links (Layout a (JobDetail fmt ''7'' (Some job) False None))) \<and>
      links (Layout a (JobDetail fmt ''7'' (Some job) False None)) =
        [''/dashboard'', ''/jobs'', ''/jobs/new'', ''/report'', ''/admin/jobs'', ''/admin/users'',
         ''/profile'', ''/profile'', ''/jobs'', ''/jobs/7/edit'']"
proof -
  let ?a = "\<lparr>token = JStr ''t'', user = JObj [(''role'', JStr ''admin'')]\<rparr>"
  let ?job = "[(''id'', JStr ''7''), (''name'', JStr ''n''), (''url'', JStr ''u''), (''status'', JStr ''active'')]"
  let ?fmt = "\<lparr>ago = js_text, full_date = js_text\<rparr>"
  have auth: "isAuthenticated ?a" "isAdmin ?a" by (simp_all add: isAuthenticated_def isAdmin_def)
  have id: "job_id ?job = ''7''" by (simp add: job_id_def)
  have ids: "list_all (\<lambda>j. id_ok (job_id j)) (?job # [?job])"
    by (simp add: id id_ok_def segment_def lower_char_def)
  obtain view where view: "Jobs [] (Some [?job]) False = Some view"
    using jobs_view_exists [of "[?job]" "[]" False] by (auto simp: has_text_def)
  have running: "list_all (\<lambda>e. id_ok (js_text (field e ''job_id''))) []" by simp
  have "list_all (leads_to_page ranked ?a) (links (Layout ?a (JobDetail ?fmt ''7'' (Some ?job) False None)))"
    using no_dead_links [OF ranked_contract auth(1) ids running view, of ?fmt "\<lambda>_. 0" None None]
    unfolding id list_all_append by blast
  moreover have "links (Layout ?a (JobDetail ?fmt ''7'' (Some ?job) False None)) =
      [''/dashboard'', ''/jobs'', ''/jobs/new'', ''/report'', ''/admin/jobs'', ''/admin/users'',
       ''/profile'', ''/profile'', ''/jobs'', ''/jobs/7/edit'']"
    by (simp add: links_Layout links_JobDetail auth navItems_def adminItems_def edit_link_def)
  ultimately show ?thesis unfolding Let_def by blast
qed

end
